theory Spec2Isabelle
  imports Main "HOL-Library.Word" "HOL-Library.Signed_Division"
begin

unbundle bit_operations_syntax

section \<open>The serial port of lib\_atlas (serial\_impl\_inl.h)\<close>

text \<open>
  The model follows \<^verbatim>\<open>Serial::SerialImpl\<close> method by method. The members of the
  object are a record that every method takes and returns. The operating system is an
  oracle: the method hands it a system call and reads the reply. The calls made so far
  are kept in order, so that a statement can say which calls a method makes and with
  which arguments. A thrown exception is the \<open>Inl\<close> of the result, beside the list of
  calls and the members as they stand when it is thrown.

  The bytes that \<^verbatim>\<open>Read\<close> and \<^verbatim>\<open>Write\<close> move are not part of the model, only their counts.
\<close>

subsection \<open>Machine integers and enumerations\<close>

type_synonym uint32_t = "32 word"
type_synonym size_t = "64 word"
type_synonym long = "64 word"

text \<open>
  Modelled from the spec: the enumerators of \<^verbatim>\<open>bytesize_t\<close>, \<^verbatim>\<open>parity_t\<close>, \<^verbatim>\<open>stopbits_t\<close> and
  \<^verbatim>\<open>flowcontrol_t\<close>. They are declared in lib\_atlas/io/serial.h, which is not among the
  sources. The spec lists the byte sizes 5, 6, 7, 8, the parities none, odd, even, mark,
  space and the stop bits 1, 1.5, 2; the comment at line 514 of serial\_impl\_inl.h says
  that \<^verbatim>\<open>stopbits_one_point_five\<close> is the integer 3. The parities and flow controls are
  numbered from 0 in the order the spec lists them. An enumeration of C++ is an integer,
  and line 512 adds the members as integers, so the types are \<open>int\<close>.
\<close>

type_synonym bytesize_t = int
type_synonym parity_t = int
type_synonym stopbits_t = int
type_synonym flowcontrol_t = int

definition fivebits :: bytesize_t where "fivebits = 5"
definition sixbits :: bytesize_t where "sixbits = 6"
definition sevenbits :: bytesize_t where "sevenbits = 7"
definition eightbits :: bytesize_t where "eightbits = 8"

definition parity_none :: parity_t where "parity_none = 0"
definition parity_odd :: parity_t where "parity_odd = 1"
definition parity_even :: parity_t where "parity_even = 2"
definition parity_mark :: parity_t where "parity_mark = 3"
definition parity_space :: parity_t where "parity_space = 4"

definition stopbits_one :: stopbits_t where "stopbits_one = 1"
definition stopbits_two :: stopbits_t where "stopbits_two = 2"
definition stopbits_one_point_five :: stopbits_t where "stopbits_one_point_five = 3"

definition flowcontrol_none :: flowcontrol_t where "flowcontrol_none = 0"
definition flowcontrol_software :: flowcontrol_t where "flowcontrol_software = 1"
definition flowcontrol_hardware :: flowcontrol_t where "flowcontrol_hardware = 2"

text \<open>
  Modelled from the spec: \<^verbatim>\<open>struct Timeout\<close> of serial.h. Its five fields are the spec's
  timeout policy; \<^verbatim>\<open>std::min\<close> at line 626 takes \<^verbatim>\<open>inter_byte_timeout\<close> beside a
  \<^verbatim>\<open>uint32_t\<close>, so the fields are \<^verbatim>\<open>uint32_t\<close>, and \<^verbatim>\<open>Timeout::max()\<close>, the spec's
  "maximum" sentinel, is the largest value of that type.
\<close>

record Timeout =
  inter_byte_timeout :: uint32_t
  read_timeout_constant :: uint32_t
  read_timeout_multiplier :: uint32_t
  write_timeout_constant :: uint32_t
  write_timeout_multiplier :: uint32_t

definition Timeout_max :: uint32_t where
  "Timeout_max = 4294967295"

subsection \<open>The members of SerialImpl\<close>

text \<open>
  The members keep their names without the final underscore (\<^verbatim>\<open>fd_\<close> is \<open>fd\<close>).

  Modelled from the spec: the members are declared in lib\_atlas/io/details/serial\_impl.h,
  which is not among the sources. The spec's data model lists them; their types are those
  of their uses in serial\_impl\_inl.h: \<^verbatim>\<open>fd_\<close> receives the \<^verbatim>\<open>int\<close> of \<^verbatim>\<open>::open\<close>, \<^verbatim>\<open>baudrate_\<close>
  is an \<^verbatim>\<open>unsigned long\<close> (line 391 casts it to \<^verbatim>\<open>int\<close>), and \<^verbatim>\<open>byte_time_ns_\<close> is a
  \<^verbatim>\<open>uint32_t\<close> like the \<^verbatim>\<open>bit_time_ns\<close> of line 511 whose multiple it receives.
\<close>

record SerialImpl =
  port :: string
  fd :: int
  is_open :: bool
  xonxoff :: bool
  rtscts :: bool
  timeout :: Timeout
  baudrate :: "64 word"
  byte_time_ns :: uint32_t
  parity :: parity_t
  bytesize :: bytesize_t
  stopbits :: stopbits_t
  flowcontrol :: flowcontrol_t

subsection \<open>Exceptions\<close>

text \<open>
  \<^verbatim>\<open>ATLAS_THROW(IOException, x)\<close> throws an \<^verbatim>\<open>IOException\<close> built from a message or from
  \<^verbatim>\<open>errno\<close>. The control-line methods throw a \<^verbatim>\<open>SerialException\<close> whose text is a fixed
  prefix followed by \<^verbatim>\<open>errno\<close> and \<^verbatim>\<open>strerror(errno)\<close>: \<open>SerialException_errno\<close> keeps the
  prefix and the number. \<open>SIGFPE\<close> is the trap of an integer division by zero.
\<close>

datatype exn =
    invalid_argument string
  | SerialException string
  | SerialException_errno string int
  | PortNotOpenedException string
  | IOException_msg string
  | IOException_errno int
  | SIGFPE

definition EINTR :: int where "EINTR = 4"
definition ENFILE :: int where "ENFILE = 23"
definition EMFILE :: int where "EMFILE = 24"

subsection \<open>The line discipline and the operating system\<close>

text \<open>
  A flag word of \<^verbatim>\<open>struct termios\<close> is the set of the flags that are on: \<^verbatim>\<open>x |= F\<close> is a
  union and \<^verbatim>\<open>x &= ~F\<close> a difference. The character size is the one of \<open>CS5\<close> .. \<open>CS8\<close>
  that is in \<^verbatim>\<open>c_cflag\<close>, and \<^verbatim>\<open>CSIZE\<close> masks the four. \<open>other_flag\<close> stands for the
  bits the source never names.
\<close>

datatype tcflag =
    CLOCAL | CREAD | ICANON | ECHO | ECHOE | ECHOK | ECHONL | ISIG | IEXTEN
  | OPOST | INLCR | IGNCR | ICRNL | IGNBRK | IUCLC | PARMRK
  | CS5 | CS6 | CS7 | CS8 | CSTOPB | INPCK | ISTRIP | PARENB | PARODD | CMSPAR
  | IXON | IXOFF | IXANY | CRTSCTS | CNEW_RTSCTS | other_flag nat

definition CSIZE :: "tcflag set" where
  "CSIZE = {CS5, CS6, CS7, CS8}"

type_synonym speed_t = nat

record termios =
  c_iflag :: "tcflag set"
  c_oflag :: "tcflag set"
  c_cflag :: "tcflag set"
  c_lflag :: "tcflag set"
  c_cc_VMIN :: nat
  c_cc_VTIME :: nat
  c_ispeed :: speed_t
  c_ospeed :: speed_t

text \<open>\<^verbatim>\<open>struct serial_struct\<close> of linux/serial.h, with the two masks the source uses.\<close>

record serial_struct =
  baud_base :: "32 word"
  custom_divisor :: "32 word"
  flags :: "32 word"

definition ASYNC_SPD_MASK :: "32 word" where "ASYNC_SPD_MASK = 0x1030"
definition ASYNC_SPD_CUST :: "32 word" where "ASYNC_SPD_CUST = 0x0030"

datatype modem_line = TIOCM_CTS | TIOCM_DSR | TIOCM_RI | TIOCM_CD | TIOCM_other nat

text \<open>
  The system calls of the source, each with the arguments the source gives it. The
  timeout of a \<^verbatim>\<open>pselect\<close> on the device is in milliseconds, as the source computes it
  before \<^verbatim>\<open>TimeSpecFromMs\<close>; the \<^verbatim>\<open>pselect\<close> on no descriptor of line 592 has the two
  fields of its \<^verbatim>\<open>timespec\<close>, \<^verbatim>\<open>tv_sec\<close> and \<^verbatim>\<open>tv_nsec\<close>, as line 591 fills them.
  \<open>clock_now\<close> is the reading of the monotonic clock by \<^verbatim>\<open>MilliTimer\<close>.
\<close>

datatype syscall =
    sys_open string
  | sys_close int
  | sys_tcgetattr int
  | sys_tcsetattr int termios
  | ioctl_IOSSIOSPEED int speed_t
  | ioctl_TIOCGSERIAL int
  | ioctl_TIOCSSERIAL int serial_struct
  | ioctl_TIOCINQ int
  | ioctl_TIOCMGET int
  | ioctl_TIOCMIWAIT int "modem_line set"
  | pselect_readfds int int
  | pselect_writefds int int
  | pselect_sleep int int
  | sys_read int size_t
  | sys_write int size_t
  | sys_usleep nat
  | clock_now

text \<open>
  What a call gives back: its return value, \<^verbatim>\<open>errno\<close>, and what it stores through its
  pointer arguments (a count or a clock reading in milliseconds, the line settings, the
  serial structure, the modem status lines, whether the descriptor is still in the set
  after \<^verbatim>\<open>pselect\<close>). A call reads the fields it has a use for.
\<close>

record reply =
  ret :: int
  errno :: int
  out_int :: int
  out_termios :: termios
  out_serial :: serial_struct
  out_status :: "modem_line set"
  fd_isset :: bool

text \<open>
  The operating system answers the \<open>k\<close>-th call of a run, given the call. The world is
  the list of the calls made so far, oldest first.
\<close>

type_synonym os = "nat \<Rightarrow> syscall \<Rightarrow> reply"
type_synonym world = "syscall list"

definition sys :: "os \<Rightarrow> syscall \<Rightarrow> world \<Rightarrow> reply \<times> world" where
  "sys os c w = (os (length w) c, w @ [c])"

text \<open>
  From POSIX, not from the source: the timeout of a \<^verbatim>\<open>pselect\<close> is a valid \<^verbatim>\<open>timespec\<close> when
  its seconds are not negative and its nanoseconds are at least 0 and less than 1000
  million. With a valid timeout and no descriptor to watch, \<^verbatim>\<open>pselect\<close> blocks for that
  time (unless a signal arrives); with any other timeout it fails at once with
  \<^verbatim>\<open>EINVAL\<close> and has not blocked. \<open>nanoseconds_slept\<close> is the time such a call blocks.
\<close>

definition valid_timespec :: "int \<Rightarrow> int \<Rightarrow> bool" where
  "valid_timespec tv_sec tv_nsec = (0 \<le> tv_sec \<and> 0 \<le> tv_nsec \<and> tv_nsec < 1000000000)"

definition nanoseconds_slept :: "int \<Rightarrow> int \<Rightarrow> int" where
  "nanoseconds_slept tv_sec tv_nsec =
     (if valid_timespec tv_sec tv_nsec then tv_sec * 1000000000 + tv_nsec else 0)"

text \<open>
  What the preprocessor decides: which \<^verbatim>\<open>B\<close>\<open>n\<close> macros termios.h defines and their
  values, which branch sets a custom baud rate, and which of the other macros the
  source tests with \<^verbatim>\<open>#ifdef\<close> are defined. (\<^verbatim>\<open>_BSD_SOURCE\<close> only chooses between
  \<^verbatim>\<open>cfsetspeed\<close> and the pair \<^verbatim>\<open>cfsetispeed\<close>, \<^verbatim>\<open>cfsetospeed\<close>, which store the same two
  speeds.)
\<close>

datatype custom_baud_path = IOSSIOSPEED_path | TIOCSSERIAL_path | no_custom_path

record platform =
  B_macro :: "nat \<Rightarrow> speed_t option"
  custom_baud_support :: custom_baud_path
  def_IUCLC :: bool
  def_PARMRK :: bool
  def_CMSPAR :: bool
  def_IXANY :: bool
  def_CRTSCTS :: bool
  def_TIOCMIWAIT :: bool

subsection \<open>ReconfigurePort (lines 149-519)\<close>

text \<open>Lines 162-174: raw mode, no echo, binary.\<close>

definition set_raw_mode :: "platform \<Rightarrow> termios \<Rightarrow> termios" where
  "set_raw_mode plat options =
     (let o1 = options\<lparr>c_cflag := c_cflag options \<union> {CLOCAL, CREAD}\<rparr>;
          o2 = o1\<lparr>c_lflag := c_lflag o1 - {ICANON, ECHO, ECHOE, ECHOK, ECHONL, ISIG, IEXTEN}\<rparr>;
          o3 = o2\<lparr>c_oflag := c_oflag o2 - {OPOST}\<rparr>;
          o4 = o3\<lparr>c_iflag := c_iflag o3 - {INLCR, IGNCR, ICRNL, IGNBRK}\<rparr>;
          o5 = (if def_IUCLC plat then o4\<lparr>c_iflag := c_iflag o4 - {IUCLC}\<rparr> else o4)
      in if def_PARMRK plat then o5\<lparr>c_iflag := c_iflag o5 - {PARMRK}\<rparr> else o5)"

text \<open>
  Lines 180-366: the labels of the \<^verbatim>\<open>switch\<close>, in the order of the source. A label is
  compiled only where termios.h defines its macro.
\<close>

definition baud_cases :: "nat list" where
  "baud_cases =
     [0, 50, 75, 110, 134, 150, 200, 300, 600, 1200, 1800, 2400, 4800, 7200, 9600,
      14400, 19200, 28800, 57600, 76800, 38400, 115200, 128000, 153600, 230400,
      256000, 460800, 576000, 921600, 1000000, 1152000, 1500000, 2000000, 2500000,
      3000000, 3500000, 4000000]"

definition enumerated_baud :: "platform \<Rightarrow> 64 word \<Rightarrow> speed_t option" where
  "enumerated_baud plat b =
     (if unat b \<in> set baud_cases then B_macro plat (unat b) else None)"

text \<open>
  Lines 367-401, the \<^verbatim>\<open>default\<close> label. The division at line 391 is a division of
  \<^verbatim>\<open>int\<close>: it traps when the divisor is 0 and when the quotient does not fit.
\<close>

definition set_custom_baud ::
  "platform \<Rightarrow> os \<Rightarrow> SerialImpl \<Rightarrow> world \<Rightarrow> (exn + unit) \<times> world" where
  "set_custom_baud plat os p w =
     (case custom_baud_support plat of
        IOSSIOSPEED_path \<Rightarrow>
          (let (r, w1) = sys os (ioctl_IOSSIOSPEED (fd p) (unat (baudrate p))) w in
           if ret r = - 1 then (Inl (IOException_errno (errno r)), w1) else (Inr (), w1))
      | TIOCSSERIAL_path \<Rightarrow>
          (let (r1, w1) = sys os (ioctl_TIOCGSERIAL (fd p)) w in
           if ret r1 = - 1 then (Inl (IOException_errno (errno r1)), w1)
           else
             (let ser = out_serial r1;
                  d = (ucast (baudrate p) :: 32 word) in
              if d = 0 \<or> (sint (baud_base ser) = - (2 ^ 31) \<and> sint d = - 1)
              then (Inl SIGFPE, w1)
              else
                (let ser1 = ser\<lparr>custom_divisor := word_of_int (sint (baud_base ser) sdiv sint d)\<rparr>;
                     ser2 = ser1\<lparr>flags := flags ser1 AND NOT ASYNC_SPD_MASK\<rparr>;
                     ser3 = ser2\<lparr>flags := flags ser2 OR ASYNC_SPD_CUST\<rparr>;
                     (r2, w2) = sys os (ioctl_TIOCSSERIAL (fd p) ser3) w1
                 in if ret r2 = - 1 then (Inl (IOException_errno (errno r2)), w2)
                    else (Inr (), w2))))
      | no_custom_path \<Rightarrow>
          (Inl (invalid_argument ''OS does not currently support custom bauds''), w))"

text \<open>Lines 178-410.\<close>

definition setup_baud ::
  "platform \<Rightarrow> os \<Rightarrow> SerialImpl \<Rightarrow> termios \<Rightarrow> world \<Rightarrow> (exn + termios) \<times> world" where
  "setup_baud plat os p options w =
     (case enumerated_baud plat (baudrate p) of
        Some baud \<Rightarrow> (Inr (options\<lparr>c_ispeed := baud, c_ospeed := baud\<rparr>), w)
      | None \<Rightarrow>
          (case set_custom_baud plat os p w of
             (Inl e, w1) \<Rightarrow> (Inl e, w1)
           | (Inr u, w1) \<Rightarrow> (Inr options, w1)))"

text \<open>Lines 412-423.\<close>

definition setup_char_len :: "SerialImpl \<Rightarrow> termios \<Rightarrow> exn + termios" where
  "setup_char_len p options =
     (let o1 = options\<lparr>c_cflag := c_cflag options - CSIZE\<rparr> in
      if bytesize p = eightbits then Inr (o1\<lparr>c_cflag := c_cflag o1 \<union> {CS8}\<rparr>)
      else if bytesize p = sevenbits then Inr (o1\<lparr>c_cflag := c_cflag o1 \<union> {CS7}\<rparr>)
      else if bytesize p = sixbits then Inr (o1\<lparr>c_cflag := c_cflag o1 \<union> {CS6}\<rparr>)
      else if bytesize p = fivebits then Inr (o1\<lparr>c_cflag := c_cflag o1 \<union> {CS5}\<rparr>)
      else Inl (invalid_argument ''invalid char len''))"

text \<open>Lines 424-433: one and a half stop bits are programmed as two.\<close>

definition setup_stopbits :: "SerialImpl \<Rightarrow> termios \<Rightarrow> exn + termios" where
  "setup_stopbits p options =
     (if stopbits p = stopbits_one
      then Inr (options\<lparr>c_cflag := c_cflag options - {CSTOPB}\<rparr>)
      else if stopbits p = stopbits_one_point_five
      then Inr (options\<lparr>c_cflag := c_cflag options \<union> {CSTOPB}\<rparr>)
      else if stopbits p = stopbits_two
      then Inr (options\<lparr>c_cflag := c_cflag options \<union> {CSTOPB}\<rparr>)
      else Inl (invalid_argument ''invalid stop bit''))"

text \<open>Lines 434-459.\<close>

definition setup_parity :: "platform \<Rightarrow> SerialImpl \<Rightarrow> termios \<Rightarrow> exn + termios" where
  "setup_parity plat p options =
     (let o1 = options\<lparr>c_iflag := c_iflag options - {INPCK, ISTRIP}\<rparr> in
      if parity p = parity_none
      then Inr (o1\<lparr>c_cflag := c_cflag o1 - {PARENB, PARODD}\<rparr>)
      else if parity p = parity_even
      then Inr (o1\<lparr>c_cflag := (c_cflag o1 - {PARODD}) \<union> {PARENB}\<rparr>)
      else if parity p = parity_odd
      then Inr (o1\<lparr>c_cflag := c_cflag o1 \<union> {PARENB, PARODD}\<rparr>)
      else if def_CMSPAR plat then
        (if parity p = parity_mark
         then Inr (o1\<lparr>c_cflag := c_cflag o1 \<union> {PARENB, CMSPAR, PARODD}\<rparr>)
         else if parity p = parity_space
         then Inr (o1\<lparr>c_cflag := (c_cflag o1 \<union> {PARENB, CMSPAR}) - {PARODD}\<rparr>)
         else Inl (invalid_argument ''invalid parity''))
      else
        (if parity p = parity_mark \<or> parity p = parity_space
         then Inl (invalid_argument ''OS does not support mark or space parity'')
         else Inl (invalid_argument ''invalid parity'')))"

text \<open>Lines 460-472: the two members that mirror the flow control.\<close>

definition setup_flow_control :: "SerialImpl \<Rightarrow> SerialImpl" where
  "setup_flow_control p =
     (let p1 = (if flowcontrol p = flowcontrol_none
                then p\<lparr>xonxoff := False, rtscts := False\<rparr> else p);
          p2 = (if flowcontrol p1 = flowcontrol_software
                then p1\<lparr>xonxoff := True, rtscts := False\<rparr> else p1)
      in if flowcontrol p2 = flowcontrol_hardware
         then p2\<lparr>xonxoff := False, rtscts := True\<rparr> else p2)"

text \<open>Lines 473-498.\<close>

definition apply_flow_control :: "platform \<Rightarrow> SerialImpl \<Rightarrow> termios \<Rightarrow> termios" where
  "apply_flow_control plat p options =
     (let o1 = (if xonxoff p then options\<lparr>c_iflag := c_iflag options \<union> {IXON, IXOFF}\<rparr>
                else if def_IXANY plat
                then options\<lparr>c_iflag := c_iflag options - {IXON, IXOFF, IXANY}\<rparr>
                else options\<lparr>c_iflag := c_iflag options - {IXON, IXOFF}\<rparr>);
          f = (if def_CRTSCTS plat then CRTSCTS else CNEW_RTSCTS)
      in if rtscts p then o1\<lparr>c_cflag := c_cflag o1 \<union> {f}\<rparr>
         else o1\<lparr>c_cflag := c_cflag o1 - {f}\<rparr>)"

text \<open>
  Lines 510-518. Line 511 divides in \<^verbatim>\<open>double\<close> and converts the quotient to
  \<^verbatim>\<open>uint32_t\<close>: the quotient of \<open>10\<^sup>9\<close> by an integer, rounded to a \<^verbatim>\<open>double\<close>, has the
  integer part of the exact quotient. (For the rate 0 the conversion is undefined in
  C++; the model gives 0.) Line 512 multiplies in \<^verbatim>\<open>unsigned int\<close>, so the product
  wraps at \<open>2\<^sup>3\<^sup>2\<close>. Line 517 adds \<open>(1.5 - stopbits_one_point_five) * bit_time_ns\<close> in
  \<^verbatim>\<open>double\<close> and converts the sum back, dropping the fraction: \<open>half_trunc\<close> halves twice
  the sum, towards zero.
\<close>

definition bit_time_ns :: "64 word \<Rightarrow> uint32_t" where
  "bit_time_ns b = of_nat (10 ^ 9 div unat b)"

definition half_trunc :: "int \<Rightarrow> int" where
  "half_trunc x = (if 0 \<le> x then x div 2 else - ((- x) div 2))"

definition byte_time_estimate ::
  "64 word \<Rightarrow> bytesize_t \<Rightarrow> parity_t \<Rightarrow> stopbits_t \<Rightarrow> uint32_t" where
  "byte_time_estimate b bs par sb =
     (let bit = bit_time_ns b;
          t = bit * word_of_int (1 + bs + par + sb)
      in if sb = stopbits_one_point_five
         then word_of_int
                (half_trunc (2 * uint t + (3 - 2 * stopbits_one_point_five) * uint bit))
         else t)"

definition ReconfigurePort ::
  "platform \<Rightarrow> os \<Rightarrow> world \<Rightarrow> SerialImpl \<Rightarrow> (exn + unit) \<times> world \<times> SerialImpl" where
  "ReconfigurePort plat os w p =
     (if fd p = - 1
      then (Inl (IOException_msg ''Invalid file descriptor, is the serial port open?''), w, p)
      else
        (let (r, w1) = sys os (sys_tcgetattr (fd p)) w in
         if ret r = - 1 then (Inl (IOException_msg ''::tcgetattr''), w1, p)
         else
           (case setup_baud plat os p (set_raw_mode plat (out_termios r)) w1 of
              (Inl e, w2) \<Rightarrow> (Inl e, w2, p)
            | (Inr o1, w2) \<Rightarrow>
                (case setup_char_len p o1 of
                   Inl e \<Rightarrow> (Inl e, w2, p)
                 | Inr o2 \<Rightarrow>
                     (case setup_stopbits p o2 of
                        Inl e \<Rightarrow> (Inl e, w2, p)
                      | Inr o3 \<Rightarrow>
                          (case setup_parity plat p o3 of
                             Inl e \<Rightarrow> (Inl e, w2, p)
                           | Inr o4 \<Rightarrow>
                               (let p1 = setup_flow_control p;
                                    o5 = apply_flow_control plat p1 o4;
                                    o6 = o5\<lparr>c_cc_VMIN := 0, c_cc_VTIME := 0\<rparr>;
                                    (r2, w3) = sys os (sys_tcsetattr (fd p1) o6) w2
                                in (Inr (), w3,
                                    p1\<lparr>byte_time_ns :=
                                         byte_time_estimate (baudrate p1) (bytesize p1)
                                           (parity p1) (stopbits p1)\<rparr>))))))))"

subsection \<open>Open (lines 119-145)\<close>

text \<open>
  \<^verbatim>\<open>Open\<close> calls itself when \<^verbatim>\<open>::open\<close> is interrupted (line 133), and returns when the
  nested call has returned (line 134): the activation of the caller stays on the stack
  as long as the nested call runs. Beside the outcome, the list of calls and the
  members, the result has the number of activations of \<^verbatim>\<open>Open\<close> that were on the stack
  together at the deepest point: 1 for a call that does not call itself, and one more
  than the nested call reports otherwise. A run that is interrupted for ever does not
  return: its value is \<open>None\<close>.
\<close>

partial_function (option) Open ::
  "platform \<Rightarrow> os \<Rightarrow> world \<Rightarrow> SerialImpl
     \<Rightarrow> ((exn + unit) \<times> world \<times> SerialImpl \<times> nat) option" where
  "Open plat os w p =
     (if port p = [] then Some (Inl (invalid_argument ''Empty port is invalid.''), w, p, 1)
      else if is_open p then Some (Inl (SerialException ''Serial port already open.''), w, p, 1)
      else
        (let (r, w1) = sys os (sys_open (port p)) w;
             p1 = p\<lparr>fd := ret r\<rparr> in
         if fd p1 = - 1 then
           (if errno r = EINTR then
              Option.bind (Open plat os w1 p1)
                (\<lambda>(res, w2, p2, frames). Some (res, w2, p2, Suc frames))
            else if errno r = ENFILE \<or> errno r = EMFILE
            then Some (Inl (IOException_msg ''Too many file handles open.''), w1, p1, 1)
            else Some (Inl (IOException_errno (errno r)), w1, p1, 1))
         else
           (case ReconfigurePort plat os w1 p1 of
              (Inl e, w2, p2) \<Rightarrow> Some (Inl e, w2, p2, 1)
            | (Inr u, w2, p2) \<Rightarrow> Some (Inr (), w2, p2\<lparr>is_open := True\<rparr>, 1))))"

subsection \<open>Close (lines 523-536)\<close>

definition Close :: "os \<Rightarrow> world \<Rightarrow> SerialImpl \<Rightarrow> (exn + unit) \<times> world \<times> SerialImpl" where
  "Close os w p =
     (if is_open p then
        (if fd p \<noteq> - 1 then
           (let (r, w1) = sys os (sys_close (fd p)) w in
            if ret r = 0 then (Inr (), w1, p\<lparr>fd := - 1, is_open := False\<rparr>)
            else (Inl (IOException_errno (errno r)), w1, p))
         else (Inr (), w, p\<lparr>is_open := False\<rparr>))
      else (Inr (), w, p))"

subsection \<open>Available, WaitReadable, WaitByteTimes (lines 544-593)\<close>

definition Available :: "os \<Rightarrow> SerialImpl \<Rightarrow> world \<Rightarrow> (exn + size_t) \<times> world" where
  "Available os p w =
     (if \<not> is_open p then (Inr 0, w)
      else
        (let (r, w1) = sys os (ioctl_TIOCINQ (fd p)) w in
         if ret r = - 1 then (Inl (IOException_errno (errno r)), w1)
         else (Inr (word_of_int (out_int r)), w1)))"

definition WaitReadable ::
  "os \<Rightarrow> SerialImpl \<Rightarrow> uint32_t \<Rightarrow> world \<Rightarrow> (exn + bool) \<times> world" where
  "WaitReadable os p tmo w =
     (let (r, w1) = sys os (pselect_readfds (fd p) (uint tmo)) w in
      if ret r < 0 then
        (if errno r = EINTR then (Inr False, w1)
         else (Inl (IOException_errno (errno r)), w1))
      else if ret r = 0 then (Inr False, w1)
      else if \<not> fd_isset r
      then (Inl (IOException_msg ''select reports ready to read, but our fd isn't in the list, this shouldn't happen!''), w1)
      else (Inr True, w1))"

text \<open>
  Line 591 multiplies a \<^verbatim>\<open>uint32_t\<close> by a \<^verbatim>\<open>size_t\<close>, in 64 bits, converts the product to
  \<^verbatim>\<open>long\<close> and stores it in \<^verbatim>\<open>tv_nsec\<close>, beside a \<^verbatim>\<open>tv_sec\<close> of 0: the product is not
  divided into seconds and nanoseconds. Line 592 does not read what \<^verbatim>\<open>pselect\<close> returns.
\<close>

definition WaitByteTimes :: "os \<Rightarrow> SerialImpl \<Rightarrow> size_t \<Rightarrow> world \<Rightarrow> world" where
  "WaitByteTimes os p count w =
     snd (sys os (pselect_sleep 0 (sint (ucast (byte_time_ns p) * count))) w)"

subsection \<open>The timer\<close>

text \<open>
  Modelled from the spec: \<^verbatim>\<open>MilliTimer\<close> of lib\_atlas/sys/timer.h, which is not among the
  sources. The spec has the total timeout "enforced by a monotonic deadline": the
  constructor reads the clock and keeps the deadline, the reading plus the duration, in
  milliseconds; \<^verbatim>\<open>Remaining()\<close> reads the clock again and gives the deadline minus the
  reading.
\<close>

definition MilliTimer :: "os \<Rightarrow> int \<Rightarrow> world \<Rightarrow> int \<times> world" where
  "MilliTimer os millis w = (let (r, w1) = sys os clock_now w in (out_int r + millis, w1))"

definition Remaining :: "os \<Rightarrow> int \<Rightarrow> world \<Rightarrow> int \<times> world" where
  "Remaining os deadline w = (let (r, w1) = sys os clock_now w in (deadline - out_int r, w1))"

subsection \<open>Read (lines 597-672)\<close>

text \<open>What one turn of a loop does: go round again, leave the loop, or throw.\<close>

datatype 'a step = Continue 'a | Break 'a | Throw exn

text \<open>The exceptions of lines 648 and 664.\<close>

definition read_disconnected :: exn where
  "read_disconnected =
     SerialException
       ''device reports readiness to read but returned no data (device disconnected?)''"

definition read_over_read :: exn where
  "read_over_read =
     SerialException
       ''read over read, too many bytes where read, this shouldn't happen, might be a logical error!''"

text \<open>Lines 630-638: the wait that lets a multi-byte read arrive whole.\<close>

definition read_coalesce ::
  "os \<Rightarrow> SerialImpl \<Rightarrow> size_t \<Rightarrow> size_t \<Rightarrow> world \<Rightarrow> (exn + unit) \<times> world" where
  "read_coalesce os p sz bytes_read w =
     (if 1 < sz \<and> inter_byte_timeout (timeout p) = Timeout_max then
        (case Available os p w of
           (Inl e, w1) \<Rightarrow> (Inl e, w1)
         | (Inr bytes_available, w1) \<Rightarrow>
             (if bytes_available + bytes_read < sz
              then (Inr (), WaitByteTimes os p (sz - (bytes_available + bytes_read)) w1)
              else (Inr (), w1)))
      else (Inr (), w))"

text \<open>Lines 639-668: the transfer after the device was reported readable.\<close>

definition read_transfer ::
  "os \<Rightarrow> SerialImpl \<Rightarrow> size_t \<Rightarrow> size_t \<Rightarrow> world \<Rightarrow> size_t step \<times> world" where
  "read_transfer os p sz bytes_read w =
     (let (r, w1) = sys os (sys_read (fd p) (sz - bytes_read)) w;
          bytes_read_now = ret r in
      if bytes_read_now < 1
      then (Throw read_disconnected, w1)
      else
        (let bytes_read1 = bytes_read + word_of_int bytes_read_now in
         if bytes_read1 = sz then (Break bytes_read1, w1)
         else if bytes_read1 < sz then (Continue bytes_read1, w1)
         else (Throw read_over_read, w1)))"

text \<open>Lines 619-669: the body of the loop.\<close>

definition read_iteration ::
  "os \<Rightarrow> SerialImpl \<Rightarrow> size_t \<Rightarrow> int \<Rightarrow> size_t \<Rightarrow> world \<Rightarrow> size_t step \<times> world" where
  "read_iteration os p sz deadline bytes_read w =
     (let (timeout_remaining_ms, w1) = Remaining os deadline w in
      if timeout_remaining_ms \<le> 0 then (Break bytes_read, w1)
      else
        (let tmo = min (word_of_int timeout_remaining_ms) (inter_byte_timeout (timeout p)) in
         case WaitReadable os p tmo w1 of
           (Inl e, w2) \<Rightarrow> (Throw e, w2)
         | (Inr False, w2) \<Rightarrow> (Continue bytes_read, w2)
         | (Inr True, w2) \<Rightarrow>
             (case read_coalesce os p sz bytes_read w2 of
                (Inl e, w3) \<Rightarrow> (Throw e, w3)
              | (Inr u, w3) \<Rightarrow> read_transfer os p sz bytes_read w3)))"

text \<open>Lines 618-671. A loop that goes round for ever has the value \<open>None\<close>.\<close>

partial_function (option) read_loop ::
  "os \<Rightarrow> SerialImpl \<Rightarrow> size_t \<Rightarrow> int \<Rightarrow> size_t \<Rightarrow> world
     \<Rightarrow> ((exn + size_t) \<times> world \<times> SerialImpl) option" where
  "read_loop os p sz deadline bytes_read w =
     (if bytes_read < sz then
        (case read_iteration os p sz deadline bytes_read w of
           (Continue b, w1) \<Rightarrow> read_loop os p sz deadline b w1
         | (Break b, w1) \<Rightarrow> Some (Inr b, w1, p)
         | (Throw e, w1) \<Rightarrow> Some (Inl e, w1, p))
      else Some (Inr bytes_read, w, p))"

text \<open>
  Lines 605-607 compute the total timeout in \<^verbatim>\<open>long\<close>, 64 bits here; a sum that does
  not fit wraps in the model (in C++ it is undefined).
\<close>

definition read_total_timeout_ms :: "SerialImpl \<Rightarrow> size_t \<Rightarrow> long" where
  "read_total_timeout_ms p sz =
     ucast (read_timeout_constant (timeout p))
       + ucast (read_timeout_multiplier (timeout p)) * sz"

definition Read ::
  "os \<Rightarrow> world \<Rightarrow> SerialImpl \<Rightarrow> size_t \<Rightarrow> ((exn + size_t) \<times> world \<times> SerialImpl) option" where
  "Read os w p sz =
     (if \<not> is_open p then Some (Inl (PortNotOpenedException ''Serial::read''), w, p)
      else
        (let (deadline, w1) = MilliTimer os (sint (read_total_timeout_ms p sz)) w;
             (r, w2) = sys os (sys_read (fd p) sz) w1;
             bytes_read = (if 0 < ret r then word_of_int (ret r) else 0)
         in read_loop os p sz deadline bytes_read w2))"

subsection \<open>Write (lines 676-761)\<close>

text \<open>The exceptions of lines 731 and 748.\<close>

definition write_disconnected :: exn where
  "write_disconnected =
     SerialException
       ''device reports readiness to write but returned no data (device disconnected?)''"

definition write_over_wrote :: exn where
  "write_over_wrote =
     SerialException
       ''write over wrote, too many bytes where written, this shouldn't happen, might be a logical error!''"

text \<open>Lines 691-758: the body of the loop.\<close>

definition write_iteration ::
  "os \<Rightarrow> SerialImpl \<Rightarrow> size_t \<Rightarrow> int \<Rightarrow> size_t \<Rightarrow> world \<Rightarrow> size_t step \<times> world" where
  "write_iteration os p len deadline bytes_written w =
     (let (timeout_remaining_ms, w1) = Remaining os deadline w in
      if timeout_remaining_ms \<le> 0 then (Break bytes_written, w1)
      else
        (let (r, w2) = sys os (pselect_writefds (fd p) timeout_remaining_ms) w1 in
         if ret r < 0 then
           (if errno r = EINTR then (Continue bytes_written, w2)
            else (Throw (IOException_errno (errno r)), w2))
         else if ret r = 0 then (Break bytes_written, w2)
         else if fd_isset r then
           (let (r2, w3) = sys os (sys_write (fd p) (len - bytes_written)) w2;
                bytes_written_now = ret r2 in
            if bytes_written_now < 1
            then (Throw write_disconnected, w3)
            else
              (let bytes_written1 = bytes_written + word_of_int bytes_written_now in
               if bytes_written1 = len then (Break bytes_written1, w3)
               else if bytes_written1 < len then (Continue bytes_written1, w3)
               else (Throw write_over_wrote, w3)))
         else (Throw (IOException_msg
                 ''select reports ready to write, but our fd isn't in the list, this shouldn't happen!''), w2)))"

partial_function (option) write_loop ::
  "os \<Rightarrow> SerialImpl \<Rightarrow> size_t \<Rightarrow> int \<Rightarrow> size_t \<Rightarrow> world
     \<Rightarrow> ((exn + size_t) \<times> world \<times> SerialImpl) option" where
  "write_loop os p len deadline bytes_written w =
     (if bytes_written < len then
        (case write_iteration os p len deadline bytes_written w of
           (Continue b, w1) \<Rightarrow> write_loop os p len deadline b w1
         | (Break b, w1) \<Rightarrow> Some (Inr b, w1, p)
         | (Throw e, w1) \<Rightarrow> Some (Inl e, w1, p))
      else Some (Inr bytes_written, w, p))"

definition write_total_timeout_ms :: "SerialImpl \<Rightarrow> size_t \<Rightarrow> long" where
  "write_total_timeout_ms p len =
     ucast (write_timeout_constant (timeout p))
       + ucast (write_timeout_multiplier (timeout p)) * len"

definition Write ::
  "os \<Rightarrow> world \<Rightarrow> SerialImpl \<Rightarrow> size_t \<Rightarrow> ((exn + size_t) \<times> world \<times> SerialImpl) option" where
  "Write os w p len =
     (if is_open p = False then Some (Inl (PortNotOpenedException ''Serial::write''), w, p)
      else
        (let (deadline, w1) = MilliTimer os (sint (write_total_timeout_ms p len)) w
         in write_loop os p len deadline 0 w1))"

subsection \<open>WaitForChange (lines 961-993)\<close>

definition any_line_set :: "modem_line set \<Rightarrow> bool" where
  "any_line_set status =
     (TIOCM_CTS \<in> status \<or> TIOCM_DSR \<in> status \<or> TIOCM_RI \<in> status \<or> TIOCM_CD \<in> status)"

text \<open>
  The loop of line 963 reads \<^verbatim>\<open>is_open_\<close> before every query, and nothing in the loop
  writes it: the loop ends by this test only when another thread closes the port while
  this one is inside \<^verbatim>\<open>ioctl\<close> or \<^verbatim>\<open>usleep\<close>. So \<^verbatim>\<open>WaitForChange\<close> is modelled with the
  other threads that use the object: \<open>others k p\<close> are the members as they leave them
  during the \<open>k\<close>-th system call of the run, \<open>p\<close> being the members before that call. With
  no other thread, \<open>others k p = p\<close>.
\<close>

type_synonym others = "nat \<Rightarrow> SerialImpl \<Rightarrow> SerialImpl"

text \<open>Lines 963-981: the loop compiled where \<^verbatim>\<open>TIOCMIWAIT\<close> is not defined.\<close>

partial_function (option) wait_poll ::
  "os \<Rightarrow> others \<Rightarrow> SerialImpl \<Rightarrow> world \<Rightarrow> ((exn + bool) \<times> world \<times> SerialImpl) option" where
  "wait_poll os oth p w =
     (if is_open p = True then
        (let (r, w1) = sys os (ioctl_TIOCMGET (fd p)) w;
             p1 = oth (length w) p in
         if ret r = - 1
         then Some (Inl (SerialException_errno
                 ''waitForChange failed on a call to ioctl(TIOCMGET): '' (errno r)), w1, p1)
         else if any_line_set (out_status r) then Some (Inr True, w1, p1)
         else
           (let (r2, w2) = sys os (sys_usleep 1000) w1;
                p2 = oth (length w1) p1 in
            wait_poll os oth p2 w2))
      else Some (Inr False, w, p))"

text \<open>Lines 962-992: the loop, or the one blocking \<^verbatim>\<open>ioctl\<close> of lines 983-991.\<close>

definition WaitForChange ::
  "platform \<Rightarrow> os \<Rightarrow> others \<Rightarrow> world \<Rightarrow> SerialImpl
     \<Rightarrow> ((exn + bool) \<times> world \<times> SerialImpl) option" where
  "WaitForChange plat os oth w p =
     (if \<not> def_TIOCMIWAIT plat then wait_poll os oth p w
      else
        (let (r, w1) =
               sys os (ioctl_TIOCMIWAIT (fd p) {TIOCM_CD, TIOCM_DSR, TIOCM_RI, TIOCM_CTS}) w;
             p1 = oth (length w) p in
         if ret r = - 1
         then Some (Inl (SerialException_errno
                 ''waitForDSR failed on a call to ioctl(TIOCMIWAIT): '' (errno r)), w1, p1)
         else Some (Inr True, w1, p1)))"

subsection \<open>Inputs for the examples\<close>

definition example_termios :: termios where
  "example_termios =
     \<lparr>c_iflag = {}, c_oflag = {}, c_cflag = {}, c_lflag = {},
      c_cc_VMIN = 1, c_cc_VTIME = 0, c_ispeed = 0, c_ospeed = 0\<rparr>"

definition example_serial :: serial_struct where
  "example_serial = \<lparr>baud_base = 115200, custom_divisor = 0, flags = 0\<rparr>"

text \<open>A call that succeeds and stores nothing of interest, and a call that fails with an \<^verbatim>\<open>errno\<close>.\<close>

definition reply_ok :: reply where
  "reply_ok =
     \<lparr>ret = 0, errno = 0, out_int = 0, out_termios = example_termios,
      out_serial = example_serial, out_status = {}, fd_isset = False\<rparr>"

definition reply_fail :: "int \<Rightarrow> reply" where
  "reply_fail e = reply_ok\<lparr>ret := - 1, errno := e\<rparr>"

definition example_timeout :: Timeout where
  "example_timeout =
     \<lparr>inter_byte_timeout = Timeout_max, read_timeout_constant = 100,
      read_timeout_multiplier = 2, write_timeout_constant = 100,
      write_timeout_multiplier = 2\<rparr>"

text \<open>A port at 9600 baud, 8 data bits, no parity, 1 stop bit: closed, and open on descriptor 3.\<close>

definition closed_port :: SerialImpl where
  "closed_port =
     \<lparr>port = ''/dev/ttyS0'', fd = - 1, is_open = False, xonxoff = False, rtscts = False,
      timeout = example_timeout, baudrate = 9600, byte_time_ns = 0,
      parity = parity_none, bytesize = eightbits, stopbits = stopbits_one,
      flowcontrol = flowcontrol_none\<rparr>"

definition open_port :: SerialImpl where
  "open_port = closed_port\<lparr>fd := 3, is_open := True\<rparr>"

text \<open>
  A Linux host: the \<^verbatim>\<open>B\<close>\<open>n\<close> macros of its termios.h with their values, custom rates
  through \<^verbatim>\<open>TIOCSSERIAL\<close>, and every macro the source tests defined.
\<close>

definition linux_B :: "(nat \<times> speed_t) list" where
  "linux_B =
     [(0, 0), (50, 1), (75, 2), (110, 3), (134, 4), (150, 5), (200, 6), (300, 7),
      (600, 8), (1200, 9), (1800, 10), (2400, 11), (4800, 12), (9600, 13),
      (19200, 14), (38400, 15), (57600, 4097), (115200, 4098), (230400, 4099),
      (460800, 4100), (576000, 4102), (921600, 4103), (1000000, 4104),
      (1152000, 4105), (1500000, 4106), (2000000, 4107), (2500000, 4108),
      (3000000, 4109), (3500000, 4110), (4000000, 4111)]"

definition linux :: platform where
  "linux =
     \<lparr>B_macro = map_of linux_B, custom_baud_support = TIOCSSERIAL_path,
      def_IUCLC = True, def_PARMRK = True, def_CMSPAR = True, def_IXANY = True,
      def_CRTSCTS = True, def_TIOCMIWAIT = True\<rparr>"

text \<open>An operating system that rejects every \<^verbatim>\<open>tcsetattr\<close> with \<^verbatim>\<open>EINVAL\<close> and accepts the rest.\<close>

definition os_rejecting_settings :: os where
  "os_rejecting_settings k c =
     (case c of sys_tcsetattr d t \<Rightarrow> reply_fail 22 | _ \<Rightarrow> reply_ok)"

text \<open>
  The \<open>k\<close>-th system call of the run is an \<^verbatim>\<open>::open\<close> of the path that fails with
  \<^verbatim>\<open>EINTR\<close>.
\<close>

definition interrupted :: "os \<Rightarrow> nat \<Rightarrow> string \<Rightarrow> bool" where
  "interrupted os k path =
     (ret (os k (sys_open path)) = - 1 \<and> errno (os k (sys_open path)) = EINTR)"

text \<open>
  An operating system that interrupts the first \<open>n\<close> calls and then accepts every call,
  returning 3 (to \<^verbatim>\<open>::open\<close>, the descriptor).
\<close>

definition interrupted_then_ok :: "nat \<Rightarrow> os" where
  "interrupted_then_ok n k c = (if k < n then reply_fail EINTR else reply_ok\<lparr>ret := 3\<rparr>)"

text \<open>
  The result of a call of \<^verbatim>\<open>Open\<close> as its caller \<open>n\<close> activations above returns it: the same
  outcome, calls and members, and \<open>n\<close> more activations on the stack.
\<close>

definition nested ::
  "nat \<Rightarrow> ('a \<times> 'b \<times> 'c \<times> nat) option \<Rightarrow> ('a \<times> 'b \<times> 'c \<times> nat) option" where
  "nested n r = map_option (\<lambda>(res, w, p, frames). (res, w, p, n + frames)) r"

text \<open>A host without \<^verbatim>\<open>TIOCMIWAIT\<close>, where \<^verbatim>\<open>WaitForChange\<close> polls.\<close>

definition polling_host :: platform where
  "polling_host = linux\<lparr>def_TIOCMIWAIT := False\<rparr>"

text \<open>The status lines are quiet at the first query and CTS is set at the second.\<close>

definition cts_at_second_query :: os where
  "cts_at_second_query k c = (if k < 2 then reply_ok else reply_ok\<lparr>out_status := {TIOCM_CTS}\<rparr>)"

text \<open>
  No other thread; and a second thread whose \<^verbatim>\<open>Close\<close> succeeds during the \<open>n\<close>-th system
  call of the run: it forgets the descriptor and marks the port closed (lines 529, 534).
\<close>

definition alone :: others where
  "alone k p = p"

definition closed_meanwhile :: "nat \<Rightarrow> others" where
  "closed_meanwhile n k p = (if k = n then p\<lparr>fd := - 1, is_open := False\<rparr> else p)"

text \<open>
  A device that is always ready: the clock advances 10 ms with every system call, every
  \<^verbatim>\<open>pselect\<close> on the descriptor reports it ready, the input queue holds \<open>avail\<close> bytes and
  a transfer moves at most \<open>n\<close> bytes, never more than it was asked for. With \<open>n = 0\<close> it
  is a disconnected device: ready, and nothing is transferred.
\<close>

definition ready_device :: "int \<Rightarrow> int \<Rightarrow> os" where
  "ready_device avail n k c =
     (case c of
        clock_now \<Rightarrow> reply_ok\<lparr>out_int := 10 * int k\<rparr>
      | pselect_readfds d t \<Rightarrow> reply_ok\<lparr>ret := 1, fd_isset := True\<rparr>
      | pselect_writefds d t \<Rightarrow> reply_ok\<lparr>ret := 1, fd_isset := True\<rparr>
      | ioctl_TIOCINQ d \<Rightarrow> reply_ok\<lparr>out_int := avail\<rparr>
      | sys_read d m \<Rightarrow> reply_ok\<lparr>ret := min n (uint m)\<rparr>
      | sys_write d m \<Rightarrow> reply_ok\<lparr>ret := min n (uint m)\<rparr>
      | _ \<Rightarrow> reply_ok)"

text \<open>
  A silent device: the clock advances 50 ms with every system call, every \<^verbatim>\<open>pselect\<close>
  times out and nothing is read.
\<close>

definition silent_device :: os where
  "silent_device k c =
     (case c of clock_now \<Rightarrow> reply_ok\<lparr>out_int := 50 * int k\<rparr> | _ \<Rightarrow> reply_ok)"

text \<open>The open port after a \<^verbatim>\<open>ReconfigurePort\<close>, with its byte time.\<close>

definition timed_port :: SerialImpl where
  "timed_port = open_port\<lparr>byte_time_ns := 1041660\<rparr>"

subsection \<open>Conditions on a turn of a loop\<close>

text \<open>
  What a turn of the loop leaves is within the request \<open>n\<close>: a count at most \<open>n\<close>, or an
  exception other than \<open>over\<close>.
\<close>

definition within :: "size_t \<Rightarrow> exn \<Rightarrow> size_t step \<Rightarrow> bool" where
  "within n over st =
     (case st of Continue b \<Rightarrow> b \<le> n | Break b \<Rightarrow> b \<le> n | Throw e \<Rightarrow> e \<noteq> over)"

text \<open>
  The bytes that the \<^verbatim>\<open>::read\<close> calls among \<open>cs\<close> have moved, \<open>cs\<close> being consecutive calls of
  a run of which the first is the \<open>k\<close>-th: a \<^verbatim>\<open>::read\<close> that returns a positive count has
  moved that many bytes, any other call none. The sum is a \<^verbatim>\<open>size_t\<close>.
\<close>

fun transferred :: "os \<Rightarrow> nat \<Rightarrow> syscall list \<Rightarrow> size_t" where
  "transferred os k [] = 0"
| "transferred os k (c # cs) =
     (case c of
        sys_read d m \<Rightarrow> (if 0 < ret (os k c) then word_of_int (ret (os k c)) else 0)
      | _ \<Rightarrow> 0)
     + transferred os (Suc k) cs"

text \<open>
  What a turn of the loop of \<^verbatim>\<open>Read\<close> leaves, \<open>cs\<close> being its system calls, the first of
  them the one after \<open>v\<close>: the count has grown by what the \<^verbatim>\<open>::read\<close> of the turn moved; and
  a turn that leaves the loop has the whole request, or has made no other call than to
  read the clock, and found the deadline reached.
\<close>

definition turn_ok ::
  "os \<Rightarrow> size_t \<Rightarrow> int \<Rightarrow> size_t \<Rightarrow> world \<Rightarrow> syscall list \<Rightarrow> size_t step \<Rightarrow> bool" where
  "turn_ok os sz deadline br v cs st =
     (case st of
        Continue b \<Rightarrow> b = br + transferred os (length v) cs
      | Break b \<Rightarrow> b = br + transferred os (length v) cs \<and>
          (b = sz \<or> cs = [clock_now] \<and> deadline - out_int (os (length v) clock_now) \<le> 0)
      | Throw e \<Rightarrow> True)"

subsection \<open>Conditions on the configuration\<close>

text \<open>
  The byte size, stop bits and parity are enumerators, and the host has the parity:
  mark and space need \<^verbatim>\<open>CMSPAR\<close>.
\<close>

definition valid_framing :: "platform \<Rightarrow> SerialImpl \<Rightarrow> bool" where
  "valid_framing plat p =
     (bytesize p \<in> {fivebits, sixbits, sevenbits, eightbits} \<and>
      stopbits p \<in> {stopbits_one, stopbits_one_point_five, stopbits_two} \<and>
      (parity p \<in> {parity_none, parity_odd, parity_even} \<or>
       def_CMSPAR plat \<and> parity p \<in> {parity_mark, parity_space}))"

text \<open>The host can set the rate: it has the \<^verbatim>\<open>B\<close>\<open>n\<close> macro, or a way to set a custom rate.\<close>

definition rate_supported :: "platform \<Rightarrow> 64 word \<Rightarrow> bool" where
  "rate_supported plat b =
     (enumerated_baud plat b \<noteq> None \<or> custom_baud_support plat \<noteq> no_custom_path)"


section \<open>Close\<close>

text \<open>
  C4, as the spec states it: \<^verbatim>\<open>Close\<close> leaves the port marked closed in every case,
  also when \<^verbatim>\<open>::close\<close> reports an error. It does not: on descriptor 3, with a
  \<^verbatim>\<open>::close\<close> that fails with \<^verbatim>\<open>errno\<close> 5, \<^verbatim>\<open>Close\<close> throws the \<^verbatim>\<open>IOException\<close> at line
  531, before line 534 is reached, and the port is still marked open.
\<close>

theorem Close_error_keeps_port_open:
  "fst (Close (\<lambda>k c. reply_fail 5) [] open_port) = Inl (IOException_errno 5) \<and>
   is_open (snd (snd (Close (\<lambda>k c. reply_fail 5) [] open_port))) = True"
  by (simp add: Close_def sys_def open_port_def reply_fail_def reply_ok_def closed_port_def)

text \<open>
  C4, amended. On a port that is not marked open \<^verbatim>\<open>Close\<close> does nothing: no system
  call, no member changed. On a port marked open with no descriptor it marks the port
  closed. On a port marked open with a descriptor it calls \<^verbatim>\<open>::close\<close> once; if that
  returns 0 the descriptor is forgotten and the port is marked closed; otherwise \<^verbatim>\<open>Close\<close>
  throws an \<^verbatim>\<open>IOException\<close> with the \<^verbatim>\<open>errno\<close> and changes no member, so the port stays
  marked open. After a \<^verbatim>\<open>Close\<close> that did not throw, a second \<^verbatim>\<open>Close\<close> does nothing.
\<close>

theorem Close_marks_closed_unless_error:
  "(\<not> is_open p \<longrightarrow> Close os w p = (Inr (), w, p)) \<and>
   (is_open p \<and> fd p = - 1 \<longrightarrow> Close os w p = (Inr (), w, p\<lparr>is_open := False\<rparr>)) \<and>
   (is_open p \<and> fd p \<noteq> - 1 \<and> ret (os (length w) (sys_close (fd p))) = 0 \<longrightarrow>
      Close os w p = (Inr (), w @ [sys_close (fd p)], p\<lparr>fd := - 1, is_open := False\<rparr>)) \<and>
   (is_open p \<and> fd p \<noteq> - 1 \<and> ret (os (length w) (sys_close (fd p))) \<noteq> 0 \<longrightarrow>
      Close os w p =
        (Inl (IOException_errno (errno (os (length w) (sys_close (fd p))))),
         w @ [sys_close (fd p)], p)) \<and>
   (fst (Close os w p) = Inr () \<longrightarrow>
      \<not> is_open (snd (snd (Close os w p))) \<and>
      Close os' w' (snd (snd (Close os w p))) = (Inr (), w', snd (snd (Close os w p))))"
  by (simp add: Close_def sys_def split: prod.split)

theorem Close_marks_closed_unless_error_witness:
  "Close (\<lambda>k c. reply_ok) [] closed_port = (Inr (), [], closed_port) \<and>
   Close (\<lambda>k c. reply_ok) [] (closed_port\<lparr>is_open := True\<rparr>) = (Inr (), [], closed_port) \<and>
   Close (\<lambda>k c. reply_ok) [] open_port = (Inr (), [sys_close 3], closed_port) \<and>
   Close (\<lambda>k c. reply_fail 5) [] open_port =
     (Inl (IOException_errno 5), [sys_close 3], open_port) \<and>
   Close (\<lambda>k c. reply_fail 5) [sys_close 3] closed_port = (Inr (), [sys_close 3], closed_port)"
proof -
  note defs = open_port_def closed_port_def reply_ok_def reply_fail_def
  have a: "Close (\<lambda>k c. reply_ok) [] closed_port = (Inr (), [], closed_port)"
    using Close_marks_closed_unless_error
      [of closed_port "\<lambda>k c. reply_ok" "[]" "\<lambda>k c. reply_ok" "[]"]
    by (simp add: defs)
  have b: "Close (\<lambda>k c. reply_ok) [] (closed_port\<lparr>is_open := True\<rparr>) =
      (Inr (), [], closed_port)"
    using Close_marks_closed_unless_error
      [of "closed_port\<lparr>is_open := True\<rparr>" "\<lambda>k c. reply_ok" "[]" "\<lambda>k c. reply_ok" "[]"]
    by (simp add: defs)
  have c: "Close (\<lambda>k c. reply_ok) [] open_port = (Inr (), [sys_close 3], closed_port)"
    using Close_marks_closed_unless_error
      [of open_port "\<lambda>k c. reply_ok" "[]" "\<lambda>k c. reply_ok" "[]"]
    by (simp add: defs)
  have d: "Close (\<lambda>k c. reply_fail 5) [] open_port =
      (Inl (IOException_errno 5), [sys_close 3], open_port)"
    using Close_marks_closed_unless_error
      [of open_port "\<lambda>k c. reply_fail 5" "[]" "\<lambda>k c. reply_ok" "[]"]
    by (simp add: defs)
  have e: "Close (\<lambda>k c. reply_fail 5) [sys_close 3] closed_port =
      (Inr (), [sys_close 3], closed_port)"
    using Close_marks_closed_unless_error
      [of open_port "\<lambda>k c. reply_ok" "[]" "\<lambda>k c. reply_fail 5" "[sys_close 3]"] c
    by simp
  show ?thesis by (intro conjI a b c d e)
qed

section \<open>ReconfigurePort\<close>

subsection \<open>Words\<close>

lemma sint_small:
  assumes "uint (d :: 32 word) < 2 ^ 31"
  shows "sint d = uint d"
proof -
  have "- (2 ^ 31) \<le> uint d"
    by (rule order_trans [of _ 0]) simp_all
  with assms have "signed_take_bit 31 (uint d) = uint d"
    by (intro signed_take_bit_int_eq_self) auto
  then show ?thesis by (simp add: sint_uint)
qed

lemma ucast_baud_ok:
  assumes "0 < unat (b :: 64 word)" "unat b \<le> 10 ^ 9"
  shows "(ucast b :: 32 word) \<noteq> 0 \<and> sint (ucast b :: 32 word) \<noteq> - 1"
proof -
  have lt: "unat b < 2 ^ 32" using assms by simp
  have u: "unat (ucast b :: 32 word) = unat b"
    using lt by (simp add: unsigned_ucast_eq take_bit_nat_eq_self)
  have nz: "(ucast b :: 32 word) \<noteq> 0"
    using u assms by (metis unat_0 less_irrefl)
  have "uint (ucast b :: 32 word) = int (unat b)"
    using u by (metis uint_nat)
  moreover have "int (unat b) < 2147483648"
  proof -
    have "unat b \<le> 1000000000" using assms by simp
    then show ?thesis by linarith
  qed
  ultimately have "uint (ucast b :: 32 word) < 2 ^ 31" by (simp only:) simp
  then have "sint (ucast b :: 32 word) = uint (ucast b :: 32 word)"
    by (rule sint_small)
  then have "0 \<le> sint (ucast b :: 32 word)" by (simp only: uint_ge_0)
  with nz show ?thesis by simp
qed

lemma unat_bit_time_ns: "unat (bit_time_ns b) = 10 ^ 9 div unat b"
proof -
  have "(10::nat) ^ 9 div unat b \<le> 10 ^ 9" by (rule div_le_dividend)
  also have "(10::nat) ^ 9 < 2 ^ 32" by simp
  finally show ?thesis
    unfolding bit_time_ns_def by (simp add: unat_of_nat)
qed

lemma unat_word_of_int_small:
  "0 \<le> k \<Longrightarrow> k < 2 ^ 32 \<Longrightarrow> unat (word_of_int k :: 32 word) = nat k"
  by (simp add: unat_eq_nat_uint uint_word_of_int)

lemma unat_bit_times:
  assumes b: "4 \<le> unat b" and k: "0 \<le> k" "k \<le> 16"
  shows "unat (bit_time_ns b * word_of_int k) = (10 ^ 9 div unat b) * nat k"
proof -
  have kk: "unat (word_of_int k :: 32 word) = nat k"
    using k by (intro unat_word_of_int_small) auto
  have "(10::nat) ^ 9 div unat b \<le> 10 ^ 9 div 4"
    using b by (intro div_le_mono2) auto
  then have "(10 ^ 9 div unat b) * nat k \<le> 250000000 * 16"
    using k by (intro mult_le_mono) auto
  then have "(10 ^ 9 div unat b) * nat k < 2 ^ 32"
    by simp
  then have "((10 ^ 9 div unat b) * nat k) mod 2 ^ 32 = (10 ^ 9 div unat b) * nat k"
    by (rule mod_less)
  then show ?thesis
    by (simp only: unat_word_ariths unat_bit_time_ns kk) simp
qed

lemmas enum_defs = fivebits_def sixbits_def sevenbits_def eightbits_def
  parity_none_def parity_odd_def parity_even_def parity_mark_def parity_space_def
  stopbits_one_def stopbits_two_def stopbits_one_point_five_def

lemma setup_flow_control_fields [simp]:
  "baudrate (setup_flow_control p) = baudrate p"
  "bytesize (setup_flow_control p) = bytesize p"
  "parity (setup_flow_control p) = parity p"
  "stopbits (setup_flow_control p) = stopbits p"
  "fd (setup_flow_control p) = fd p"
  "is_open (setup_flow_control p) = is_open p"
  by (simp_all add: setup_flow_control_def Let_def)

lemma ReconfigurePort_result:
  assumes "fst (ReconfigurePort plat os w p) = Inr ()"
  shows "snd (snd (ReconfigurePort plat os w p)) =
     (setup_flow_control p)\<lparr>byte_time_ns :=
        byte_time_estimate (baudrate p) (bytesize p) (parity p) (stopbits p)\<rparr>"
  using assms
  by (auto simp: ReconfigurePort_def Let_def split: prod.splits sum.splits if_splits)

lemma set_custom_baud_ok:
  assumes sup: "custom_baud_support plat \<noteq> no_custom_path"
    and os: "\<forall>k c. (\<forall>d t. c \<noteq> sys_tcsetattr d t) \<longrightarrow> ret (os k c) \<noteq> - 1"
    and b: "0 < unat (baudrate p)" "unat (baudrate p) \<le> 10 ^ 9"
  shows "fst (set_custom_baud plat os p w) = Inr ()"
proof (cases "custom_baud_support plat")
  case IOSSIOSPEED_path
  then show ?thesis using os by (simp add: set_custom_baud_def sys_def)
next
  case TIOCSSERIAL_path
  then show ?thesis
    using os ucast_baud_ok [OF b]
    by (simp add: set_custom_baud_def sys_def Let_def)
next
  case no_custom_path
  with sup show ?thesis by simp
qed

lemma setup_baud_ok:
  assumes sup: "rate_supported plat (baudrate p)"
    and os: "\<forall>k c. (\<forall>d t. c \<noteq> sys_tcsetattr d t) \<longrightarrow> ret (os k c) \<noteq> - 1"
    and b: "0 < unat (baudrate p)" "unat (baudrate p) \<le> 10 ^ 9"
  shows "\<exists>opts. fst (setup_baud plat os p options w) = Inr opts"
proof (cases "enumerated_baud plat (baudrate p)")
  case (Some baud)
  then show ?thesis by (simp add: setup_baud_def)
next
  case None
  with sup have "custom_baud_support plat \<noteq> no_custom_path"
    by (simp add: rate_supported_def)
  from set_custom_baud_ok [OF this os b, of w] None show ?thesis
    by (auto simp: setup_baud_def split: prod.splits sum.splits)
qed

lemma ReconfigurePort_succeeds:
  assumes v: "valid_framing plat p"
    and sup: "rate_supported plat (baudrate p)"
    and os: "\<forall>k c. (\<forall>d t. c \<noteq> sys_tcsetattr d t) \<longrightarrow> ret (os k c) \<noteq> - 1"
    and fd: "fd p \<noteq> - 1"
    and b: "0 < unat (baudrate p)" "unat (baudrate p) \<le> 10 ^ 9"
  shows "fst (ReconfigurePort plat os w p) = Inr ()"
proof -
  obtain opts where o: "fst (setup_baud plat os p
      (set_raw_mode plat (out_termios (os (length w) (sys_tcgetattr (fd p)))))
      (w @ [sys_tcgetattr (fd p)])) = Inr opts"
    using setup_baud_ok [OF sup os b] by blast
  have g: "ret (os (length w) (sys_tcgetattr (fd p))) \<noteq> - 1"
    using os by simp
  have c: "\<And>x. \<exists>y. setup_char_len p x = Inr y"
    using v by (auto simp: valid_framing_def setup_char_len_def Let_def)
  have s: "\<And>x. \<exists>y. setup_stopbits p x = Inr y"
    using v by (auto simp: valid_framing_def setup_stopbits_def)
  have q: "\<And>x. \<exists>y. setup_parity plat p x = Inr y"
    using v by (auto simp: valid_framing_def setup_parity_def Let_def)
  obtain o1 w2 where sb: "setup_baud plat os p
      (set_raw_mode plat (out_termios (os (length w) (sys_tcgetattr (fd p)))))
      (w @ [sys_tcgetattr (fd p)]) = (Inr o1, w2)"
    using o by (metis fst_conv surj_pair)
  obtain o2 where c2: "setup_char_len p o1 = Inr o2" using c by blast
  obtain o3 where s3: "setup_stopbits p o2 = Inr o3" using s by blast
  obtain o4 where q4: "setup_parity plat p o3 = Inr o4" using q by blast
  show ?thesis
    using fd g
    by (simp add: ReconfigurePort_def sys_def Let_def sb c2 s3 q4 split: prod.splits)
qed


lemma framing_bits:
  assumes "valid_framing plat p"
  shows "7 \<le> 1 + bytesize p + parity p + stopbits p"
    and "1 + bytesize p + parity p + stopbits p \<le> 16"
  using assms by (auto simp: valid_framing_def enum_defs)

lemma unat_byte_time_estimate:
  assumes v: "valid_framing plat p" and b: "4 \<le> unat b"
  shows "unat (byte_time_estimate b (bytesize p) (parity p) (stopbits p)) =
     (if stopbits p = stopbits_one_point_five
      then ((10 ^ 9 div unat b) * (2 * nat (1 + bytesize p + parity p + stopbits p) - 3)) div 2
      else (10 ^ 9 div unat b) * nat (1 + bytesize p + parity p + stopbits p))"
proof -
  define k where "k = 1 + bytesize p + parity p + stopbits p"
  define n where "n = (10::nat) ^ 9 div unat b"
  have k: "7 \<le> k" "k \<le> 16"
    using framing_bits [OF v] by (simp_all add: k_def)
  have t: "unat (bit_time_ns b * word_of_int k) = n * nat k"
    unfolding n_def using b k by (intro unat_bit_times) auto
  have est: "byte_time_estimate b (bytesize p) (parity p) (stopbits p) =
     (if stopbits p = stopbits_one_point_five
      then word_of_int (half_trunc (2 * uint (bit_time_ns b * word_of_int k)
             + (3 - 2 * stopbits_one_point_five) * uint (bit_time_ns b)))
      else bit_time_ns b * word_of_int k)"
    unfolding byte_time_estimate_def Let_def k_def by (rule refl)
  show ?thesis
  proof (cases "stopbits p = stopbits_one_point_five")
    case False
    then show ?thesis unfolding est k_def [symmetric] n_def [symmetric] by (simp add: t)
  next
    case True
    have nle: "n \<le> 250000000"
    proof -
      have "n \<le> 10 ^ 9 div 4" unfolding n_def using b by (intro div_le_mono2) auto
      then show ?thesis by simp
    qed
    have ut: "uint (bit_time_ns b * word_of_int k) = int (n * nat k)"
      using t by (metis uint_nat)
    have ub: "uint (bit_time_ns b) = int n"
      using unat_bit_time_ns [of b] unfolding n_def by (metis uint_nat)
    have three: "3 \<le> 2 * nat k" using k by linarith
    have eq: "2 * int (n * nat k) + (3 - 2 * 3) * int n = int (n * (2 * nat k - 3))"
    proof -
      have "int (n * (2 * nat k - 3)) = int n * (2 * int (nat k) - 3)"
        using three by (simp add: of_nat_diff)
      then show ?thesis by (simp add: algebra_simps)
    qed
    have ht: "half_trunc (int (n * (2 * nat k - 3))) = int ((n * (2 * nat k - 3)) div 2)"
      by (simp add: half_trunc_def zdiv_int)
    have "n * (2 * nat k - 3) \<le> 250000000 * 29"
      using nle k by (intro mult_le_mono) linarith+
    then have small: "(n * (2 * nat k - 3)) div 2 < 2 ^ 32"
      by simp
    have "unat (word_of_int (int ((n * (2 * nat k - 3)) div 2)) :: 32 word)
        = (n * (2 * nat k - 3)) div 2"
    proof -
      have "int ((n * (2 * nat k - 3)) div 2) < 2 ^ 32"
        using small by (metis of_nat_less_iff of_nat_numeral of_nat_power)
      then show ?thesis
        using unat_word_of_int_small [of "int ((n * (2 * nat k - 3)) div 2)"]
        by (simp only: of_nat_0_le_iff nat_int)
    qed
    then show ?thesis
      using True unfolding est k_def [symmetric] n_def [symmetric]
      by (simp only: ut ub eq ht stopbits_one_point_five_def refl if_True)
  qed
qed


lemma byte_time_estimate_pos:
  assumes v: "valid_framing plat p" and b: "4 \<le> unat b" "unat b \<le> 10 ^ 9"
  shows "0 < byte_time_estimate b (bytesize p) (parity p) (stopbits p)"
proof -
  define k where "k = nat (1 + bytesize p + parity p + stopbits p)"
  define n where "n = (10::nat) ^ 9 div unat b"
  have k: "7 \<le> k" using framing_bits [OF v] by (simp add: k_def)
  have n: "1 \<le> n" unfolding n_def using b by (simp add: div_greater_zero_iff Suc_le_eq)
  have "0 < n * k" using n k by simp
  moreover have "11 \<le> n * (2 * k - 3)"
  proof -
    have "11 \<le> 2 * k - 3" using k by linarith
    from mult_le_mono [OF n this] show ?thesis by simp
  qed
  then have "0 < (n * (2 * k - 3)) div 2" by linarith
  ultimately have "0 < unat (byte_time_estimate b (bytesize p) (parity p) (stopbits p))"
    unfolding unat_byte_time_estimate [OF v b(1)] k_def [symmetric] n_def [symmetric]
    by (simp only: split: if_splits) simp
  then show ?thesis by (simp add: word_less_nat_alt)
qed

lemma byte_time_estimate_mono:
  assumes v: "valid_framing plat p" and b: "4 \<le> unat b1" "unat b1 \<le> unat b2"
  shows "byte_time_estimate b2 (bytesize p) (parity p) (stopbits p)
       \<le> byte_time_estimate b1 (bytesize p) (parity p) (stopbits p)"
proof -
  define k where "k = nat (1 + bytesize p + parity p + stopbits p)"
  have b2: "4 \<le> unat b2" using b by simp
  have n: "(10::nat) ^ 9 div unat b2 \<le> 10 ^ 9 div unat b1"
    using b by (intro div_le_mono2) auto
  have "(10 ^ 9 div unat b2) * k \<le> (10 ^ 9 div unat b1) * k"
    using n by (rule mult_le_mono1)
  moreover have "((10 ^ 9 div unat b2) * (2 * k - 3)) div 2 \<le> ((10 ^ 9 div unat b1) * (2 * k - 3)) div 2"
    using n by (intro div_le_mono mult_le_mono1)
  ultimately have "unat (byte_time_estimate b2 (bytesize p) (parity p) (stopbits p))
       \<le> unat (byte_time_estimate b1 (bytesize p) (parity p) (stopbits p))"
    unfolding unat_byte_time_estimate [OF v b(1)] unat_byte_time_estimate [OF v b2]
      k_def [symmetric]
    by simp
  then show ?thesis by (simp add: word_le_nat_alt)
qed

lemma valid_framing_baudrate [simp]:
  "valid_framing plat (p\<lparr>baudrate := b\<rparr>) = valid_framing plat p"
  by (simp add: valid_framing_def)

lemmas Reconfigure_defs = ReconfigurePort_def sys_def setup_baud_def enumerated_baud_def
  baud_cases_def set_custom_baud_def setup_char_len_def setup_stopbits_def setup_parity_def
  setup_flow_control_def apply_flow_control_def set_raw_mode_def byte_time_estimate_def
  bit_time_ns_def half_trunc_def Let_def
  flowcontrol_none_def flowcontrol_software_def flowcontrol_hardware_def

lemmas example_defs = open_port_def closed_port_def reply_ok_def reply_fail_def
  example_serial_def linux_def linux_B_def

subsection \<open>The byte time and the baud rate\<close>

text \<open>
  C7, as the spec states it: for every valid byte size, stop bits and parity the host
  supports and every positive baud rate, \<^verbatim>\<open>ReconfigurePort\<close> succeeds and the byte time is
  strictly positive and decreasing in the baud rate. It is not: at 8 data bits, no
  parity, 1 stop bit on the Linux host, with every system call succeeding, the rate
  \<open>2 \<cdot> 10\<^sup>9\<close> gives the byte time 0 (line 511 yields a bit time of 0), and the rate 2 gives
  a smaller byte time than the rate 4 (the product of line 512 wraps at \<open>2\<^sup>3\<^sup>2\<close>).
\<close>

theorem ReconfigurePort_byte_time_zero_and_wrapped:
  "fst (ReconfigurePort linux (\<lambda>k c. reply_ok) [] (open_port\<lparr>baudrate := 2000000000\<rparr>)) = Inr () \<and>
   byte_time_ns (snd (snd (ReconfigurePort linux (\<lambda>k c. reply_ok) []
     (open_port\<lparr>baudrate := 2000000000\<rparr>)))) = 0 \<and>
   byte_time_ns (snd (snd (ReconfigurePort linux (\<lambda>k c. reply_ok) []
     (open_port\<lparr>baudrate := 2\<rparr>)))) = 705032704 \<and>
   byte_time_ns (snd (snd (ReconfigurePort linux (\<lambda>k c. reply_ok) []
     (open_port\<lparr>baudrate := 4\<rparr>)))) = 2500000000"
  by (simp add: Reconfigure_defs example_defs enum_defs)

text \<open>
  C7, amended. Let the byte size, stop bits and parity be valid and supported by the
  host, let the host be able to set both rates, let the descriptor be valid and let no
  system call other than \<^verbatim>\<open>tcsetattr\<close> fail. Then for a baud rate from 4 to \<open>10\<^sup>9\<close>
  \<^verbatim>\<open>ReconfigurePort\<close> succeeds and the byte time is strictly positive, and for a second
  rate, not smaller and at most \<open>10\<^sup>9\<close>, it succeeds with a byte time that is not larger.
\<close>

theorem ReconfigurePort_byte_time_positive_decreasing:
  assumes v: "valid_framing plat p"
    and sup: "rate_supported plat (baudrate p)" "rate_supported plat b2"
    and os: "\<forall>k c. (\<forall>d t. c \<noteq> sys_tcsetattr d t) \<longrightarrow> ret (os k c) \<noteq> - 1"
    and fd: "fd p \<noteq> - 1"
    and b: "4 \<le> unat (baudrate p)" "unat (baudrate p) \<le> unat b2" "unat b2 \<le> 10 ^ 9"
  shows "fst (ReconfigurePort plat os w p) = Inr () \<and>
     0 < byte_time_ns (snd (snd (ReconfigurePort plat os w p))) \<and>
     fst (ReconfigurePort plat os w (p\<lparr>baudrate := b2\<rparr>)) = Inr () \<and>
     byte_time_ns (snd (snd (ReconfigurePort plat os w (p\<lparr>baudrate := b2\<rparr>))))
       \<le> byte_time_ns (snd (snd (ReconfigurePort plat os w p)))"
proof -
  have b1: "0 < unat (baudrate p)" "unat (baudrate p) \<le> 10 ^ 9"
    using b by simp_all
  have r1: "fst (ReconfigurePort plat os w p) = Inr ()"
    using v sup(1) os fd b1 by (rule ReconfigurePort_succeeds)
  have r2: "fst (ReconfigurePort plat os w (p\<lparr>baudrate := b2\<rparr>)) = Inr ()"
    using b sup(2) os fd v by (intro ReconfigurePort_succeeds) simp_all
  have t1: "byte_time_ns (snd (snd (ReconfigurePort plat os w p))) =
      byte_time_estimate (baudrate p) (bytesize p) (parity p) (stopbits p)"
    by (simp add: ReconfigurePort_result [OF r1])
  have t2: "byte_time_ns (snd (snd (ReconfigurePort plat os w (p\<lparr>baudrate := b2\<rparr>)))) =
      byte_time_estimate b2 (bytesize p) (parity p) (stopbits p)"
    by (simp add: ReconfigurePort_result [OF r2])
  show ?thesis
    unfolding t1 t2
    using r1 r2 byte_time_estimate_pos [OF v b(1) b1(2)] byte_time_estimate_mono [OF v b(1) b(2)]
    by simp
qed

theorem ReconfigurePort_byte_time_positive_decreasing_witness:
  "valid_framing linux open_port \<and> rate_supported linux 9600 \<and> rate_supported linux 115200 \<and>
   fst (ReconfigurePort linux (\<lambda>k c. reply_ok) [] open_port) = Inr () \<and>
   byte_time_ns (snd (snd (ReconfigurePort linux (\<lambda>k c. reply_ok) [] open_port))) = 1041660 \<and>
   byte_time_ns (snd (snd (ReconfigurePort linux (\<lambda>k c. reply_ok) []
     (open_port\<lparr>baudrate := 115200\<rparr>)))) = 86800"
proof -
  have h: "valid_framing linux open_port" "rate_supported linux (baudrate open_port)"
      "rate_supported linux 115200"
      "\<forall>k c. (\<forall>d t. c \<noteq> sys_tcsetattr d t) \<longrightarrow> ret ((\<lambda>k c. reply_ok) k c) \<noteq> - 1"
      "fd open_port \<noteq> - 1" "4 \<le> unat (baudrate open_port)"
      "unat (baudrate open_port) \<le> unat (115200 :: 64 word)" "unat (115200 :: 64 word) \<le> 10 ^ 9"
    by (simp_all add: valid_framing_def rate_supported_def enumerated_baud_def baud_cases_def
        example_defs enum_defs)
  have s: "rate_supported linux 9600"
    using h(2) by (simp add: example_defs)
  have r: "byte_time_ns (snd (snd (ReconfigurePort linux (\<lambda>k c. reply_ok) [] open_port))) = 1041660"
    by (simp add: Reconfigure_defs example_defs enum_defs)
  have r2: "byte_time_ns (snd (snd (ReconfigurePort linux (\<lambda>k c. reply_ok) []
     (open_port\<lparr>baudrate := 115200\<rparr>)))) = 86800"
    by (simp add: Reconfigure_defs example_defs enum_defs)
  have c: "fst (ReconfigurePort linux (\<lambda>k c. reply_ok) [] open_port) = Inr ()"
    using ReconfigurePort_byte_time_positive_decreasing [OF h, of "[]"] by (rule conjunct1)
  show ?thesis by (intro conjI h(1) s h(3) c r r2)
qed


subsection \<open>The byte time and the parity\<close>

text \<open>
  C3: after \<^verbatim>\<open>ReconfigurePort\<close> the byte time is the bit time multiplied by
  1 + data bits + parity bits + stop bits, where the parity bits are 0 for no parity and
  1 otherwise. Line 512 adds the enumerator \<^verbatim>\<open>parity_\<close> instead: at 9600 baud, 8 data
  bits, even parity (the enumerator 2) and 1 stop bit the byte time is
  \<open>104166 \<cdot> 12 = 1249992\<close>, where the 11 bits on the wire take \<open>104166 \<cdot> 11 = 1145826\<close>.
\<close>

theorem ReconfigurePort_byte_time_adds_parity_enumerator:
  "fst (ReconfigurePort linux (\<lambda>k c. reply_ok) [] (open_port\<lparr>parity := parity_even\<rparr>)) = Inr () \<and>
   byte_time_ns (snd (snd (ReconfigurePort linux (\<lambda>k c. reply_ok) []
     (open_port\<lparr>parity := parity_even\<rparr>)))) = 1249992 \<and>
   bit_time_ns 9600 = 104166 \<and>
   bit_time_ns 9600 * (1 + 8 + 1 + 1) = 1145826"
  by (simp add: Reconfigure_defs example_defs enum_defs)

lemma set_custom_baud_agree:
  assumes "\<forall>k c. (\<forall>d t. c \<noteq> sys_tcsetattr d t) \<longrightarrow> os' k c = os k c"
  shows "set_custom_baud plat os' p w = set_custom_baud plat os p w"
  using assms
  by (simp add: set_custom_baud_def sys_def Let_def split: custom_baud_path.splits)

lemma ReconfigurePort_agree:
  assumes "\<forall>k c. (\<forall>d t. c \<noteq> sys_tcsetattr d t) \<longrightarrow> os' k c = os k c"
  shows "ReconfigurePort plat os' w p = ReconfigurePort plat os w p"
  using assms
  by (simp add: ReconfigurePort_def setup_baud_def set_custom_baud_agree [OF assms] sys_def Let_def
      split: option.split prod.split sum.split)

lemma ReconfigurePort_calls:
  "fst (ReconfigurePort plat os w p) = Inr () \<longleftrightarrow>
     (\<exists>w0 t. fst (snd (ReconfigurePort plat os w p)) = w @ w0 @ [sys_tcsetattr (fd p) t])"
  by (auto simp: ReconfigurePort_def setup_baud_def set_custom_baud_def sys_def Let_def
      split: prod.splits sum.splits if_splits option.splits custom_baud_path.splits)

subsection \<open>The result of tcsetattr\<close>

text \<open>
  C10: \<^verbatim>\<open>ReconfigurePort\<close> never reads what \<^verbatim>\<open>tcsetattr\<close> returns. Two operating systems
  that differ only in their replies to \<^verbatim>\<open>tcsetattr\<close> get the same result, the same calls
  and the same members from it. A run throws nothing exactly when its last call is the
  \<^verbatim>\<open>tcsetattr\<close> of line 508, and it has then recomputed the byte time from the
  configuration. So a \<^verbatim>\<open>tcsetattr\<close> that rejects the settings is never reported.
\<close>

theorem ReconfigurePort_ignores_tcsetattr_result:
  assumes "\<forall>k c. (\<forall>d t. c \<noteq> sys_tcsetattr d t) \<longrightarrow> os' k c = os k c"
  shows "ReconfigurePort plat os' w p = ReconfigurePort plat os w p \<and>
     (fst (ReconfigurePort plat os' w p) = Inr () \<longleftrightarrow>
        (\<exists>w0 t. fst (snd (ReconfigurePort plat os' w p)) = w @ w0 @ [sys_tcsetattr (fd p) t])) \<and>
     (fst (ReconfigurePort plat os' w p) = Inr () \<longrightarrow>
        byte_time_ns (snd (snd (ReconfigurePort plat os' w p))) =
          byte_time_estimate (baudrate p) (bytesize p) (parity p) (stopbits p))"
proof (intro conjI impI)
  show "ReconfigurePort plat os' w p = ReconfigurePort plat os w p"
    using assms by (rule ReconfigurePort_agree)
  show "fst (ReconfigurePort plat os' w p) = Inr () \<longleftrightarrow>
      (\<exists>w0 t. fst (snd (ReconfigurePort plat os' w p)) = w @ w0 @ [sys_tcsetattr (fd p) t])"
    by (rule ReconfigurePort_calls)
  assume "fst (ReconfigurePort plat os' w p) = Inr ()"
  then show "byte_time_ns (snd (snd (ReconfigurePort plat os' w p))) =
      byte_time_estimate (baudrate p) (bytesize p) (parity p) (stopbits p)"
    by (simp add: ReconfigurePort_result)
qed

theorem ReconfigurePort_ignores_tcsetattr_result_witness:
  "ret (os_rejecting_settings 1 (sys_tcsetattr 3 example_termios)) = - 1 \<and>
   ReconfigurePort linux os_rejecting_settings [] open_port =
     ReconfigurePort linux (\<lambda>k c. reply_ok) [] open_port \<and>
   fst (ReconfigurePort linux os_rejecting_settings [] open_port) = Inr () \<and>
   byte_time_ns (snd (snd (ReconfigurePort linux os_rejecting_settings [] open_port))) = 1041660"
proof -
  have h: "\<forall>k c. (\<forall>d t. c \<noteq> sys_tcsetattr d t) \<longrightarrow>
      os_rejecting_settings k c = (\<lambda>k c. reply_ok) k c"
    by (auto simp: os_rejecting_settings_def split: syscall.splits)
  have r: "ret (os_rejecting_settings 1 (sys_tcsetattr 3 example_termios)) = - 1"
    by (simp add: os_rejecting_settings_def reply_fail_def)
  have e: "byte_time_estimate (baudrate open_port) (bytesize open_port) (parity open_port)
      (stopbits open_port) = 1041660"
    by (simp add: byte_time_estimate_def bit_time_ns_def example_defs enum_defs)
  have ok: "fst (ReconfigurePort linux (\<lambda>k c. reply_ok) [] open_port) = Inr ()"
    by (simp add: Reconfigure_defs example_defs enum_defs)
  note t = ReconfigurePort_ignores_tcsetattr_result [OF h, of linux "[]" open_port]
  have a: "ReconfigurePort linux os_rejecting_settings [] open_port =
      ReconfigurePort linux (\<lambda>k c. reply_ok) [] open_port"
    using t by (rule conjunct1)
  have b: "fst (ReconfigurePort linux os_rejecting_settings [] open_port) = Inr ()"
    using a ok by simp
  have "byte_time_ns (snd (snd (ReconfigurePort linux os_rejecting_settings [] open_port)))
      = byte_time_estimate (baudrate open_port) (bytesize open_port) (parity open_port)
          (stopbits open_port)"
    using t b by blast
  then have c: "byte_time_ns (snd (snd (ReconfigurePort linux os_rejecting_settings [] open_port)))
      = 1041660"
    by (simp only: e)
  show ?thesis by (intro conjI r a b c)
qed

section \<open>Open\<close>

lemma nested_0 [simp]: "nested 0 r = r"
  by (cases r) (auto simp: nested_def)

lemma nested_nested [simp]: "nested n (nested m r) = nested (n + m) r"
  by (cases r) (auto simp: nested_def)

lemma nested_Some [simp]:
  "nested n (Some (res, w, p, k)) = Some (res, w, p, n + k)"
  by (simp add: nested_def)

lemma nested_None [simp]: "nested n None = None"
  by (simp add: nested_def)

lemma bind_Suc_nested:
  "Option.bind r (\<lambda>(res, w2, p2, frames). Some (res, w2, p2, Suc frames)) = nested 1 r"
  by (cases r) (auto simp: nested_def)

lemma Open_interrupted:
  assumes "port p \<noteq> []" "\<not> is_open p" "interrupted os (length w) (port p)"
  shows "Open plat os w p = nested 1 (Open plat os (w @ [sys_open (port p)]) (p\<lparr>fd := - 1\<rparr>))"
  using assms
  by (subst Open.simps) (simp add: interrupted_def sys_def bind_Suc_nested)

lemma Open_not_interrupted:
  assumes "port p \<noteq> []" "\<not> is_open p" "\<not> interrupted os (length w) (port p)"
  shows "\<exists>res w' p'. Open plat os w p = Some (res, w @ sys_open (port p) # w', p', 1)"
proof -
  have r: "\<exists>res w' p'. ReconfigurePort plat os (w @ [c]) q = (res, w @ c # w', p')" for c q
    by (auto simp: ReconfigurePort_def setup_baud_def set_custom_baud_def sys_def Let_def
      split: prod.splits sum.splits if_splits option.splits custom_baud_path.splits)
  show ?thesis
    using assms r [of "sys_open (port p)" "p\<lparr>fd := ret (os (length w) (sys_open (port p)))\<rparr>"]
    by (subst Open.simps) (auto simp: interrupted_def sys_def Let_def split: prod.splits sum.splits)
qed

lemma Open_retries:
  assumes "port p \<noteq> []" "\<not> is_open p"
    and "\<forall>i<n. interrupted os (length w + i) (port p)"
  shows "Open plat os w p =
     nested n (Open plat os (w @ replicate n (sys_open (port p)))
       (if n = 0 then p else p\<lparr>fd := - 1\<rparr>))"
  using assms
proof (induction n arbitrary: w p)
  case 0
  then show ?case by simp
next
  case (Suc n)
  have first: "interrupted os (length w) (port p)"
    using Suc.prems(3) by (metis add.right_neutral zero_less_Suc)
  have rest: "\<forall>i<n. interrupted os (length (w @ [sys_open (port p)]) + i) (port (p\<lparr>fd := - 1\<rparr>))"
    using Suc.prems(3) by (auto simp: less_Suc_eq_0_disj)
  have "Open plat os w p = nested 1 (Open plat os (w @ [sys_open (port p)]) (p\<lparr>fd := - 1\<rparr>))"
    using Suc.prems(1,2) first by (rule Open_interrupted)
  also have "Open plat os (w @ [sys_open (port p)]) (p\<lparr>fd := - 1\<rparr>) =
      nested n (Open plat os ((w @ [sys_open (port p)]) @ replicate n (sys_open (port (p\<lparr>fd := - 1\<rparr>))))
      (if n = 0 then p\<lparr>fd := - 1\<rparr> else p\<lparr>fd := - 1\<rparr>\<lparr>fd := - 1\<rparr>))"
    using Suc.prems(1,2) rest by (intro Suc.IH) simp_all
  finally show ?case by (simp add: replicate_app_Cons_same)
qed

lemma Open_always_interrupted:
  assumes "Open plat os w p = Some y"
  shows "\<not> ((\<forall>k. interrupted os k (port p)) \<and> port p \<noteq> [] \<and> \<not> is_open p)"
proof (rule Open.raw_induct [OF _ assms], goal_cases)
  case (1 Open' plat os w p y)
  show ?case
  proof
    assume a: "(\<forall>k. interrupted os k (port p)) \<and> port p \<noteq> [] \<and> \<not> is_open p"
    then have i: "interrupted os (length w) (port p)" by simp
    from 1(2) a i have "nested 1 (Open' plat os (w @ [sys_open (port p)]) (p\<lparr>fd := - 1\<rparr>)) = Some y"
      by (simp add: interrupted_def sys_def bind_Suc_nested)
    then obtain y' where "Open' plat os (w @ [sys_open (port p)]) (p\<lparr>fd := - 1\<rparr>) = Some y'"
      by (auto simp: nested_def)
    then have "\<not> ((\<forall>k. interrupted os k (port (p\<lparr>fd := - 1\<rparr>))) \<and> port (p\<lparr>fd := - 1\<rparr>) \<noteq> [] \<and> \<not> is_open (p\<lparr>fd := - 1\<rparr>))"
      by (rule 1(1))
    with a show False by simp
  qed
qed

lemma Open_never_returns:
  assumes "\<forall>k. interrupted os k (port p)" "port p \<noteq> []" "\<not> is_open p"
  shows "Open plat os w p = None"
proof (cases "Open plat os w p")
  case None
  then show ?thesis .
next
  case (Some y)
  from Open_always_interrupted [OF this] assms show ?thesis by simp
qed

lemma Open_returns_after:
  assumes "port p \<noteq> []" "\<not> is_open p"
    and "\<forall>i<n. interrupted os (length w + i) (port p)"
    and "\<not> interrupted os (length w + n) (port p)"
  shows "\<exists>res w' p'. Open plat os w p =
           Some (res, w @ replicate (Suc n) (sys_open (port p)) @ w', p', Suc n)"
proof -
  let ?q = "if n = 0 then p else p\<lparr>fd := - 1\<rparr>"
  let ?w = "w @ replicate n (sys_open (port p))"
  have eq: "Open plat os w p = nested n (Open plat os ?w ?q)"
    using assms(1-3) by (rule Open_retries)
  have "\<not> interrupted os (length ?w) (port ?q)" using assms(4) by (cases "n = 0") simp_all
  moreover have "port ?q \<noteq> []" "\<not> is_open ?q" using assms by simp_all
  ultimately obtain res w' p' where
    "Open plat os ?w ?q = Some (res, ?w @ sys_open (port ?q) # w', p', 1)"
    using Open_not_interrupted [of ?q os ?w plat] by blast
  then have "Open plat os w p = Some (res, w @ replicate (Suc n) (sys_open (port p)) @ w', p', Suc n)"
    using eq by (simp add: replicate_append_same)
  then show ?thesis by blast
qed

text \<open>
  C5, as the spec states it: the retry of \<^verbatim>\<open>Open\<close> on \<^verbatim>\<open>EINTR\<close> is a bounded loop and not a
  recursion, so that \<^verbatim>\<open>Open\<close> terminates without unbounded stack growth for every sequence
  of interrupted attempts. In the source the retry is the call of \<^verbatim>\<open>Open\<close> by itself at line
  133, and nothing bounds it: after \<open>n\<close> interrupted attempts and one that is not
  interrupted, \<open>n + 1\<close> activations of \<^verbatim>\<open>Open\<close> have been on the stack together, for every
  \<open>n\<close>; and when every \<^verbatim>\<open>::open\<close> is interrupted, \<^verbatim>\<open>Open\<close> does not return.
\<close>

theorem Open_recursion_depth_unbounded:
  "(\<forall>n. map_option (\<lambda>(res, w', p', frames). frames)
          (Open linux (interrupted_then_ok n) [] closed_port) = Some (Suc n)) \<and>
   Open linux (\<lambda>k c. reply_fail EINTR) [] closed_port = None"
proof (intro conjI allI)
  fix n
  have "\<exists>res w' p'. Open linux (interrupted_then_ok n) [] closed_port =
      Some (res, [] @ replicate (Suc n) (sys_open (port closed_port)) @ w', p', Suc n)"
    by (rule Open_returns_after)
      (simp_all add: closed_port_def interrupted_def interrupted_then_ok_def reply_fail_def
        reply_ok_def EINTR_def)
  then show "map_option (\<lambda>(res, w', p', frames). frames)
          (Open linux (interrupted_then_ok n) [] closed_port) = Some (Suc n)"
    by auto
next
  show "Open linux (\<lambda>k c. reply_fail EINTR) [] closed_port = None"
    by (rule Open_never_returns) (simp_all add: interrupted_def reply_fail_def closed_port_def)
qed

text \<open>
  C5, amended. \<^verbatim>\<open>Open\<close> retries an interrupted \<^verbatim>\<open>::open\<close> by calling itself: each
  interrupted attempt puts one more activation of \<^verbatim>\<open>Open\<close> on the stack, and no counter
  bounds their number. On a port with a name that is not open, if the first \<open>n\<close> attempts
  are interrupted, \<^verbatim>\<open>Open\<close> returns what the call nested \<open>n\<close> deep returns, made after these
  \<open>n\<close> calls of \<^verbatim>\<open>::open\<close>; if the next attempt is not interrupted, \<^verbatim>\<open>Open\<close> returns, after
  \<open>n + 1\<close> calls of \<^verbatim>\<open>::open\<close> and what follows the last, and \<open>n + 1\<close> activations have been
  on the stack together; if every attempt is interrupted, \<^verbatim>\<open>Open\<close> never returns.
\<close>

theorem Open_retries_by_nested_calls:
  assumes "port p \<noteq> []" and "\<not> is_open p"
    and "\<forall>i<n. interrupted os (length w + i) (port p)"
  shows "Open plat os w p =
       nested n (Open plat os (w @ replicate n (sys_open (port p)))
         (if n = 0 then p else p\<lparr>fd := - 1\<rparr>)) \<and>
     (\<not> interrupted os (length w + n) (port p) \<longrightarrow>
        (\<exists>res w' p'. Open plat os w p =
           Some (res, w @ replicate (Suc n) (sys_open (port p)) @ w', p', Suc n))) \<and>
     ((\<forall>k. interrupted os k (port p)) \<longrightarrow> Open plat os w p = None)"
proof (intro conjI impI)
  show "Open plat os w p =
       nested n (Open plat os (w @ replicate n (sys_open (port p)))
         (if n = 0 then p else p\<lparr>fd := - 1\<rparr>))"
    using assms by (rule Open_retries)
  show "\<exists>res w' p'. Open plat os w p =
           Some (res, w @ replicate (Suc n) (sys_open (port p)) @ w', p', Suc n)"
    if "\<not> interrupted os (length w + n) (port p)"
    using assms that by (rule Open_returns_after)
  show "Open plat os w p = None" if "\<forall>k. interrupted os k (port p)"
    using that assms(1,2) by (rule Open_never_returns)
qed





lemma Open_example:
  "\<exists>w' p'. Open linux (interrupted_then_ok 2)
        [sys_open ''/dev/ttyS0'', sys_open ''/dev/ttyS0''] closed_port =
      Some (Inr (), [sys_open ''/dev/ttyS0'', sys_open ''/dev/ttyS0'', sys_open ''/dev/ttyS0''] @ w', p', 1)
      \<and> is_open p' \<and> fd p' = 3"
  by (subst Open.simps)
      (simp add: Reconfigure_defs example_defs enum_defs interrupted_then_ok_def)

theorem Open_retries_by_nested_calls_witness:
  "interrupted (interrupted_then_ok 2) 0 ''/dev/ttyS0'' \<and>
   interrupted (interrupted_then_ok 2) 1 ''/dev/ttyS0'' \<and>
   \<not> interrupted (interrupted_then_ok 2) 2 ''/dev/ttyS0'' \<and>
   (\<exists>w' p'. Open linux (interrupted_then_ok 2) [] closed_port =
      Some (Inr (), [sys_open ''/dev/ttyS0'', sys_open ''/dev/ttyS0'', sys_open ''/dev/ttyS0''] @ w',
        p', 3)
      \<and> is_open p' \<and> fd p' = 3)"
proof -
  have i: "interrupted (interrupted_then_ok 2) 0 ''/dev/ttyS0''"
    "interrupted (interrupted_then_ok 2) 1 ''/dev/ttyS0''"
    "\<not> interrupted (interrupted_then_ok 2) 2 ''/dev/ttyS0''"
    by (simp_all add: interrupted_def interrupted_then_ok_def reply_fail_def reply_ok_def EINTR_def)
  have h: "port closed_port \<noteq> []" "\<not> is_open closed_port"
    "\<forall>i<2. interrupted (interrupted_then_ok 2) (length ([] :: world) + i) (port closed_port)"
    using i by (simp_all add: closed_port_def less_Suc_eq numeral_2_eq_2)
  have r: "[] @ replicate 2 (sys_open (port closed_port)) =
      [sys_open ''/dev/ttyS0'', sys_open ''/dev/ttyS0'']"
    by (simp add: closed_port_def numeral_2_eq_2)
  have q: "(if (2::nat) = 0 then closed_port else closed_port\<lparr>fd := - 1\<rparr>) = closed_port"
    by (simp add: closed_port_def)
  have e: "Open linux (interrupted_then_ok 2) [] closed_port =
      nested 2 (Open linux (interrupted_then_ok 2) [sys_open ''/dev/ttyS0'', sys_open ''/dev/ttyS0'']
        closed_port)"
    using Open_retries_by_nested_calls [OF h, of linux] unfolding r q by (rule conjunct1)
  from Open_example obtain w' p' where
    x: "Open linux (interrupted_then_ok 2)
        [sys_open ''/dev/ttyS0'', sys_open ''/dev/ttyS0''] closed_port =
      Some (Inr (), [sys_open ''/dev/ttyS0'', sys_open ''/dev/ttyS0'', sys_open ''/dev/ttyS0''] @ w', p', 1)"
    and y: "is_open p'" "fd p' = 3"
    by blast
  have "Open linux (interrupted_then_ok 2) [] closed_port =
      Some (Inr (), [sys_open ''/dev/ttyS0'', sys_open ''/dev/ttyS0'', sys_open ''/dev/ttyS0''] @ w', p', 3)"
    unfolding e x by simp
  with y have "\<exists>w' p'. Open linux (interrupted_then_ok 2) [] closed_port =
      Some (Inr (), [sys_open ''/dev/ttyS0'', sys_open ''/dev/ttyS0'', sys_open ''/dev/ttyS0''] @ w',
        p', 3)
      \<and> is_open p' \<and> fd p' = 3"
    by blast
  with i show ?thesis by (intro conjI)
qed


section \<open>WaitForChange\<close>

lemma wait_poll_closed:
  assumes "\<not> is_open p"
  shows "wait_poll os oth p w = Some (Inr False, w, p)"
  using assms by (subst wait_poll.simps) simp

lemma wait_poll_quiet:
  assumes "is_open p" "ret (os (length w) (ioctl_TIOCMGET (fd p))) \<noteq> - 1"
    "\<not> any_line_set (out_status (os (length w) (ioctl_TIOCMGET (fd p))))"
  shows "wait_poll os oth p w =
     wait_poll os oth (oth (Suc (length w)) (oth (length w) p))
       (w @ [ioctl_TIOCMGET (fd p), sys_usleep 1000])"
  using assms by (subst wait_poll.simps) (simp add: sys_def)

lemma wait_poll_false:
  assumes "wait_poll os oth p w = Some y"
  shows "fst y = Inr False \<longrightarrow> \<not> is_open (snd (snd y))"
proof (rule wait_poll.raw_induct [OF _ assms], goal_cases)
  case (1 wait_poll' os oth p w y)
  show ?case
  proof (cases "is_open p")
    case False
    with 1(2) show ?thesis by auto
  next
    case True
    show ?thesis
    proof
      assume f: "fst y = Inr False"
      from 1(2) True f have "wait_poll' os oth (oth (Suc (length w)) (oth (length w) p))
          (w @ [ioctl_TIOCMGET (fd p), sys_usleep 1000]) = Some y"
        by (auto simp: sys_def Let_def split: if_splits)
      from 1(1) [OF this] f show "\<not> is_open (snd (snd y))" by simp
    qed
  qed
qed

text \<open>
  C6, as the spec states it: \<^verbatim>\<open>WaitForChange\<close> returns false on a closed port, and returns
  false if the port is closed during the wait. Where \<^verbatim>\<open>TIOCMIWAIT\<close> is defined, as on
  Linux, lines 983-991 are compiled instead of the loop and never read \<^verbatim>\<open>is_open_\<close>. On
  the closed port the \<^verbatim>\<open>ioctl\<close> on descriptor -1 fails (with \<^verbatim>\<open>EBADF\<close>, 9) and
  \<^verbatim>\<open>WaitForChange\<close> throws a \<^verbatim>\<open>SerialException\<close>. On an open port that another thread closes
  during the \<^verbatim>\<open>ioctl\<close>, if the \<^verbatim>\<open>ioctl\<close> returns 0, \<^verbatim>\<open>WaitForChange\<close> returns true.
\<close>

theorem WaitForChange_native_never_false:
  "WaitForChange linux (\<lambda>k c. reply_fail 9) alone [] closed_port =
     Some (Inl (SerialException_errno ''waitForDSR failed on a call to ioctl(TIOCMIWAIT): '' 9),
       [ioctl_TIOCMIWAIT (- 1) {TIOCM_CD, TIOCM_DSR, TIOCM_RI, TIOCM_CTS}], closed_port) \<and>
   WaitForChange linux (\<lambda>k c. reply_ok) (closed_meanwhile 0) [] open_port =
     Some (Inr True, [ioctl_TIOCMIWAIT 3 {TIOCM_CD, TIOCM_DSR, TIOCM_RI, TIOCM_CTS}], closed_port)"
  by (simp add: WaitForChange_def sys_def example_defs alone_def closed_meanwhile_def)

text \<open>
  C6, amended. Where \<^verbatim>\<open>TIOCMIWAIT\<close> is not defined, \<^verbatim>\<open>WaitForChange\<close> tests \<^verbatim>\<open>is_open_\<close> before
  every status query. On a port that is not marked open it returns false at once,
  without a system call. On a port marked open it queries the status lines: it throws
  if the query fails, returns true if one of the four lines is set, and otherwise
  sleeps 1000 microseconds and starts again, with the members as the other threads have
  left them during the query and the sleep; so if the port was closed meanwhile, it
  returns false after that sleep. It returns false only with the port not marked open.
  Where \<^verbatim>\<open>TIOCMIWAIT\<close> is defined, \<^verbatim>\<open>is_open_\<close> is not read: \<^verbatim>\<open>WaitForChange\<close> makes the one
  \<^verbatim>\<open>ioctl\<close>, throws a \<^verbatim>\<open>SerialException\<close> if it fails and returns true otherwise; it never
  returns false, neither on a closed port nor on a port closed during the wait.
\<close>

theorem WaitForChange_false_when_found_closed:
  "(\<not> def_TIOCMIWAIT plat \<and> \<not> is_open p \<longrightarrow>
      WaitForChange plat os oth w p = Some (Inr False, w, p)) \<and>
   (\<not> def_TIOCMIWAIT plat \<and> is_open p \<and>
    ret (os (length w) (ioctl_TIOCMGET (fd p))) = - 1 \<longrightarrow>
      WaitForChange plat os oth w p =
        Some (Inl (SerialException_errno
                ''waitForChange failed on a call to ioctl(TIOCMGET): ''
                (errno (os (length w) (ioctl_TIOCMGET (fd p))))),
              w @ [ioctl_TIOCMGET (fd p)], oth (length w) p)) \<and>
   (\<not> def_TIOCMIWAIT plat \<and> is_open p \<and>
    ret (os (length w) (ioctl_TIOCMGET (fd p))) \<noteq> - 1 \<and>
    any_line_set (out_status (os (length w) (ioctl_TIOCMGET (fd p)))) \<longrightarrow>
      WaitForChange plat os oth w p =
        Some (Inr True, w @ [ioctl_TIOCMGET (fd p)], oth (length w) p)) \<and>
   (\<not> def_TIOCMIWAIT plat \<and> is_open p \<and>
    ret (os (length w) (ioctl_TIOCMGET (fd p))) \<noteq> - 1 \<and>
    \<not> any_line_set (out_status (os (length w) (ioctl_TIOCMGET (fd p)))) \<longrightarrow>
      WaitForChange plat os oth w p =
        WaitForChange plat os oth (w @ [ioctl_TIOCMGET (fd p), sys_usleep 1000])
          (oth (Suc (length w)) (oth (length w) p))) \<and>
   (\<not> def_TIOCMIWAIT plat \<and> is_open p \<and>
    ret (os (length w) (ioctl_TIOCMGET (fd p))) \<noteq> - 1 \<and>
    \<not> any_line_set (out_status (os (length w) (ioctl_TIOCMGET (fd p)))) \<and>
    \<not> is_open (oth (Suc (length w)) (oth (length w) p)) \<longrightarrow>
      WaitForChange plat os oth w p =
        Some (Inr False, w @ [ioctl_TIOCMGET (fd p), sys_usleep 1000],
              oth (Suc (length w)) (oth (length w) p))) \<and>
   (\<not> def_TIOCMIWAIT plat \<and> WaitForChange plat os oth w p = Some (Inr False, w', p') \<longrightarrow>
      \<not> is_open p') \<and>
   (def_TIOCMIWAIT plat \<longrightarrow>
      WaitForChange plat os oth w p =
        Some (if ret (os (length w) (ioctl_TIOCMIWAIT (fd p) {TIOCM_CD, TIOCM_DSR, TIOCM_RI, TIOCM_CTS})) = - 1
              then Inl (SerialException_errno
                     ''waitForDSR failed on a call to ioctl(TIOCMIWAIT): ''
                     (errno (os (length w) (ioctl_TIOCMIWAIT (fd p) {TIOCM_CD, TIOCM_DSR, TIOCM_RI, TIOCM_CTS}))))
              else Inr True,
              w @ [ioctl_TIOCMIWAIT (fd p) {TIOCM_CD, TIOCM_DSR, TIOCM_RI, TIOCM_CTS}],
              oth (length w) p))"
proof -
  let ?q = "os (length w) (ioctl_TIOCMGET (fd p))"
  let ?p2 = "oth (Suc (length w)) (oth (length w) p)"
  let ?w2 = "w @ [ioctl_TIOCMGET (fd p), sys_usleep 1000]"
  have c1: "\<not> def_TIOCMIWAIT plat \<and> \<not> is_open p \<longrightarrow>
      WaitForChange plat os oth w p = Some (Inr False, w, p)"
    by (simp add: WaitForChange_def wait_poll_closed)
  have c2: "\<not> def_TIOCMIWAIT plat \<and> is_open p \<and> ret ?q = - 1 \<longrightarrow>
      WaitForChange plat os oth w p =
        Some (Inl (SerialException_errno
                ''waitForChange failed on a call to ioctl(TIOCMGET): '' (errno ?q)),
              w @ [ioctl_TIOCMGET (fd p)], oth (length w) p)"
    unfolding WaitForChange_def by (subst wait_poll.simps) (simp add: sys_def)
  have c3: "\<not> def_TIOCMIWAIT plat \<and> is_open p \<and> ret ?q \<noteq> - 1 \<and> any_line_set (out_status ?q) \<longrightarrow>
      WaitForChange plat os oth w p =
        Some (Inr True, w @ [ioctl_TIOCMGET (fd p)], oth (length w) p)"
    unfolding WaitForChange_def by (subst wait_poll.simps) (simp add: sys_def)
  have c4: "\<not> def_TIOCMIWAIT plat \<and> is_open p \<and> ret ?q \<noteq> - 1 \<and> \<not> any_line_set (out_status ?q) \<longrightarrow>
      WaitForChange plat os oth w p = WaitForChange plat os oth ?w2 ?p2"
    by (simp add: WaitForChange_def wait_poll_quiet)
  have c5: "\<not> def_TIOCMIWAIT plat \<and> is_open p \<and> ret ?q \<noteq> - 1 \<and> \<not> any_line_set (out_status ?q) \<and>
      \<not> is_open ?p2 \<longrightarrow>
      WaitForChange plat os oth w p = Some (Inr False, ?w2, ?p2)"
    by (simp add: WaitForChange_def wait_poll_quiet wait_poll_closed)
  have c6: "\<not> def_TIOCMIWAIT plat \<and> WaitForChange plat os oth w p = Some (Inr False, w', p') \<longrightarrow>
      \<not> is_open p'"
  proof
    assume "\<not> def_TIOCMIWAIT plat \<and> WaitForChange plat os oth w p = Some (Inr False, w', p')"
    then have "wait_poll os oth p w = Some (Inr False, w', p')"
      by (auto simp: WaitForChange_def)
    from wait_poll_false [OF this] show "\<not> is_open p'" by simp
  qed
  have c7: "def_TIOCMIWAIT plat \<longrightarrow>
      WaitForChange plat os oth w p =
        Some (if ret (os (length w) (ioctl_TIOCMIWAIT (fd p) {TIOCM_CD, TIOCM_DSR, TIOCM_RI, TIOCM_CTS})) = - 1
              then Inl (SerialException_errno
                     ''waitForDSR failed on a call to ioctl(TIOCMIWAIT): ''
                     (errno (os (length w) (ioctl_TIOCMIWAIT (fd p) {TIOCM_CD, TIOCM_DSR, TIOCM_RI, TIOCM_CTS}))))
              else Inr True,
              w @ [ioctl_TIOCMIWAIT (fd p) {TIOCM_CD, TIOCM_DSR, TIOCM_RI, TIOCM_CTS}],
              oth (length w) p)"
    by (simp add: WaitForChange_def sys_def)
  show ?thesis by (intro conjI c1 c2 c3 c4 c5 c6 c7)
qed

theorem WaitForChange_false_when_found_closed_witness:
  "WaitForChange polling_host (\<lambda>k c. reply_ok) alone [] closed_port =
     Some (Inr False, [], closed_port) \<and>
   WaitForChange polling_host cts_at_second_query alone [] open_port =
     Some (Inr True, [ioctl_TIOCMGET 3, sys_usleep 1000, ioctl_TIOCMGET 3], open_port) \<and>
   WaitForChange polling_host (\<lambda>k c. reply_ok) (closed_meanwhile 3) [] open_port =
     Some (Inr False, [ioctl_TIOCMGET 3, sys_usleep 1000, ioctl_TIOCMGET 3, sys_usleep 1000],
       closed_port) \<and>
   WaitForChange linux (\<lambda>k c. reply_ok) alone [] closed_port =
     Some (Inr True, [ioctl_TIOCMIWAIT (- 1) {TIOCM_CD, TIOCM_DSR, TIOCM_RI, TIOCM_CTS}], closed_port)"
proof -
  note t = WaitForChange_false_when_found_closed
  note d = polling_host_def example_defs alone_def closed_meanwhile_def any_line_set_def
    cts_at_second_query_def
  have a: "WaitForChange polling_host (\<lambda>k c. reply_ok) alone [] closed_port =
      Some (Inr False, [], closed_port)"
    using t [of polling_host closed_port "\<lambda>k c. reply_ok" alone "[]"]
    by (simp add: d)
  have b1: "WaitForChange polling_host cts_at_second_query alone [] open_port =
      WaitForChange polling_host cts_at_second_query alone [ioctl_TIOCMGET 3, sys_usleep 1000] open_port"
    using t [of polling_host open_port cts_at_second_query alone "[]"]
    by (simp add: d)
  have b2: "WaitForChange polling_host cts_at_second_query alone [ioctl_TIOCMGET 3, sys_usleep 1000] open_port =
      Some (Inr True, [ioctl_TIOCMGET 3, sys_usleep 1000, ioctl_TIOCMGET 3], open_port)"
    using t [of polling_host open_port cts_at_second_query alone "[ioctl_TIOCMGET 3, sys_usleep 1000]"]
    by (simp add: d)
  have c1: "WaitForChange polling_host (\<lambda>k c. reply_ok) (closed_meanwhile 3) [] open_port =
      WaitForChange polling_host (\<lambda>k c. reply_ok) (closed_meanwhile 3)
        [ioctl_TIOCMGET 3, sys_usleep 1000] open_port"
    using t [of polling_host open_port "\<lambda>k c. reply_ok" "closed_meanwhile 3" "[]"]
    by (simp add: d)
  have c2: "WaitForChange polling_host (\<lambda>k c. reply_ok) (closed_meanwhile 3)
        [ioctl_TIOCMGET 3, sys_usleep 1000] open_port =
      Some (Inr False, [ioctl_TIOCMGET 3, sys_usleep 1000, ioctl_TIOCMGET 3, sys_usleep 1000],
        closed_port)"
    using t [of polling_host open_port "\<lambda>k c. reply_ok" "closed_meanwhile 3"
        "[ioctl_TIOCMGET 3, sys_usleep 1000]",
        THEN conjunct2, THEN conjunct2, THEN conjunct2, THEN conjunct2, THEN conjunct1]
    by (simp add: d)
  have e: "WaitForChange linux (\<lambda>k c. reply_ok) alone [] closed_port =
     Some (Inr True, [ioctl_TIOCMIWAIT (- 1) {TIOCM_CD, TIOCM_DSR, TIOCM_RI, TIOCM_CTS}], closed_port)"
    using t [of linux closed_port "\<lambda>k c. reply_ok" alone "[]"]
    by (simp add: d)
  show ?thesis unfolding b1 c1 using a b2 c2 e by (intro conjI)
qed



section \<open>Read and Write\<close>

lemmas io_defs = example_defs example_timeout_def Timeout_max_def ready_device_def

lemma sint_eq_uint_small:
  assumes "uint (d :: 'a::len word) < 2 ^ (LENGTH('a) - 1)"
  shows "sint d = uint d"
proof -
  have "- (2 ^ (LENGTH('a) - 1)) \<le> uint d"
    by (rule order_trans [of _ 0]) simp_all
  with assms have "signed_take_bit (LENGTH('a) - 1) (uint d) = uint d"
    by (intro signed_take_bit_int_eq_self) auto
  then show ?thesis by (simp add: sint_uint)
qed

lemma coalesce_sleep_duration:
  fixes a br sz :: size_t and bt :: uint32_t
  assumes short: "unat a + unat br < unat sz"
    and small: "unat bt * (unat sz - (unat a + unat br)) < 2 ^ 63"
  shows "sint (ucast bt * (sz - (a + br)) :: 64 word) =
     int (unat bt * (unat sz - (unat a + unat br)))"
proof -
  define m where "m = unat sz - (unat a + unat br)"
  have sz64: "unat sz < 2 ^ 64" using unsigned_less [of sz, where 'a = nat] by simp
  have "unat a + unat br < 2 ^ LENGTH(64)" using short sz64 by simp
  then have sum: "unat (a + br) = unat a + unat br"
    by (simp only: unat_add_lem)
  have "a + br \<le> sz" using short sum by (simp add: word_le_nat_alt)
  then have diff: "unat (sz - (a + br)) = m"
    unfolding m_def by (simp add: unat_sub sum)
  have bt: "unat (ucast bt :: 64 word) = unat bt"
  proof -
    have "unat bt < 2 ^ 32" using unsigned_less [of bt, where 'a = nat] by simp
    then have "unat bt < 2 ^ 64" by simp
    then show ?thesis by (simp add: unsigned_ucast_eq take_bit_nat_eq_self)
  qed
  have prod: "unat bt * m < 2 ^ 63" using small unfolding m_def .
  then have "unat (ucast bt :: 64 word) * unat (sz - (a + br)) < 2 ^ LENGTH(64)"
    unfolding bt diff by simp
  then have "unat (ucast bt * (sz - (a + br)) :: 64 word) =
      unat (ucast bt :: 64 word) * unat (sz - (a + br))"
    by (rule unat_mult_lem [THEN iffD1])
  then have up: "unat (ucast bt * (sz - (a + br)) :: 64 word) = unat bt * m"
    by (simp only: bt diff)
  have "uint (ucast bt * (sz - (a + br)) :: 64 word) = int (unat bt * m)"
    using up by (metis uint_nat)
  moreover have "int (unat bt * m) < 2 ^ (LENGTH(64) - 1)"
  proof -
    have "int (unat bt * m) < int (2 ^ 63)" using prod by (simp only: of_nat_less_iff)
    then show ?thesis by simp
  qed
  ultimately show ?thesis
    unfolding m_def [symmetric] using sint_eq_uint_small [of "ucast bt * (sz - (a + br)) :: 64 word"]
    by simp
qed

lemma read_coalesce_calls:
  assumes "is_open p"
  shows "read_coalesce os p sz br w =
     (if 1 < sz \<and> inter_byte_timeout (timeout p) = Timeout_max then
        (if ret (os (length w) (ioctl_TIOCINQ (fd p))) = - 1
         then (Inl (IOException_errno (errno (os (length w) (ioctl_TIOCINQ (fd p))))),
               w @ [ioctl_TIOCINQ (fd p)])
         else if word_of_int (out_int (os (length w) (ioctl_TIOCINQ (fd p)))) + br < sz
         then (Inr (), w @ [ioctl_TIOCINQ (fd p),
                 pselect_sleep 0 (sint (ucast (byte_time_ns p) *
                   (sz - (word_of_int (out_int (os (length w) (ioctl_TIOCINQ (fd p)))) + br))))])
         else (Inr (), w @ [ioctl_TIOCINQ (fd p)]))
      else (Inr (), w))"
  using assms
  by (simp add: read_coalesce_def Available_def WaitByteTimes_def sys_def)

lemma read_transfer_calls:
  "snd (read_transfer os p sz br w) = w @ [sys_read (fd p) (sz - br)]"
  by (simp add: read_transfer_def sys_def Let_def)

lemma WaitReadable_calls:
  "snd (WaitReadable os p tmo w) = w @ [pselect_readfds (fd p) (uint tmo)]"
  by (simp add: WaitReadable_def sys_def Let_def)

lemma WaitReadable_ready:
  "fst (WaitReadable os p tmo w) = Inr True \<longleftrightarrow>
     0 < ret (os (length w) (pselect_readfds (fd p) (uint tmo))) \<and>
     fd_isset (os (length w) (pselect_readfds (fd p) (uint tmo)))"
  by (auto simp add: WaitReadable_def sys_def Let_def)

lemma Remaining_eq:
  "Remaining os deadline w = (deadline - out_int (os (length w) clock_now), w @ [clock_now])"
  by (simp add: Remaining_def sys_def)

lemma read_iteration_unfold:
  "read_iteration os p sz deadline br w =
     (if deadline - out_int (os (length w) clock_now) \<le> 0 then (Break br, w @ [clock_now])
      else
        (case WaitReadable os p
                (min (word_of_int (deadline - out_int (os (length w) clock_now)))
                   (inter_byte_timeout (timeout p))) (w @ [clock_now]) of
           (Inl e, w2) \<Rightarrow> (Throw e, w2)
         | (Inr False, w2) \<Rightarrow> (Continue br, w2)
         | (Inr True, w2) \<Rightarrow>
             (case read_coalesce os p sz br w2 of
                (Inl e, w3) \<Rightarrow> (Throw e, w3)
              | (Inr u, w3) \<Rightarrow> read_transfer os p sz br w3)))"
  by (simp add: read_iteration_def Remaining_eq Let_def)


lemma read_iteration_calls:
  assumes "is_open p"
  shows "drop (length w) (snd (read_iteration os p sz deadline br w)) =
    (let rem = deadline - out_int (os (length w) clock_now);
        tmo = min (word_of_int rem) (inter_byte_timeout (timeout p));
        sel = os (length w + 1) (pselect_readfds (fd p) (uint tmo));
        q = os (length w + 2) (ioctl_TIOCINQ (fd p));
        bytes_available = (word_of_int (out_int q) :: size_t)
     in if rem \<le> 0 then [clock_now]
        else if \<not> (0 < ret sel \<and> fd_isset sel) then [clock_now, pselect_readfds (fd p) (uint tmo)]
        else if \<not> (1 < sz \<and> inter_byte_timeout (timeout p) = Timeout_max)
        then [clock_now, pselect_readfds (fd p) (uint tmo), sys_read (fd p) (sz - br)]
        else if ret q = - 1
        then [clock_now, pselect_readfds (fd p) (uint tmo), ioctl_TIOCINQ (fd p)]
        else if bytes_available + br < sz
        then [clock_now, pselect_readfds (fd p) (uint tmo), ioctl_TIOCINQ (fd p),
              pselect_sleep 0 (sint (ucast (byte_time_ns p) * (sz - (bytes_available + br)))),
              sys_read (fd p) (sz - br)]
        else [clock_now, pselect_readfds (fd p) (uint tmo), ioctl_TIOCINQ (fd p),
              sys_read (fd p) (sz - br)])"
proof -
  define rem where "rem = deadline - out_int (os (length w) clock_now)"
  define tmo where "tmo = min (word_of_int rem) (inter_byte_timeout (timeout p))"
  define sel where "sel = os (length w + 1) (pselect_readfds (fd p) (uint tmo))"
  define q where "q = os (length w + 2) (ioctl_TIOCINQ (fd p))"
  define a where "a = (word_of_int (out_int q) :: size_t)"
  define w2 where "w2 = w @ [clock_now, pselect_readfds (fd p) (uint tmo)]"
  define wr where "wr = WaitReadable os p tmo (w @ [clock_now])"
  have it: "read_iteration os p sz deadline br w =
     (if rem \<le> 0 then (Break br, w @ [clock_now])
      else
        (case wr of
           (Inl e, w2) \<Rightarrow> (Throw e, w2)
         | (Inr False, w2) \<Rightarrow> (Continue br, w2)
         | (Inr True, w2) \<Rightarrow>
             (case read_coalesce os p sz br w2 of
                (Inl e, w3) \<Rightarrow> (Throw e, w3)
              | (Inr u, w3) \<Rightarrow> read_transfer os p sz br w3)))"
    unfolding read_iteration_unfold rem_def tmo_def wr_def by (rule refl)
  have wr_snd: "snd wr = w2"
    unfolding wr_def w2_def by (simp add: WaitReadable_calls)
  have wr_fst: "fst wr = Inr True \<longleftrightarrow> 0 < ret sel \<and> fd_isset sel"
    unfolding wr_def sel_def by (simp add: WaitReadable_ready)
  have co: "read_coalesce os p sz br w2 =
     (if 1 < sz \<and> inter_byte_timeout (timeout p) = Timeout_max then
        (if ret q = - 1
         then (Inl (IOException_errno (errno q)), w2 @ [ioctl_TIOCINQ (fd p)])
         else if a + br < sz
         then (Inr (), w2 @ [ioctl_TIOCINQ (fd p),
                 pselect_sleep 0 (sint (ucast (byte_time_ns p) * (sz - (a + br))))])
         else (Inr (), w2 @ [ioctl_TIOCINQ (fd p)]))
      else (Inr (), w2))"
    unfolding read_coalesce_calls [OF assms] a_def q_def w2_def by simp
  have tr: "\<And>v. snd (read_transfer os p sz br v) = v @ [sys_read (fd p) (sz - br)]"
    by (rule read_transfer_calls)
  have "drop (length w) (snd (read_iteration os p sz deadline br w)) =
     (if rem \<le> 0 then [clock_now]
        else if \<not> (0 < ret sel \<and> fd_isset sel) then [clock_now, pselect_readfds (fd p) (uint tmo)]
        else if \<not> (1 < sz \<and> inter_byte_timeout (timeout p) = Timeout_max)
        then [clock_now, pselect_readfds (fd p) (uint tmo), sys_read (fd p) (sz - br)]
        else if ret q = - 1
        then [clock_now, pselect_readfds (fd p) (uint tmo), ioctl_TIOCINQ (fd p)]
        else if a + br < sz
        then [clock_now, pselect_readfds (fd p) (uint tmo), ioctl_TIOCINQ (fd p),
              pselect_sleep 0 (sint (ucast (byte_time_ns p) * (sz - (a + br)))),
              sys_read (fd p) (sz - br)]
        else [clock_now, pselect_readfds (fd p) (uint tmo), ioctl_TIOCINQ (fd p),
              sys_read (fd p) (sz - br)])"
  proof (cases "rem \<le> 0")
    case True
    then show ?thesis by (simp add: it)
  next
    case False
    note pos = this
    show ?thesis
    proof (cases "fst wr = Inr True")
      case False
      then have nr: "\<not> (0 < ret sel \<and> fd_isset sel)" using wr_fst by simp
      from False wr_snd have "snd (read_iteration os p sz deadline br w) = w2"
        unfolding it using pos
        by (cases wr) (auto split: sum.splits bool.splits)
      then show ?thesis using pos nr by (simp add: w2_def)
    next
      case True
      then have r: "0 < ret sel \<and> fd_isset sel" using wr_fst by simp
      from True wr_snd have wr: "wr = (Inr True, w2)" by (cases wr) simp
      have "snd (read_iteration os p sz deadline br w) =
          (case read_coalesce os p sz br w2 of
                (Inl e, w3) \<Rightarrow> w3
              | (Inr u, w3) \<Rightarrow> w3 @ [sys_read (fd p) (sz - br)])"
        unfolding it wr using pos by (simp add: tr split: prod.splits sum.splits)
      then show ?thesis
        using pos r unfolding co by (simp add: w2_def)
    qed
  qed
  then show ?thesis
    unfolding Let_def rem_def tmo_def sel_def q_def a_def by simp
qed

text \<open>
  C8: in one turn of the loop of \<^verbatim>\<open>Read\<close> on an open port, the \<^verbatim>\<open>pselect\<close> of
  \<^verbatim>\<open>WaitByteTimes\<close> is among the system calls of the turn exactly when the deadline has
  not passed, the wait reported the device readable, more than one byte is requested,
  \<^verbatim>\<open>inter_byte_timeout\<close> is \<^verbatim>\<open>Timeout::max()\<close>, the query of the input queue did not fail
  and the bytes available plus the bytes read are fewer than requested; any other
  \<^verbatim>\<open>inter_byte_timeout\<close> leaves the turn without it. Its timeout has 0 seconds and, as
  nanoseconds, the product of line 591 of the byte time and the number of missing bytes.
  Where that product fits in a \<^verbatim>\<open>long\<close>, the call blocks for the product only if the
  product is less than one second: from one second on the \<^verbatim>\<open>timespec\<close> is not valid, the
  call fails at once and \<^verbatim>\<open>Read\<close>, which does not read its result, goes on to the transfer
  without having waited. In no case does the call block for a second or more.
\<close>

theorem read_iteration_sleep_call_and_duration:
  assumes "is_open p"
  shows
  "(let rem = deadline - out_int (os (length w) clock_now);
        tmo = min (word_of_int rem) (inter_byte_timeout (timeout p));
        sel = os (length w + 1) (pselect_readfds (fd p) (uint tmo));
        q = os (length w + 2) (ioctl_TIOCINQ (fd p));
        bytes_available = (word_of_int (out_int q) :: size_t);
        new_calls = drop (length w) (snd (read_iteration os p sz deadline br w));
        tv_nsec = sint (ucast (byte_time_ns p) * (sz - (bytes_available + br)));
        product = int (unat (byte_time_ns p) * (unat sz - (unat bytes_available + unat br)))
    in ((\<exists>s ns. pselect_sleep s ns \<in> set new_calls) \<longleftrightarrow>
          0 < rem \<and> 0 < ret sel \<and> fd_isset sel \<and> 1 < sz \<and>
          inter_byte_timeout (timeout p) = Timeout_max \<and> ret q \<noteq> - 1 \<and>
          bytes_available + br < sz) \<and>
       (\<forall>s ns. pselect_sleep s ns \<in> set new_calls \<longrightarrow>
          s = 0 \<and> ns = tv_nsec \<and>
          new_calls =
            [clock_now, pselect_readfds (fd p) (uint tmo), ioctl_TIOCINQ (fd p),
             pselect_sleep 0 tv_nsec, sys_read (fd p) (sz - br)]) \<and>
       (unat bytes_available + unat br < unat sz \<and> product < 2 ^ 63 \<longrightarrow>
          tv_nsec = product \<and>
          nanoseconds_slept 0 tv_nsec = (if product < 1000000000 then product else 0)) \<and>
       nanoseconds_slept 0 tv_nsec < 1000000000)"
proof -
  define rem where "rem = deadline - out_int (os (length w) clock_now)"
  define tmo where "tmo = min (word_of_int rem) (inter_byte_timeout (timeout p))"
  define sel where "sel = os (length w + 1) (pselect_readfds (fd p) (uint tmo))"
  define q where "q = os (length w + 2) (ioctl_TIOCINQ (fd p))"
  define a where "a = (word_of_int (out_int q) :: size_t)"
  define ready where "ready = (0 < ret sel \<and> fd_isset sel)"
  define multi where "multi = (1 < sz \<and> inter_byte_timeout (timeout p) = Timeout_max)"
  define ns where "ns = sint (ucast (byte_time_ns p) * (sz - (a + br)))"
  define m where "m = unat (byte_time_ns p) * (unat sz - (unat a + unat br))"
  define pr where "pr = int m"
  have calls: "drop (length w) (snd (read_iteration os p sz deadline br w)) =
     (if rem \<le> 0 then [clock_now]
        else if \<not> ready then [clock_now, pselect_readfds (fd p) (uint tmo)]
        else if \<not> multi
        then [clock_now, pselect_readfds (fd p) (uint tmo), sys_read (fd p) (sz - br)]
        else if ret q = - 1
        then [clock_now, pselect_readfds (fd p) (uint tmo), ioctl_TIOCINQ (fd p)]
        else if a + br < sz
        then [clock_now, pselect_readfds (fd p) (uint tmo), ioctl_TIOCINQ (fd p),
              pselect_sleep 0 ns, sys_read (fd p) (sz - br)]
        else [clock_now, pselect_readfds (fd p) (uint tmo), ioctl_TIOCINQ (fd p),
              sys_read (fd p) (sz - br)])"
    unfolding read_iteration_calls [OF assms] Let_def rem_def tmo_def sel_def q_def a_def
      ready_def multi_def ns_def
    by (rule refl)
  have dur: "unat a + unat br < unat sz \<and> pr < 2 ^ 63 \<longrightarrow>
      ns = pr \<and> nanoseconds_slept 0 ns = (if pr < 1000000000 then pr else 0)"
  proof
    assume h: "unat a + unat br < unat sz \<and> pr < 2 ^ 63"
    then have "m < 2 ^ 63"
      unfolding pr_def by simp
    with h have e: "ns = pr"
      unfolding ns_def pr_def m_def by (intro coalesce_sleep_duration) simp_all
    have "0 \<le> pr" unfolding pr_def by simp
    then have "nanoseconds_slept 0 pr = (if pr < 1000000000 then pr else 0)"
      by (simp add: nanoseconds_slept_def valid_timespec_def)
    with e show "ns = pr \<and> nanoseconds_slept 0 ns = (if pr < 1000000000 then pr else 0)"
      by simp
  qed
  have never: "nanoseconds_slept 0 ns < 1000000000"
    by (simp add: nanoseconds_slept_def valid_timespec_def)
  have "((\<exists>s n. pselect_sleep s n \<in> set (drop (length w) (snd (read_iteration os p sz deadline br w)))) \<longleftrightarrow>
          0 < rem \<and> ready \<and> multi \<and> ret q \<noteq> - 1 \<and> a + br < sz) \<and>
       (\<forall>s n. pselect_sleep s n \<in> set (drop (length w) (snd (read_iteration os p sz deadline br w))) \<longrightarrow>
          s = 0 \<and> n = ns \<and>
          drop (length w) (snd (read_iteration os p sz deadline br w)) =
            [clock_now, pselect_readfds (fd p) (uint tmo), ioctl_TIOCINQ (fd p),
             pselect_sleep 0 ns, sys_read (fd p) (sz - br)])"
    unfolding calls by auto
  with dur never show ?thesis
    unfolding Let_def rem_def tmo_def sel_def q_def a_def ready_def multi_def ns_def pr_def m_def
    by blast
qed

theorem read_iteration_sleep_call_and_duration_witness:
  "pselect_sleep 0 3124980 \<in> set (snd (read_iteration (ready_device 3 6) timed_port 8 1000 2 [])) \<and>
   nanoseconds_slept 0 3124980 = 3124980 \<and>
   (\<forall>s ns. pselect_sleep s ns \<notin> set (snd (read_iteration (ready_device 3 6)
      (timed_port\<lparr>timeout := example_timeout\<lparr>inter_byte_timeout := 50\<rparr>\<rparr>) 8 1000 2 []))) \<and>
   snd (read_iteration (ready_device 0 961) timed_port 961 1000 0 []) =
     [clock_now, pselect_readfds 3 1000, ioctl_TIOCINQ 3, pselect_sleep 0 1001035260,
      sys_read 3 961] \<and>
   int (unat (byte_time_ns timed_port) * 961) = 1001035260 \<and>
   nanoseconds_slept 0 1001035260 = 0"
proof -
  have o: "is_open timed_port" by (simp add: timed_port_def open_port_def)
  have o2: "is_open (timed_port\<lparr>timeout := example_timeout\<lparr>inter_byte_timeout := 50\<rparr>\<rparr>)"
    by (simp add: timed_port_def open_port_def)
  note t = read_iteration_sleep_call_and_duration [OF o, of 1000 "ready_device 3 6" "[]" 8 2]
  note t2 = read_iteration_sleep_call_and_duration [OF o2, of 1000 "ready_device 3 6" "[]" 8 2]
  note t3 = read_iteration_sleep_call_and_duration [OF o, of 1000 "ready_device 0 961" "[]" 961 0]
  have t': "(\<exists>s ns. pselect_sleep s ns \<in> set (snd (read_iteration (ready_device 3 6) timed_port 8 1000 2 []))) \<and>
      (\<forall>s ns. pselect_sleep s ns \<in> set (snd (read_iteration (ready_device 3 6) timed_port 8 1000 2 []))
      \<longrightarrow> s = 0 \<and> ns = 3124980) \<and> nanoseconds_slept 0 3124980 = 3124980"
    using t by (simp add: Let_def timed_port_def io_defs)
  have a: "pselect_sleep 0 3124980 \<in> set (snd (read_iteration (ready_device 3 6) timed_port 8 1000 2 []))"
    using t' by blast
  have a2: "nanoseconds_slept 0 3124980 = 3124980"
    using t' by blast
  have b: "\<forall>s ns. pselect_sleep s ns \<notin> set (snd (read_iteration (ready_device 3 6)
      (timed_port\<lparr>timeout := example_timeout\<lparr>inter_byte_timeout := 50\<rparr>\<rparr>) 8 1000 2 []))"
    using t2 by (simp add: Let_def timed_port_def io_defs)
  have t3': "(\<exists>s ns. pselect_sleep s ns \<in>
        set (snd (read_iteration (ready_device 0 961) timed_port 961 1000 0 []))) \<and>
      (\<forall>s ns. pselect_sleep s ns \<in>
        set (snd (read_iteration (ready_device 0 961) timed_port 961 1000 0 []))
      \<longrightarrow> snd (read_iteration (ready_device 0 961) timed_port 961 1000 0 []) =
        [clock_now, pselect_readfds 3 1000, ioctl_TIOCINQ 3, pselect_sleep 0 1001035260,
         sys_read 3 961]) \<and> nanoseconds_slept 0 1001035260 = 0"
    using t3 by (simp add: Let_def timed_port_def io_defs) blast
  have c: "snd (read_iteration (ready_device 0 961) timed_port 961 1000 0 []) =
      [clock_now, pselect_readfds 3 1000, ioctl_TIOCINQ 3, pselect_sleep 0 1001035260,
       sys_read 3 961]"
    using t3' by blast
  have c2: "nanoseconds_slept 0 1001035260 = 0"
    using t3' by blast
  have d: "int (unat (byte_time_ns timed_port) * 961) = 1001035260"
    by (simp add: timed_port_def)
  show ?thesis by (intro conjI a a2 b c d c2)
qed

lemma uint_ucast_32_64: "uint (ucast (x :: 32 word) :: 64 word) = uint x"
  by (rule uint_up_ucast) (simp add: is_up)

lemma sint_total_timeout:
  fixes c m :: "32 word" and sz :: "64 word"
  assumes "uint c + uint m * uint sz < 2 ^ 63"
  shows "sint (ucast c + ucast m * sz :: 64 word) = uint c + uint m * uint sz"
proof -
  have nonneg: "0 \<le> uint c + uint m * uint sz" by simp
  have lt: "uint c + uint m * uint sz < 2 ^ 64" using assms by simp
  have "uint (ucast c + ucast m * sz :: 64 word) = (uint c + uint m * uint sz) mod 2 ^ 64"
    by (simp add: uint_word_ariths uint_ucast_32_64 mod_simps)
  also have "\<dots> = uint c + uint m * uint sz"
    using nonneg lt by (rule mod_pos_pos_trivial)
  finally have u: "uint (ucast c + ucast m * sz :: 64 word) = uint c + uint m * uint sz" .
  then have "uint (ucast c + ucast m * sz :: 64 word) < 2 ^ (LENGTH(64) - 1)"
    using assms by simp
  then show ?thesis using u by (simp add: sint_eq_uint_small)
qed

lemma wait_timeout_bounded:
  fixes ibt :: "32 word"
  assumes "0 < rem"
  shows "uint (min (word_of_int rem) ibt) \<le> rem" and "min (word_of_int rem) ibt \<le> ibt"
proof -
  have "uint (min (word_of_int rem) ibt) \<le> uint (word_of_int rem :: 32 word)"
    by (simp add: word_le_def [symmetric])
  also have "\<dots> = rem mod 2 ^ 32" by (simp add: uint_word_of_int)
  also have "\<dots> \<le> rem" using assms by (simp add: zmod_le_nonneg_dividend)
  finally show "uint (min (word_of_int rem) ibt) \<le> rem" .
  show "min (word_of_int rem) ibt \<le> ibt" by simp
qed

lemma Read_unfold:
  assumes "is_open p"
  shows "Read os w p sz =
        read_loop os p sz (out_int (os (length w) clock_now) + sint (read_total_timeout_ms p sz))
          (if 0 < ret (os (length w + 1) (sys_read (fd p) sz))
           then word_of_int (ret (os (length w + 1) (sys_read (fd p) sz))) else 0)
          (w @ [clock_now, sys_read (fd p) sz])"
  using assms by (simp add: Read_def MilliTimer_def sys_def)

lemma read_loop_deadline_passed:
  assumes "br < sz" "deadline - out_int (os (length v) clock_now) \<le> 0"
  shows "read_loop os p sz deadline br v = Some (Inr br, v @ [clock_now], p)"
  using assms by (subst read_loop.simps) (simp add: read_iteration_unfold)

lemma read_iteration_wait:
  assumes o: "is_open p" and pos: "0 < deadline - out_int (os (length v) clock_now)"
  shows "\<exists>tmo rest. drop (length v) (snd (read_iteration os p sz deadline br v)) =
            clock_now # pselect_readfds (fd p) (uint tmo) # rest \<and>
          uint tmo \<le> deadline - out_int (os (length v) clock_now) \<and>
          tmo \<le> inter_byte_timeout (timeout p) \<and>
          (\<forall>d t. pselect_readfds d t \<notin> set rest)"
proof -
  define rem where "rem = deadline - out_int (os (length v) clock_now)"
  define tmo where "tmo = min (word_of_int rem) (inter_byte_timeout (timeout p))"
  have b: "uint tmo \<le> rem" "tmo \<le> inter_byte_timeout (timeout p)"
    unfolding tmo_def using pos wait_timeout_bounded [of rem] by (simp_all add: rem_def)
  have "\<exists>rest. drop (length v) (snd (read_iteration os p sz deadline br v)) =
            clock_now # pselect_readfds (fd p) (uint tmo) # rest \<and>
          (\<forall>d t. pselect_readfds d t \<notin> set rest)"
    unfolding read_iteration_calls [OF o] Let_def rem_def [symmetric] tmo_def [symmetric]
    using pos by (simp add: rem_def)
  with b show ?thesis unfolding rem_def by blast
qed


lemma read_transfer_disconnected:
  assumes "ret (os (length v) (sys_read (fd p) (sz - br))) < 1"
  shows "read_transfer os p sz br v = (Throw read_disconnected, v @ [sys_read (fd p) (sz - br)])"
  using assms by (simp add: read_transfer_def sys_def)

lemma read_loop_members:
  assumes "read_loop os p sz deadline br v = Some y"
  shows "snd (snd y) = p"
proof (rule read_loop.raw_induct [OF _ assms], goal_cases)
  case (1 read_loop' os p sz deadline br v y)
  show ?case
  proof (cases "br < sz")
    case False
    with 1(2) show ?thesis by auto
  next
    case True
    obtain st v1 where it: "read_iteration os p sz deadline br v = (st, v1)"
      by (cases "read_iteration os p sz deadline br v")
    show ?thesis
    proof (cases st)
      case (Continue b)
      with 1(2) True it have "read_loop' os p sz deadline b v1 = Some y" by simp
      then show ?thesis by (rule 1(1))
    next
      case (Break b)
      with 1(2) True it show ?thesis by auto
    next
      case (Throw e)
      with 1(2) True it show ?thesis by auto
    qed
  qed
qed

lemma Read_members:
  assumes "Read os w p sz = Some (res, w', p')"
  shows "p' = p"
proof (cases "is_open p")
  case False
  with assms show ?thesis by (simp add: Read_def)
next
  case True
  from assms read_loop_members [of os p sz _ _ _ "(res, w', p')"] show ?thesis
    unfolding Read_unfold [OF True] by simp
qed

lemma write_iteration_unfold:
  "write_iteration os p len deadline bw w =
     (if deadline - out_int (os (length w) clock_now) \<le> 0 then (Break bw, w @ [clock_now])
      else
        (let rem = deadline - out_int (os (length w) clock_now);
             r = os (length w + 1) (pselect_writefds (fd p) rem);
             w2 = w @ [clock_now, pselect_writefds (fd p) rem] in
         if ret r < 0 then
           (if errno r = EINTR then (Continue bw, w2)
            else (Throw (IOException_errno (errno r)), w2))
         else if ret r = 0 then (Break bw, w2)
         else if fd_isset r then
           (let now = ret (os (length w + 2) (sys_write (fd p) (len - bw)));
                w3 = w2 @ [sys_write (fd p) (len - bw)] in
            if now < 1 then (Throw write_disconnected, w3)
            else if bw + word_of_int now = len then (Break (bw + word_of_int now), w3)
            else if bw + word_of_int now < len then (Continue (bw + word_of_int now), w3)
            else (Throw write_over_wrote, w3))
         else (Throw (IOException_msg
                 ''select reports ready to write, but our fd isn't in the list, this shouldn't happen!''), w2)))"
  by (simp add: write_iteration_def Remaining_eq sys_def Let_def)

lemma write_loop_members:
  assumes "write_loop os p len deadline bw v = Some y"
  shows "snd (snd y) = p"
proof (rule write_loop.raw_induct [OF _ assms], goal_cases)
  case (1 write_loop' os p len deadline bw v y)
  show ?case
  proof (cases "bw < len")
    case False
    with 1(2) show ?thesis by auto
  next
    case True
    obtain st v1 where it: "write_iteration os p len deadline bw v = (st, v1)"
      by (cases "write_iteration os p len deadline bw v")
    show ?thesis
    proof (cases st)
      case (Continue b)
      with 1(2) True it have "write_loop' os p len deadline b v1 = Some y" by simp
      then show ?thesis by (rule 1(1))
    next
      case (Break b)
      with 1(2) True it show ?thesis by auto
    next
      case (Throw e)
      with 1(2) True it show ?thesis by auto
    qed
  qed
qed

lemma Write_members:
  assumes "Write os w p len = Some (res, w', p')"
  shows "p' = p"
proof (cases "is_open p")
  case False
  with assms show ?thesis by (simp add: Write_def)
next
  case True
  from assms write_loop_members [of os p len _ _ _ "(res, w', p')"] show ?thesis
    by (simp add: Write_def MilliTimer_def sys_def True)
qed

text \<open>
  C2: in a turn of the loop of \<^verbatim>\<open>Read\<close> in which the wait reported the device readable
  (and the coalescing wait did not throw), a transfer that returns less than 1 makes
  \<^verbatim>\<open>Read\<close> throw the \<^verbatim>\<open>SerialException\<close> of line 648; the loop is left, no further call
  is made. The same holds in \<^verbatim>\<open>Write\<close> for a transfer that returns less than 1 after
  \<^verbatim>\<open>pselect\<close> reported the descriptor writable (line 731). Whatever \<^verbatim>\<open>Read\<close> and \<^verbatim>\<open>Write\<close>
  return or throw, they leave every member as it was, \<^verbatim>\<open>is_open_\<close> among them.
\<close>

theorem transfer_without_data_is_fatal:
  "(br < sz \<and> Remaining os deadline w = (rem, w1) \<and> 0 < rem \<and>
    WaitReadable os p (min (word_of_int rem) (inter_byte_timeout (timeout p))) w1 = (Inr True, w2) \<and>
    read_coalesce os p sz br w2 = (Inr (), w3) \<and>
    ret (os (length w3) (sys_read (fd p) (sz - br))) < 1 \<longrightarrow>
      read_loop os p sz deadline br w =
        Some (Inl read_disconnected, w3 @ [sys_read (fd p) (sz - br)], p)) \<and>
   (bw < len \<and> Remaining os deadline w = (rem, w1) \<and> 0 < rem \<and>
    0 < ret (os (length w1) (pselect_writefds (fd p) rem)) \<and>
    fd_isset (os (length w1) (pselect_writefds (fd p) rem)) \<and>
    ret (os (length w1 + 1) (sys_write (fd p) (len - bw))) < 1 \<longrightarrow>
      write_loop os p len deadline bw w =
        Some (Inl write_disconnected,
              w1 @ [pselect_writefds (fd p) rem, sys_write (fd p) (len - bw)], p)) \<and>
   (Read os v p sz = Some (res, v', p') \<longrightarrow> p' = p \<and> is_open p' = is_open p) \<and>
   (Write os v p len = Some (res, v', p') \<longrightarrow> p' = p \<and> is_open p' = is_open p)"
proof -
  have r: "br < sz \<and> Remaining os deadline w = (rem, w1) \<and> 0 < rem \<and>
    WaitReadable os p (min (word_of_int rem) (inter_byte_timeout (timeout p))) w1 = (Inr True, w2) \<and>
    read_coalesce os p sz br w2 = (Inr (), w3) \<and>
    ret (os (length w3) (sys_read (fd p) (sz - br))) < 1 \<longrightarrow>
      read_loop os p sz deadline br w =
        Some (Inl read_disconnected, w3 @ [sys_read (fd p) (sz - br)], p)"
  proof
    assume a: "br < sz \<and> Remaining os deadline w = (rem, w1) \<and> 0 < rem \<and>
      WaitReadable os p (min (word_of_int rem) (inter_byte_timeout (timeout p))) w1 = (Inr True, w2) \<and>
      read_coalesce os p sz br w2 = (Inr (), w3) \<and>
      ret (os (length w3) (sys_read (fd p) (sz - br))) < 1"
    then have "read_iteration os p sz deadline br w =
        (Throw read_disconnected, w3 @ [sys_read (fd p) (sz - br)])"
      by (simp add: read_iteration_def read_transfer_disconnected)
    with a show "read_loop os p sz deadline br w =
        Some (Inl read_disconnected, w3 @ [sys_read (fd p) (sz - br)], p)"
      by (subst read_loop.simps) simp
  qed
  have wr: "bw < len \<and> Remaining os deadline w = (rem, w1) \<and> 0 < rem \<and>
    0 < ret (os (length w1) (pselect_writefds (fd p) rem)) \<and>
    fd_isset (os (length w1) (pselect_writefds (fd p) rem)) \<and>
    ret (os (length w1 + 1) (sys_write (fd p) (len - bw))) < 1 \<longrightarrow>
      write_loop os p len deadline bw w =
        Some (Inl write_disconnected,
              w1 @ [pselect_writefds (fd p) rem, sys_write (fd p) (len - bw)], p)"
  proof
    assume a: "bw < len \<and> Remaining os deadline w = (rem, w1) \<and> 0 < rem \<and>
      0 < ret (os (length w1) (pselect_writefds (fd p) rem)) \<and>
      fd_isset (os (length w1) (pselect_writefds (fd p) rem)) \<and>
      ret (os (length w1 + 1) (sys_write (fd p) (len - bw))) < 1"
    then have "write_iteration os p len deadline bw w =
        (Throw write_disconnected, w1 @ [pselect_writefds (fd p) rem, sys_write (fd p) (len - bw)])"
      by (auto simp add: write_iteration_def sys_def Remaining_eq)
    with a show "write_loop os p len deadline bw w =
        Some (Inl write_disconnected,
              w1 @ [pselect_writefds (fd p) rem, sys_write (fd p) (len - bw)], p)"
      by (subst write_loop.simps) simp
  qed
  have rm: "Read os v p sz = Some (res, v', p') \<longrightarrow> p' = p \<and> is_open p' = is_open p"
    using Read_members [of os v p sz res v' p'] by blast
  have wm: "Write os v p len = Some (res, v', p') \<longrightarrow> p' = p \<and> is_open p' = is_open p"
    using Write_members [of os v p len res v' p'] by blast
  show ?thesis by (intro conjI r wr rm wm)
qed


lemma accumulate_bounded:
  fixes b n :: size_t
  assumes lt: "b < n" and lo: "1 \<le> now" and hi: "now \<le> uint (n - b)"
  shows "b + word_of_int now \<le> n"
proof -
  have d: "uint (n - b) = uint n - uint b"
    using lt by (simp add: uint_sub_lem [THEN iffD1] word_less_def)
  have n64: "uint n < 2 ^ 64" using uint_lt2p [of n] by simp
  have nowlt: "now < 2 ^ 64" using hi d n64 uint_ge_0 [of b] by linarith
  have x: "uint (word_of_int now :: 64 word) = now"
    using lo nowlt by (simp add: uint_word_of_int)
  have sum: "uint b + uint (word_of_int now :: 64 word) \<le> uint n"
    using hi d x by simp
  then have "uint b + uint (word_of_int now :: 64 word) < 2 ^ LENGTH(64)"
    using n64 by simp
  then have "uint (b + word_of_int now) = uint b + uint (word_of_int now :: 64 word)"
    by (rule uint_add_lem [THEN iffD1])
  with sum show ?thesis by (simp add: word_le_def)
qed

lemma read_distinct [simp]:
  "read_disconnected \<noteq> read_over_read"
  "IOException_errno e \<noteq> read_over_read"
  "IOException_msg m \<noteq> read_over_read"
  by (simp_all add: read_disconnected_def read_over_read_def)

lemma write_distinct [simp]:
  "write_disconnected \<noteq> write_over_wrote"
  "IOException_errno e \<noteq> write_over_wrote"
  "IOException_msg m \<noteq> write_over_wrote"
  by (simp_all add: write_disconnected_def write_over_wrote_def)

lemma read_transfer_bounded:
  assumes ok: "\<forall>k d n. ret (os k (sys_read d n)) \<le> uint n" and lt: "br < sz"
  shows "within sz read_over_read (fst (read_transfer os p sz br v))"
proof -
  define now where "now = ret (os (length v) (sys_read (fd p) (sz - br)))"
  have hi: "now \<le> uint (sz - br)" unfolding now_def using ok by blast
  show ?thesis
  proof (cases "now < 1")
    case True
    then show ?thesis
      by (simp add: read_transfer_def sys_def now_def [symmetric] within_def)
  next
    case False
    then have "br + word_of_int now \<le> sz"
      using lt hi by (intro accumulate_bounded) simp_all
    with False show ?thesis
      by (simp add: read_transfer_def sys_def now_def [symmetric] within_def Let_def)
  qed
qed

lemma read_iteration_bounded:
  assumes ok: "\<forall>k d n. ret (os k (sys_read d n)) \<le> uint n" and lt: "br < sz"
  shows "within sz read_over_read (fst (read_iteration os p sz deadline br v))"
proof -
  have le: "br \<le> sz" using lt by simp
  have t: "\<And>u. within sz read_over_read (fst (read_transfer os p sz br u))"
    using ok lt by (rule read_transfer_bounded)
  have c: "\<And>u e u'. read_coalesce os p sz br u = (Inl e, u') \<Longrightarrow> e \<noteq> read_over_read"
    by (auto simp: read_coalesce_def Available_def sys_def Let_def split: if_splits prod.splits sum.splits)
  have wr: "\<And>t u e u'. WaitReadable os p t u = (Inl e, u') \<Longrightarrow> e \<noteq> read_over_read"
    by (auto simp: WaitReadable_def sys_def Let_def split: if_splits)
  show ?thesis
    unfolding read_iteration_unfold
    using le t c wr
    by (auto simp: within_def split: prod.splits sum.splits bool.splits step.splits)
qed

lemma read_loop_bounded:
  assumes run: "read_loop os p sz deadline br v = Some y"
  shows "(\<forall>k d n. ret (os k (sys_read d n)) \<le> uint n) \<and> br \<le> sz \<longrightarrow>
     fst y \<noteq> Inl read_over_read \<and> (\<forall>n. fst y = Inr n \<longrightarrow> n \<le> sz)"
proof (rule read_loop.raw_induct [OF _ run], goal_cases)
  case (1 read_loop' os p sz deadline br v y)
  show ?case
  proof
    assume a: "(\<forall>k d n. ret (os k (sys_read d n)) \<le> uint n) \<and> br \<le> sz"
    show "fst y \<noteq> Inl read_over_read \<and> (\<forall>n. fst y = Inr n \<longrightarrow> n \<le> sz)"
    proof (cases "br < sz")
      case False
      with 1(2) a show ?thesis by auto
    next
      case True
      obtain st v1 where it: "read_iteration os p sz deadline br v = (st, v1)"
        by (cases "read_iteration os p sz deadline br v")
      have w: "within sz read_over_read st"
        using read_iteration_bounded [of os br sz p deadline v] a True it by simp
      show ?thesis
      proof (cases st)
        case (Continue b)
        with 1(2) True it have "read_loop' os p sz deadline b v1 = Some y" by simp
        from 1(1) [OF this] a w Continue show ?thesis by (simp add: within_def)
      next
        case (Break b)
        with 1(2) True it w show ?thesis by (auto simp: within_def)
      next
        case (Throw e)
        with 1(2) True it w show ?thesis by (auto simp: within_def)
      qed
    qed
  qed
qed

lemma Read_bounded:
  assumes ok: "\<forall>k d n. ret (os k (sys_read d n)) \<le> uint n"
    and run: "Read os w p sz = Some (res, w', p')"
  shows "res \<noteq> Inl read_over_read \<and> (\<forall>n. res = Inr n \<longrightarrow> n \<le> sz)"
proof (cases "is_open p")
  case False
  with run show ?thesis by (auto simp: Read_def read_over_read_def)
next
  case True
  define r where "r = ret (os (length w + 1) (sys_read (fd p) sz))"
  have hi: "r \<le> uint sz" unfolding r_def using ok by blast
  have pre: "(if 0 < r then word_of_int r else 0) \<le> sz"
  proof (cases "0 < r")
    case False
    then show ?thesis by simp
  next
    case True
    have "r < 2 ^ 64" using hi uint_lt2p [of sz] by simp
    then have "uint (word_of_int r :: 64 word) = r" using True by (simp add: uint_word_of_int)
    then show ?thesis using True hi by (simp add: word_le_def)
  qed
  from run have "read_loop os p sz (out_int (os (length w) clock_now) + sint (read_total_timeout_ms p sz))
          (if 0 < r then word_of_int r else 0) (w @ [clock_now, sys_read (fd p) sz]) = Some (res, w', p')"
    unfolding Read_unfold [OF True] r_def .
  from read_loop_bounded [OF this] ok pre show ?thesis by simp
qed


lemma write_iteration_bounded:
  assumes ok: "\<forall>k d n. ret (os k (sys_write d n)) \<le> uint n" and lt: "bw < len"
  shows "within len write_over_wrote (fst (write_iteration os p len deadline bw v))"
proof -
  define now where "now = ret (os (length v + 2) (sys_write (fd p) (len - bw)))"
  have hi: "now \<le> uint (len - bw)" unfolding now_def using ok by blast
  have le: "bw \<le> len" using lt by simp
  have acc: "\<not> now < 1 \<Longrightarrow> bw + word_of_int now \<le> len"
    using lt hi by (intro accumulate_bounded) simp_all
  show ?thesis
    unfolding write_iteration_unfold Let_def now_def [symmetric]
    using le acc by (auto simp: within_def)
qed

lemma write_loop_bounded:
  assumes run: "write_loop os p len deadline bw v = Some y"
  shows "(\<forall>k d n. ret (os k (sys_write d n)) \<le> uint n) \<and> bw \<le> len \<longrightarrow>
     fst y \<noteq> Inl write_over_wrote \<and> (\<forall>n. fst y = Inr n \<longrightarrow> n \<le> len)"
proof (rule write_loop.raw_induct [OF _ run], goal_cases)
  case (1 write_loop' os p len deadline bw v y)
  show ?case
  proof
    assume a: "(\<forall>k d n. ret (os k (sys_write d n)) \<le> uint n) \<and> bw \<le> len"
    show "fst y \<noteq> Inl write_over_wrote \<and> (\<forall>n. fst y = Inr n \<longrightarrow> n \<le> len)"
    proof (cases "bw < len")
      case False
      with 1(2) a show ?thesis by auto
    next
      case True
      obtain st v1 where it: "write_iteration os p len deadline bw v = (st, v1)"
        by (cases "write_iteration os p len deadline bw v")
      have w: "within len write_over_wrote st"
        using write_iteration_bounded [of os bw len p deadline v] a True it by simp
      show ?thesis
      proof (cases st)
        case (Continue b)
        with 1(2) True it have "write_loop' os p len deadline b v1 = Some y" by simp
        from 1(1) [OF this] a w Continue show ?thesis by (simp add: within_def)
      next
        case (Break b)
        with 1(2) True it w show ?thesis by (auto simp: within_def)
      next
        case (Throw e)
        with 1(2) True it w show ?thesis by (auto simp: within_def)
      qed
    qed
  qed
qed

lemma Write_bounded:
  assumes ok: "\<forall>k d n. ret (os k (sys_write d n)) \<le> uint n"
    and run: "Write os w p len = Some (res, w', p')"
  shows "res \<noteq> Inl write_over_wrote \<and> (\<forall>n. res = Inr n \<longrightarrow> n \<le> len)"
proof (cases "is_open p")
  case False
  with run show ?thesis by (auto simp: Write_def write_over_wrote_def)
next
  case True
  from run have "write_loop os p len
      (out_int (os (length w) clock_now) + sint (write_total_timeout_ms p len)) 0
      (w @ [clock_now]) = Some (res, w', p')"
    by (simp add: Write_def MilliTimer_def sys_def True)
  from write_loop_bounded [OF this] ok show ?thesis by simp
qed

text \<open>
  C9: when no \<^verbatim>\<open>::read\<close> and no \<^verbatim>\<open>::write\<close> returns more than the count it was asked
  for, a \<^verbatim>\<open>Read\<close> or \<^verbatim>\<open>Write\<close> that returns never throws the exception of line 664 or 748
  (over read, over wrote), and the count it returns is at most the request.
\<close>

theorem Read_Write_never_exceed_request:
  assumes "\<forall>k d n. ret (os k (sys_read d n)) \<le> uint n"
    and "\<forall>k d n. ret (os k (sys_write d n)) \<le> uint n"
  shows "(Read os w p sz = Some (res, w', p') \<longrightarrow>
            res \<noteq> Inl read_over_read \<and> (\<forall>n. res = Inr n \<longrightarrow> n \<le> sz)) \<and>
         (Write os w p len = Some (res, w', p') \<longrightarrow>
            res \<noteq> Inl write_over_wrote \<and> (\<forall>n. res = Inr n \<longrightarrow> n \<le> len))"
  using Read_bounded [OF assms(1)] Write_bounded [OF assms(2)] by blast


lemma transferred_append:
  "transferred os k (cs @ cs') = transferred os k cs + transferred os (k + length cs) cs'"
  by (induction cs arbitrary: k) simp_all

lemma WaitReadable_trace:
  "\<exists>r. WaitReadable os p tmo u = (r, u @ [pselect_readfds (fd p) (uint tmo)])"
  by (simp add: WaitReadable_def sys_def Let_def)

lemma read_coalesce_trace:
  assumes "read_coalesce os p sz br u = (r, u')"
  shows "\<exists>cs. u' = u @ cs \<and> (\<forall>k. transferred os k cs = 0)"
proof -
  have "u' = u \<or> u' = u @ [ioctl_TIOCINQ (fd p)] \<or>
      (\<exists>ns. u' = u @ [ioctl_TIOCINQ (fd p), pselect_sleep 0 ns]) \<or>
      (\<exists>ns. u' = u @ [pselect_sleep 0 ns])"
    using assms
    by (auto simp: read_coalesce_def Available_def WaitByteTimes_def sys_def Let_def
        split: if_splits prod.splits sum.splits)
  then show ?thesis
  proof (elim disjE exE)
    assume "u' = u"
    then have "u' = u @ [] \<and> (\<forall>k. transferred os k [] = 0)" by simp
    then show ?thesis by blast
  next
    assume "u' = u @ [ioctl_TIOCINQ (fd p)]"
    then have "u' = u @ [ioctl_TIOCINQ (fd p)] \<and>
        (\<forall>k. transferred os k [ioctl_TIOCINQ (fd p)] = 0)" by simp
    then show ?thesis by blast
  next
    fix ns
    assume "u' = u @ [ioctl_TIOCINQ (fd p), pselect_sleep 0 ns]"
    then have "u' = u @ [ioctl_TIOCINQ (fd p), pselect_sleep 0 ns] \<and>
        (\<forall>k. transferred os k [ioctl_TIOCINQ (fd p), pselect_sleep 0 ns] = 0)" by simp
    then show ?thesis by blast
  next
    fix ns
    assume "u' = u @ [pselect_sleep 0 ns]"
    then have "u' = u @ [pselect_sleep 0 ns] \<and>
        (\<forall>k. transferred os k [pselect_sleep 0 ns] = 0)" by simp
    then show ?thesis by blast
  qed
qed

lemma read_transfer_result:
  "read_transfer os p sz br u =
     (let n = ret (os (length u) (sys_read (fd p) (sz - br)));
          u1 = u @ [sys_read (fd p) (sz - br)] in
      if n < 1 then (Throw read_disconnected, u1)
      else if br + word_of_int n = sz then (Break (br + word_of_int n), u1)
      else if br + word_of_int n < sz then (Continue (br + word_of_int n), u1)
      else (Throw read_over_read, u1))"
  by (simp add: read_transfer_def sys_def Let_def)

lemma read_iteration_transferred:
  assumes it: "read_iteration os p sz deadline br v = (st, v1)"
  shows "\<exists>cs. v1 = v @ cs \<and> cs \<noteq> [] \<and> turn_ok os sz deadline br v cs st"
proof -
  define rem where "rem = deadline - out_int (os (length v) clock_now)"
  define tmo where "tmo = min (word_of_int rem) (inter_byte_timeout (timeout p))"
  define v2 where "v2 = v @ [clock_now, pselect_readfds (fd p) (uint tmo)]"
  obtain r where wr: "WaitReadable os p tmo (v @ [clock_now]) = (r, v2)"
    using WaitReadable_trace [of os p tmo "v @ [clock_now]"] unfolding v2_def by auto
  have unf: "read_iteration os p sz deadline br v =
     (if rem \<le> 0 then (Break br, v @ [clock_now])
      else
        (case (r, v2) of
           (Inl e, w2) \<Rightarrow> (Throw e, w2)
         | (Inr False, w2) \<Rightarrow> (Continue br, w2)
         | (Inr True, w2) \<Rightarrow>
             (case read_coalesce os p sz br w2 of
                (Inl e, w3) \<Rightarrow> (Throw e, w3)
              | (Inr u, w3) \<Rightarrow> read_transfer os p sz br w3)))"
    unfolding read_iteration_unfold rem_def [symmetric] tmo_def [symmetric] wr by (rule refl)
  show ?thesis
  proof (cases "rem \<le> 0")
    case True
    with it unf have "st = Break br" "v1 = v @ [clock_now]" by simp_all
    then have "v1 = v @ [clock_now] \<and> [clock_now] \<noteq> [] \<and>
        turn_ok os sz deadline br v [clock_now] st"
      using True by (simp add: turn_ok_def rem_def)
    then show ?thesis by blast
  next
    case False
    note pos = this
    show ?thesis
    proof (cases r)
      case (Inl e)
      with it unf pos have "st = Throw e" "v1 = v2" by simp_all
      then have "v1 = v @ [clock_now, pselect_readfds (fd p) (uint tmo)] \<and>
          [clock_now, pselect_readfds (fd p) (uint tmo)] \<noteq> [] \<and>
          turn_ok os sz deadline br v [clock_now, pselect_readfds (fd p) (uint tmo)] st"
        by (simp add: turn_ok_def v2_def)
      then show ?thesis by blast
    next
      case (Inr ready)
      show ?thesis
      proof (cases ready)
        case False
        with it unf pos Inr have "st = Continue br" "v1 = v2" by simp_all
        then have "v1 = v @ [clock_now, pselect_readfds (fd p) (uint tmo)] \<and>
            [clock_now, pselect_readfds (fd p) (uint tmo)] \<noteq> [] \<and>
            turn_ok os sz deadline br v [clock_now, pselect_readfds (fd p) (uint tmo)] st"
          by (simp add: turn_ok_def v2_def)
        then show ?thesis by blast
      next
        case True
        obtain rc v3 where co: "read_coalesce os p sz br v2 = (rc, v3)"
          by (cases "read_coalesce os p sz br v2")
        from read_coalesce_trace [OF co] obtain cs where
          cs: "v3 = v2 @ cs" and zero: "\<forall>k. transferred os k cs = 0"
          by blast
        show ?thesis
        proof (cases rc)
          case (Inl e)
          with it unf pos Inr True co have "st = Throw e" "v1 = v3" by simp_all
          then have "v1 = v @ ([clock_now, pselect_readfds (fd p) (uint tmo)] @ cs) \<and>
              [clock_now, pselect_readfds (fd p) (uint tmo)] @ cs \<noteq> [] \<and>
              turn_ok os sz deadline br v ([clock_now, pselect_readfds (fd p) (uint tmo)] @ cs) st"
            by (simp add: turn_ok_def v2_def cs)
          then show ?thesis by blast
        next
          case (Inr u)
          define n where "n = ret (os (length v3) (sys_read (fd p) (sz - br)))"
          define all where "all = [clock_now, pselect_readfds (fd p) (uint tmo)] @ cs @
              [sys_read (fd p) (sz - br)]"
          from it unf pos \<open>r = Inr ready\<close> True co Inr
          have tr: "read_transfer os p sz br v3 = (st, v1)" by simp
          have v1: "v1 = v @ all"
            using tr unfolding read_transfer_result by (simp add: Let_def all_def cs v2_def split: if_splits)
          have len: "length v3 = length v + (2 + length cs)"
            by (simp add: cs v2_def)
          have moved: "transferred os (length v) all = (if 0 < n then word_of_int n else 0)"
            unfolding all_def transferred_append
            using zero by (simp add: n_def len add.commute add.left_commute)
          have "turn_ok os sz deadline br v all st"
            using tr unfolding read_transfer_result Let_def n_def [symmetric]
            by (auto simp: turn_ok_def moved split: if_splits)
          with v1 have "v1 = v @ all \<and> all \<noteq> [] \<and> turn_ok os sz deadline br v all st"
            by (simp add: all_def)
          then show ?thesis by blast
        qed
      qed
    qed
  qed
qed

lemma read_loop_accumulates:
  assumes run: "read_loop os p sz deadline br v = Some y"
  shows "\<exists>cs. fst (snd y) = v @ cs \<and>
     (\<forall>n. fst y = Inr n \<longrightarrow>
        n = br + transferred os (length v) cs \<and>
        (n < sz \<longrightarrow> cs \<noteq> [] \<and> last cs = clock_now \<and>
           deadline \<le> out_int (os (length v + length cs - 1) clock_now)))"
proof (rule read_loop.raw_induct [OF _ run], goal_cases)
  case (1 read_loop' os p sz deadline br v y)
  show ?case
  proof (cases "br < sz")
    case False
    with 1(2) have y: "y = (Inr br, v, p)" by auto
    have "fst (snd y) = v @ [] \<and>
     (\<forall>n. fst y = Inr n \<longrightarrow>
        n = br + transferred os (length v) [] \<and>
        (n < sz \<longrightarrow> [] \<noteq> ([] :: syscall list) \<and> last [] = clock_now \<and>
           deadline \<le> out_int (os (length v + length ([] :: syscall list) - 1) clock_now)))"
      using False by (simp add: y)
    then show ?thesis by blast
  next
    case True
    obtain st v1 where it: "read_iteration os p sz deadline br v = (st, v1)"
      by (cases "read_iteration os p sz deadline br v")
    from read_iteration_transferred [OF it] obtain cs where
      v1: "v1 = v @ cs" and ne: "cs \<noteq> []" and ok: "turn_ok os sz deadline br v cs st"
      by blast
    show ?thesis
    proof (cases st)
      case (Continue b)
      with 1(2) True it have "read_loop' os p sz deadline b v1 = Some y" by simp
      from 1(1) [OF this] obtain cs' where
        tr: "fst (snd y) = v1 @ cs'" and
        res: "\<forall>n. fst y = Inr n \<longrightarrow>
          n = b + transferred os (length v1) cs' \<and>
          (n < sz \<longrightarrow> cs' \<noteq> [] \<and> last cs' = clock_now \<and>
             deadline \<le> out_int (os (length v1 + length cs' - 1) clock_now))"
        by blast
      have b: "b = br + transferred os (length v) cs"
        using ok Continue by (simp add: turn_ok_def)
      have "fst (snd y) = v @ (cs @ cs') \<and>
        (\<forall>n. fst y = Inr n \<longrightarrow>
          n = br + transferred os (length v) (cs @ cs') \<and>
          (n < sz \<longrightarrow> cs @ cs' \<noteq> [] \<and> last (cs @ cs') = clock_now \<and>
             deadline \<le> out_int (os (length v + length (cs @ cs') - 1) clock_now)))"
        using tr res b ne
        by (auto simp: v1 transferred_append add.assoc)
      then show ?thesis by blast
    next
      case (Break b)
      with 1(2) True it have y: "y = (Inr b, v1, p)" by simp
      have "fst (snd y) = v @ cs \<and>
        (\<forall>n. fst y = Inr n \<longrightarrow>
          n = br + transferred os (length v) cs \<and>
          (n < sz \<longrightarrow> cs \<noteq> [] \<and> last cs = clock_now \<and>
             deadline \<le> out_int (os (length v + length cs - 1) clock_now)))"
        using ok Break by (auto simp: y v1 turn_ok_def)
      then show ?thesis by blast
    next
      case (Throw e)
      with 1(2) True it have y: "y = (Inl e, v1, p)" by simp
      have "fst (snd y) = v @ cs \<and>
        (\<forall>n. fst y = Inr n \<longrightarrow>
          n = br + transferred os (length v) cs \<and>
          (n < sz \<longrightarrow> cs \<noteq> [] \<and> last cs = clock_now \<and>
             deadline \<le> out_int (os (length v + length cs - 1) clock_now)))"
        by (simp add: y v1)
      then show ?thesis by blast
    qed
  qed
qed

lemma Read_accumulates:
  assumes o: "is_open p" and run: "Read os w p sz = Some (Inr n, w', p')"
  shows "take (length w) w' = w \<and>
     n = transferred os (length w) (drop (length w) w') \<and>
     (n < sz \<longrightarrow> last w' = clock_now \<and>
        out_int (os (length w) clock_now) + sint (read_total_timeout_ms p sz)
          \<le> out_int (os (length w' - 1) clock_now))"
proof -
  define first where "first = ret (os (length w + 1) (sys_read (fd p) sz))"
  define b0 :: size_t where "b0 = (if 0 < first then word_of_int first else 0)"
  define deadline where
    "deadline = out_int (os (length w) clock_now) + sint (read_total_timeout_ms p sz)"
  define v where "v = w @ [clock_now, sys_read (fd p) sz]"
  have "read_loop os p sz deadline b0 v = Some (Inr n, w', p')"
    using run unfolding Read_unfold [OF o] deadline_def b0_def first_def v_def .
  from read_loop_accumulates [OF this] obtain cs where
    tr: "w' = v @ cs" and n: "n = b0 + transferred os (length v) cs" and
    short: "n < sz \<longrightarrow> cs \<noteq> [] \<and> last cs = clock_now \<and>
           deadline \<le> out_int (os (length v + length cs - 1) clock_now)"
    by auto
  have w': "w' = w @ ([clock_now, sys_read (fd p) sz] @ cs)" by (simp add: tr v_def)
  have b0: "transferred os (length w) [clock_now, sys_read (fd p) sz] = b0"
    by (simp add: b0_def first_def)
  have "transferred os (length w) ([clock_now, sys_read (fd p) sz] @ cs) = n"
    unfolding transferred_append b0 n by (simp add: v_def)
  then have c2: "n = transferred os (length w) (drop (length w) w')"
    by (simp add: w')
  have c1: "take (length w) w' = w" by (simp add: w')
  have c3: "n < sz \<longrightarrow> last w' = clock_now \<and> deadline \<le> out_int (os (length w' - 1) clock_now)"
    using short by (auto simp: tr v_def)
  show ?thesis using c1 c2 c3 unfolding deadline_def by blast
qed

lemma read_loop_not_ready:
  assumes "br < sz" "0 < deadline - out_int (os (length v) clock_now)"
    "WaitReadable os p
       (min (word_of_int (deadline - out_int (os (length v) clock_now)))
          (inter_byte_timeout (timeout p))) (v @ [clock_now]) = (Inr False, v2)"
  shows "read_loop os p sz deadline br v = read_loop os p sz deadline br v2"
  using assms by (subst read_loop.simps) (simp add: read_iteration_unfold)

lemma read_loop_transfer:
  assumes "br < sz" "0 < deadline - out_int (os (length v) clock_now)"
    "WaitReadable os p
       (min (word_of_int (deadline - out_int (os (length v) clock_now)))
          (inter_byte_timeout (timeout p))) (v @ [clock_now]) = (Inr True, v2)"
    "read_coalesce os p sz br v2 = (Inr (), v3)"
    "1 \<le> ret (os (length v3) (sys_read (fd p) (sz - br)))"
  shows "read_loop os p sz deadline br v =
     (let b = br + word_of_int (ret (os (length v3) (sys_read (fd p) (sz - br))));
          v4 = v3 @ [sys_read (fd p) (sz - br)] in
      if b = sz then Some (Inr b, v4, p)
      else if b < sz then read_loop os p sz deadline b v4
      else Some (Inl read_over_read, v4, p))"
  using assms
  by (subst read_loop.simps) (simp add: read_iteration_unfold read_transfer_result Let_def)

text \<open>
  C1: \<^verbatim>\<open>Read\<close> on a port that is not open throws \<^verbatim>\<open>PortNotOpenedException\<close> at once,
  without a system call. On an open port it starts the timer, attempts one transfer of
  the whole request and then enters the loop, with the deadline at the reading of the
  clock plus the total timeout; the total timeout is \<^verbatim>\<open>read_timeout_constant\<close> +
  \<^verbatim>\<open>read_timeout_multiplier\<close> \<open>\<times>\<close> size, provided that sum fits in a \<^verbatim>\<open>long\<close> (beyond, the
  sum of line 606 is undefined in C++ and wraps in the model). A turn of the loop
  starts with fewer bytes read than requested and reads the clock. If the deadline has
  passed, \<^verbatim>\<open>Read\<close> returns the bytes read so far, as a count and not as an exception.
  Otherwise the turn makes one readiness wait, right after reading the clock, with a
  timeout that is at most the time remaining and at most \<^verbatim>\<open>inter_byte_timeout\<close>, and no
  other. If the wait does not report the device readable, the next turn starts with the
  same count. If it does, and the transfer that follows moves at least one byte, these
  bytes are added to the count: \<^verbatim>\<open>Read\<close> returns the count if it is the request, goes
  round with it if it is less, and throws if it is more. Over the whole call: the count
  that \<^verbatim>\<open>Read\<close> returns is the sum of what its \<^verbatim>\<open>::read\<close> calls have moved, the first
  attempt and those of the loop; and when that count is less than the request, the last
  thing \<^verbatim>\<open>Read\<close> did was to read the clock and find the deadline reached.
\<close>

theorem Read_deadline_and_waits:
  "(\<not> is_open p \<longrightarrow>
      Read os w p sz = Some (Inl (PortNotOpenedException ''Serial::read''), w, p)) \<and>
   (is_open p \<longrightarrow>
      Read os w p sz =
        read_loop os p sz
          (out_int (os (length w) clock_now) + sint (read_total_timeout_ms p sz))
          (if 0 < ret (os (length w + 1) (sys_read (fd p) sz))
           then word_of_int (ret (os (length w + 1) (sys_read (fd p) sz))) else 0)
          (w @ [clock_now, sys_read (fd p) sz])) \<and>
   (uint (read_timeout_constant (timeout p)) +
      uint (read_timeout_multiplier (timeout p)) * uint sz < 2 ^ 63 \<longrightarrow>
      sint (read_total_timeout_ms p sz) =
        uint (read_timeout_constant (timeout p)) +
        uint (read_timeout_multiplier (timeout p)) * uint sz) \<and>
   (br < sz \<and> deadline - out_int (os (length v) clock_now) \<le> 0 \<longrightarrow>
      read_loop os p sz deadline br v = Some (Inr br, v @ [clock_now], p)) \<and>
   (is_open p \<and> 0 < deadline - out_int (os (length v) clock_now) \<longrightarrow>
      (\<exists>tmo rest.
          drop (length v) (snd (read_iteration os p sz deadline br v)) =
            clock_now # pselect_readfds (fd p) (uint tmo) # rest \<and>
          uint tmo \<le> deadline - out_int (os (length v) clock_now) \<and>
          tmo \<le> inter_byte_timeout (timeout p) \<and>
          (\<forall>d t. pselect_readfds d t \<notin> set rest))) \<and>
   (br < sz \<and> 0 < deadline - out_int (os (length v) clock_now) \<and>
    WaitReadable os p
      (min (word_of_int (deadline - out_int (os (length v) clock_now)))
         (inter_byte_timeout (timeout p))) (v @ [clock_now]) = (Inr False, v2) \<longrightarrow>
      read_loop os p sz deadline br v = read_loop os p sz deadline br v2) \<and>
   (br < sz \<and> 0 < deadline - out_int (os (length v) clock_now) \<and>
    WaitReadable os p
      (min (word_of_int (deadline - out_int (os (length v) clock_now)))
         (inter_byte_timeout (timeout p))) (v @ [clock_now]) = (Inr True, v2) \<and>
    read_coalesce os p sz br v2 = (Inr (), v3) \<and>
    1 \<le> ret (os (length v3) (sys_read (fd p) (sz - br))) \<longrightarrow>
      read_loop os p sz deadline br v =
        (let b = br + word_of_int (ret (os (length v3) (sys_read (fd p) (sz - br))));
             v4 = v3 @ [sys_read (fd p) (sz - br)] in
         if b = sz then Some (Inr b, v4, p)
         else if b < sz then read_loop os p sz deadline b v4
         else Some (Inl read_over_read, v4, p))) \<and>
   (is_open p \<and> Read os w p sz = Some (Inr n, w', p') \<longrightarrow>
      take (length w) w' = w \<and>
      n = transferred os (length w) (drop (length w) w') \<and>
      (n < sz \<longrightarrow> last w' = clock_now \<and>
         out_int (os (length w) clock_now) + sint (read_total_timeout_ms p sz)
           \<le> out_int (os (length w' - 1) clock_now)))"
proof -
  have c1: "\<not> is_open p \<longrightarrow>
      Read os w p sz = Some (Inl (PortNotOpenedException ''Serial::read''), w, p)"
    by (simp add: Read_def)
  have c2: "is_open p \<longrightarrow>
      Read os w p sz =
        read_loop os p sz
          (out_int (os (length w) clock_now) + sint (read_total_timeout_ms p sz))
          (if 0 < ret (os (length w + 1) (sys_read (fd p) sz))
           then word_of_int (ret (os (length w + 1) (sys_read (fd p) sz))) else 0)
          (w @ [clock_now, sys_read (fd p) sz])"
    using Read_unfold by blast
  have c3: "uint (read_timeout_constant (timeout p)) +
      uint (read_timeout_multiplier (timeout p)) * uint sz < 2 ^ 63 \<longrightarrow>
      sint (read_total_timeout_ms p sz) =
        uint (read_timeout_constant (timeout p)) +
        uint (read_timeout_multiplier (timeout p)) * uint sz"
    unfolding read_total_timeout_ms_def using sint_total_timeout by blast
  have c4: "br < sz \<and> deadline - out_int (os (length v) clock_now) \<le> 0 \<longrightarrow>
      read_loop os p sz deadline br v = Some (Inr br, v @ [clock_now], p)"
    using read_loop_deadline_passed by blast
  have c5: "is_open p \<and> 0 < deadline - out_int (os (length v) clock_now) \<longrightarrow>
      (\<exists>tmo rest.
          drop (length v) (snd (read_iteration os p sz deadline br v)) =
            clock_now # pselect_readfds (fd p) (uint tmo) # rest \<and>
          uint tmo \<le> deadline - out_int (os (length v) clock_now) \<and>
          tmo \<le> inter_byte_timeout (timeout p) \<and>
          (\<forall>d t. pselect_readfds d t \<notin> set rest))"
    using read_iteration_wait by blast
  have c6: "br < sz \<and> 0 < deadline - out_int (os (length v) clock_now) \<and>
    WaitReadable os p
      (min (word_of_int (deadline - out_int (os (length v) clock_now)))
         (inter_byte_timeout (timeout p))) (v @ [clock_now]) = (Inr False, v2) \<longrightarrow>
      read_loop os p sz deadline br v = read_loop os p sz deadline br v2"
    using read_loop_not_ready by blast
  have c7: "br < sz \<and> 0 < deadline - out_int (os (length v) clock_now) \<and>
    WaitReadable os p
      (min (word_of_int (deadline - out_int (os (length v) clock_now)))
         (inter_byte_timeout (timeout p))) (v @ [clock_now]) = (Inr True, v2) \<and>
    read_coalesce os p sz br v2 = (Inr (), v3) \<and>
    1 \<le> ret (os (length v3) (sys_read (fd p) (sz - br))) \<longrightarrow>
      read_loop os p sz deadline br v =
        (let b = br + word_of_int (ret (os (length v3) (sys_read (fd p) (sz - br))));
             v4 = v3 @ [sys_read (fd p) (sz - br)] in
         if b = sz then Some (Inr b, v4, p)
         else if b < sz then read_loop os p sz deadline b v4
         else Some (Inl read_over_read, v4, p))"
    using read_loop_transfer by blast
  have c8: "is_open p \<and> Read os w p sz = Some (Inr n, w', p') \<longrightarrow>
      take (length w) w' = w \<and>
      n = transferred os (length w) (drop (length w) w') \<and>
      (n < sz \<longrightarrow> last w' = clock_now \<and>
         out_int (os (length w) clock_now) + sint (read_total_timeout_ms p sz)
           \<le> out_int (os (length w' - 1) clock_now))"
    using Read_accumulates by blast
  show ?thesis by (intro conjI c1 c2 c3 c4 c5 c6 c7 c8)
qed

theorem Read_deadline_and_waits_witness:
  "Read silent_device [] closed_port 4 =
     Some (Inl (PortNotOpenedException ''Serial::read''), [], closed_port) \<and>
   sint (read_total_timeout_ms open_port 4) = 108 \<and>
   Read silent_device [] open_port 4 =
     Some (Inr 0, [clock_now, sys_read 3 4, clock_now, pselect_readfds 3 8, clock_now],
       open_port) \<and>
   (\<exists>(tmo :: 32 word) rest.
      drop (length [clock_now, sys_read 3 4])
        (snd (read_iteration silent_device open_port 4 108 0 [clock_now, sys_read 3 4])) =
        clock_now # pselect_readfds 3 (uint tmo) # rest \<and>
      uint tmo \<le> 8) \<and>
   Read (ready_device 10 1) [] open_port 10 =
     Some (Inr 4,
       [clock_now, sys_read 3 10,
        clock_now, pselect_readfds 3 100, ioctl_TIOCINQ 3, sys_read 3 9,
        clock_now, pselect_readfds 3 60, ioctl_TIOCINQ 3, sys_read 3 8,
        clock_now, pselect_readfds 3 20, ioctl_TIOCINQ 3, sys_read 3 7,
        clock_now], open_port) \<and>
   transferred (ready_device 10 1) 0
       [clock_now, sys_read 3 10,
        clock_now, pselect_readfds 3 100, ioctl_TIOCINQ 3, sys_read 3 9,
        clock_now, pselect_readfds 3 60, ioctl_TIOCINQ 3, sys_read 3 8,
        clock_now, pselect_readfds 3 20, ioctl_TIOCINQ 3, sys_read 3 7,
        clock_now] = 4 \<and>
   out_int (ready_device 10 1 0 clock_now) + sint (read_total_timeout_ms open_port 10) = 120 \<and>
   out_int (ready_device 10 1 14 clock_now) = 140"
proof -
  note t = Read_deadline_and_waits
  note sd = io_defs silent_device_def
  have a: "Read silent_device [] closed_port 4 =
      Some (Inl (PortNotOpenedException ''Serial::read''), [], closed_port)"
    using t [where p = closed_port and os = silent_device and w = "[]" and sz = 4]
    by (simp add: closed_port_def)
  have b: "sint (read_total_timeout_ms open_port 4) = 108"
    using t [where p = open_port and sz = 4]
    by (simp add: sd)
  have c: "Read silent_device [] open_port 4 =
      read_loop silent_device open_port 4 108 0 [clock_now, sys_read 3 4]"
    using t [where p = open_port and os = silent_device and w = "[]" and sz = 4]
    by (simp add: b) (simp add: sd)
  have hd: "(0 :: size_t) < 4 \<and>
      0 < 108 - out_int (silent_device (length [clock_now, sys_read 3 4]) clock_now) \<and>
      WaitReadable silent_device open_port
        (min (word_of_int (108 - out_int (silent_device (length [clock_now, sys_read 3 4]) clock_now)))
           (inter_byte_timeout (timeout open_port))) ([clock_now, sys_read 3 4] @ [clock_now]) =
        (Inr False, [clock_now, sys_read 3 4, clock_now, pselect_readfds 3 8])"
    by (simp add: WaitReadable_def sys_def sd)
  have d: "read_loop silent_device open_port 4 108 0 [clock_now, sys_read 3 4] =
      read_loop silent_device open_port 4 108 0
        [clock_now, sys_read 3 4, clock_now, pselect_readfds 3 8]"
    using t [where p = open_port and os = silent_device and sz = 4 and br = 0
        and deadline = 108 and v = "[clock_now, sys_read 3 4]"
        and ?v2.0 = "[clock_now, sys_read 3 4, clock_now, pselect_readfds 3 8]",
        THEN conjunct2, THEN conjunct2, THEN conjunct2, THEN conjunct2, THEN conjunct2,
        THEN conjunct1, THEN mp, OF hd] .
  have e: "read_loop silent_device open_port 4 108 0
        [clock_now, sys_read 3 4, clock_now, pselect_readfds 3 8] =
      Some (Inr 0, [clock_now, sys_read 3 4, clock_now, pselect_readfds 3 8, clock_now],
        open_port)"
    using t [where p = open_port and os = silent_device and sz = 4 and br = 0
        and deadline = 108 and v = "[clock_now, sys_read 3 4, clock_now, pselect_readfds 3 8]"]
    by (simp add: silent_device_def reply_ok_def)
  have f: "\<exists>(tmo :: 32 word) rest.
      drop (length [clock_now, sys_read 3 4])
        (snd (read_iteration silent_device open_port 4 108 0 [clock_now, sys_read 3 4])) =
        clock_now # pselect_readfds 3 (uint tmo) # rest \<and>
      uint tmo \<le> 8"
  proof -
    have h: "is_open open_port \<and>
        0 < 108 - out_int (silent_device (length [clock_now, sys_read 3 4]) clock_now)"
      by (simp add: sd)
    note five = t [where p = open_port and os = silent_device and sz = 4 and br = 0
        and deadline = 108 and v = "[clock_now, sys_read 3 4]",
        THEN conjunct2, THEN conjunct2, THEN conjunct2, THEN conjunct2, THEN conjunct1,
        THEN mp, OF h]
    from five obtain tmo :: "32 word" and rest where
      x: "drop (length [clock_now, sys_read 3 4])
          (snd (read_iteration silent_device open_port 4 108 0 [clock_now, sys_read 3 4])) =
            clock_now # pselect_readfds (fd open_port) (uint tmo) # rest"
      and y: "uint tmo \<le> 108 - out_int (silent_device (length [clock_now, sys_read 3 4]) clock_now)"
      by blast
    have "uint tmo \<le> 8" using y by (simp add: sd)
    moreover have "fd open_port = 3" by (simp add: sd)
    ultimately show ?thesis using x by (intro exI [of _ tmo] exI [of _ rest]) simp
  qed
  define dev where "dev = ready_device 10 1"
  define tr1 where "tr1 = [clock_now, sys_read 3 10]"
  define tr2 where "tr2 = tr1 @ [clock_now, pselect_readfds 3 100, ioctl_TIOCINQ 3, sys_read 3 9]"
  define tr3 where "tr3 = tr2 @ [clock_now, pselect_readfds 3 60, ioctl_TIOCINQ 3, sys_read 3 8]"
  define tr4 where "tr4 = tr3 @ [clock_now, pselect_readfds 3 20, ioctl_TIOCINQ 3, sys_read 3 7]"
  note trs = tr1_def tr2_def tr3_def tr4_def
  note ev = read_iteration_unfold WaitReadable_def read_coalesce_def Available_def
    read_transfer_def sys_def io_defs
  have g0: "sint (read_total_timeout_ms open_port 10) = 120"
    using t [where p = open_port and sz = 10] by (simp add: io_defs)
  have g1: "Read dev [] open_port 10 = read_loop dev open_port 10 120 1 tr1"
    using t [where p = open_port and os = dev and w = "[]" and sz = 10]
    by (simp add: g0) (simp add: io_defs dev_def trs)
  have h2: "(1 :: size_t) < 10 \<and> 0 < 120 - out_int (dev (length tr1) clock_now) \<and>
      WaitReadable dev open_port
        (min (word_of_int (120 - out_int (dev (length tr1) clock_now)))
           (inter_byte_timeout (timeout open_port))) (tr1 @ [clock_now]) =
        (Inr True, tr1 @ [clock_now, pselect_readfds 3 100]) \<and>
      read_coalesce dev open_port 10 1 (tr1 @ [clock_now, pselect_readfds 3 100]) =
        (Inr (), tr1 @ [clock_now, pselect_readfds 3 100, ioctl_TIOCINQ 3]) \<and>
      1 \<le> ret (dev (length (tr1 @ [clock_now, pselect_readfds 3 100, ioctl_TIOCINQ 3]))
        (sys_read (fd open_port) (10 - 1)))"
    by (simp add: WaitReadable_def read_coalesce_def Available_def sys_def io_defs dev_def trs)
  have g2: "read_loop dev open_port 10 120 1 tr1 = read_loop dev open_port 10 120 2 tr2"
    using t [where p = open_port and os = dev and sz = 10 and br = 1
        and deadline = 120 and v = tr1
        and ?v2.0 = "tr1 @ [clock_now, pselect_readfds 3 100]"
        and ?v3.0 = "tr1 @ [clock_now, pselect_readfds 3 100, ioctl_TIOCINQ 3]",
        THEN conjunct2, THEN conjunct2, THEN conjunct2, THEN conjunct2, THEN conjunct2,
        THEN conjunct2, THEN conjunct1, THEN mp, OF h2]
    by (simp add: io_defs dev_def trs)
  have g3: "read_loop dev open_port 10 120 2 tr2 = read_loop dev open_port 10 120 3 tr3"
    by (subst read_loop.simps) (simp add: ev dev_def trs)
  have g4: "read_loop dev open_port 10 120 3 tr3 = read_loop dev open_port 10 120 4 tr4"
    by (subst read_loop.simps) (simp add: ev dev_def trs)
  have g5: "read_loop dev open_port 10 120 4 tr4 = Some (Inr 4, tr4 @ [clock_now], open_port)"
    using t [where p = open_port and os = dev and sz = 10 and br = 4
        and deadline = 120 and v = tr4]
    by (simp add: io_defs dev_def trs)
  have g: "Read dev [] open_port 10 = Some (Inr 4, tr4 @ [clock_now], open_port)"
    unfolding g1 g2 g3 g4 g5 by (rule refl)
  have o: "is_open open_port" by (simp add: open_port_def)
  have acc: "4 = transferred dev (length ([] :: world)) (drop (length ([] :: world)) (tr4 @ [clock_now]))"
    using t [where p = open_port and os = dev and w = "[]" and sz = 10 and n = 4
        and w' = "tr4 @ [clock_now]" and p' = open_port,
        THEN conjunct2, THEN conjunct2, THEN conjunct2, THEN conjunct2, THEN conjunct2,
        THEN conjunct2, THEN conjunct2, THEN mp, OF conjI [OF o g]]
    by (rule conjunct2 [THEN conjunct1])
  have i: "out_int (dev 0 clock_now) + sint (read_total_timeout_ms open_port 10) = 120"
    by (simp add: g0) (simp add: io_defs dev_def)
  have j: "out_int (dev 14 clock_now) = 140"
    by (simp add: io_defs dev_def)
  show ?thesis
    using a b e f g acc [symmetric] i j
    unfolding c d dev_def trs by simp
qed


lemma Write_unfold:
  assumes "is_open p"
  shows "Write os w p len =
        write_loop os p len
          (out_int (os (length w) clock_now) + sint (write_total_timeout_ms p len)) 0
          (w @ [clock_now])"
  using assms by (simp add: Write_def MilliTimer_def sys_def)

theorem transfer_without_data_is_fatal_witness:
  "read_loop (ready_device 4 0) open_port 4 1000 0 [] =
     Some (Inl read_disconnected,
       [clock_now, pselect_readfds 3 1000, ioctl_TIOCINQ 3, sys_read 3 4], open_port) \<and>
   write_loop (ready_device 4 0) open_port 4 1000 0 [] =
     Some (Inl write_disconnected,
       [clock_now, pselect_writefds 3 1000, sys_write 3 4], open_port) \<and>
   Read (ready_device 4 0) [] open_port 4 =
     Some (Inl read_disconnected,
       [clock_now, sys_read 3 4, clock_now, pselect_readfds 3 88, ioctl_TIOCINQ 3, sys_read 3 4],
       open_port) \<and>
   Write (ready_device 4 0) [] open_port 4 =
     Some (Inl write_disconnected,
       [clock_now, clock_now, pselect_writefds 3 98, sys_write 3 4], open_port)"
proof -
  note t = transfer_without_data_is_fatal
  have hr: "(0 :: size_t) < 4 \<and>
      Remaining (ready_device 4 0) 1000 [] = (1000, [clock_now]) \<and> (0 :: int) < 1000 \<and>
      WaitReadable (ready_device 4 0) open_port
        (min (word_of_int 1000) (inter_byte_timeout (timeout open_port))) [clock_now] =
        (Inr True, [clock_now, pselect_readfds 3 1000]) \<and>
      read_coalesce (ready_device 4 0) open_port 4 0 [clock_now, pselect_readfds 3 1000] =
        (Inr (), [clock_now, pselect_readfds 3 1000, ioctl_TIOCINQ 3]) \<and>
      ret (ready_device 4 0 (length [clock_now, pselect_readfds 3 1000, ioctl_TIOCINQ 3])
        (sys_read (fd open_port) (4 - 0))) < 1"
    by (simp add: Remaining_eq WaitReadable_def read_coalesce_def Available_def sys_def io_defs)
  have a: "read_loop (ready_device 4 0) open_port 4 1000 0 [] =
     Some (Inl read_disconnected,
       [clock_now, pselect_readfds 3 1000, ioctl_TIOCINQ 3, sys_read 3 4], open_port)"
    using t [THEN conjunct1, THEN mp, OF hr] by (simp add: open_port_def)
  have hw: "(0 :: size_t) < 4 \<and>
      Remaining (ready_device 4 0) 1000 [] = (1000, [clock_now]) \<and> (0 :: int) < 1000 \<and>
      0 < ret (ready_device 4 0 (length [clock_now]) (pselect_writefds (fd open_port) 1000)) \<and>
      fd_isset (ready_device 4 0 (length [clock_now]) (pselect_writefds (fd open_port) 1000)) \<and>
      ret (ready_device 4 0 (length [clock_now] + 1) (sys_write (fd open_port) (4 - 0))) < 1"
    by (simp add: Remaining_eq io_defs)
  have b: "write_loop (ready_device 4 0) open_port 4 1000 0 [] =
     Some (Inl write_disconnected,
       [clock_now, pselect_writefds 3 1000, sys_write 3 4], open_port)"
    using t [THEN conjunct2, THEN conjunct1, THEN mp, OF hw] by (simp add: open_port_def)
  have c: "Read (ready_device 4 0) [] open_port 4 =
     Some (Inl read_disconnected,
       [clock_now, sys_read 3 4, clock_now, pselect_readfds 3 88, ioctl_TIOCINQ 3, sys_read 3 4],
       open_port)"
    unfolding Read_def
    by (subst read_loop.simps)
      (simp add: read_iteration_unfold MilliTimer_def WaitReadable_def read_coalesce_def
        Available_def read_transfer_def read_total_timeout_ms_def sys_def io_defs)
  have d: "Write (ready_device 4 0) [] open_port 4 =
     Some (Inl write_disconnected,
       [clock_now, clock_now, pselect_writefds 3 98, sys_write 3 4], open_port)"
  proof -
    have o: "is_open open_port" by (simp add: open_port_def)
    have "Write (ready_device 4 0) [] open_port 4 =
        write_loop (ready_device 4 0) open_port 4 108 0 [clock_now]"
      unfolding Write_unfold [OF o]
      by (simp add: write_total_timeout_ms_def io_defs)
    also have "\<dots> = Some (Inl write_disconnected,
       [clock_now, clock_now, pselect_writefds 3 98, sys_write 3 4], open_port)"
      by (subst write_loop.simps) (simp add: write_iteration_unfold io_defs)
    finally show ?thesis .
  qed
  show ?thesis by (intro conjI a b c d)
qed


theorem Read_Write_never_exceed_request_witness:
  "(\<forall>k d n. ret (ready_device 4 1 k (sys_read d n)) \<le> uint n) \<and>
   (\<forall>k d n. ret (ready_device 4 1 k (sys_write d n)) \<le> uint n) \<and>
   Read (ready_device 4 1) [] open_port 2 =
     Some (Inr 2,
       [clock_now, sys_read 3 2, clock_now, pselect_readfds 3 84, ioctl_TIOCINQ 3, sys_read 3 1],
       open_port) \<and>
   Write (ready_device 4 1) [] open_port 1 =
     Some (Inr 1, [clock_now, clock_now, pselect_writefds 3 92, sys_write 3 1], open_port) \<and>
   Inr 2 \<noteq> (Inl read_over_read :: exn + size_t) \<and>
   Inr 1 \<noteq> (Inl write_over_wrote :: exn + size_t)"
proof -
  have o: "is_open open_port" by (simp add: open_port_def)
  have hr: "\<forall>k d n. ret (ready_device 4 1 k (sys_read d n)) \<le> uint n"
    by (simp add: ready_device_def reply_ok_def)
  have hw: "\<forall>k d n. ret (ready_device 4 1 k (sys_write d n)) \<le> uint n"
    by (simp add: ready_device_def reply_ok_def)
  have r: "Read (ready_device 4 1) [] open_port 2 =
     Some (Inr 2,
       [clock_now, sys_read 3 2, clock_now, pselect_readfds 3 84, ioctl_TIOCINQ 3, sys_read 3 1],
       open_port)"
  proof -
    have "Read (ready_device 4 1) [] open_port 2 =
        read_loop (ready_device 4 1) open_port 2 104 1 [clock_now, sys_read 3 2]"
      unfolding Read_unfold [OF o]
      by (simp add: read_total_timeout_ms_def io_defs)
    also have "\<dots> = Some (Inr 2,
       [clock_now, sys_read 3 2, clock_now, pselect_readfds 3 84, ioctl_TIOCINQ 3, sys_read 3 1],
       open_port)"
      by (subst read_loop.simps)
        (simp add: read_iteration_unfold WaitReadable_def read_coalesce_def Available_def
          read_transfer_def sys_def io_defs)
    finally show ?thesis .
  qed
  have w: "Write (ready_device 4 1) [] open_port 1 =
     Some (Inr 1, [clock_now, clock_now, pselect_writefds 3 92, sys_write 3 1], open_port)"
  proof -
    have "Write (ready_device 4 1) [] open_port 1 =
        write_loop (ready_device 4 1) open_port 1 102 0 [clock_now]"
      unfolding Write_unfold [OF o]
      by (simp add: write_total_timeout_ms_def io_defs)
    also have "\<dots> = Some (Inr 1,
        [clock_now, clock_now, pselect_writefds 3 92, sys_write 3 1], open_port)"
      by (subst write_loop.simps) (simp add: write_iteration_unfold io_defs)
    finally show ?thesis .
  qed
  note t = Read_Write_never_exceed_request [OF hr hw]
  have a: "Inr 2 \<noteq> (Inl read_over_read :: exn + size_t)"
    using t [THEN conjunct1, THEN mp, OF r] by (rule conjunct1)
  have b: "Inr 1 \<noteq> (Inl write_over_wrote :: exn + size_t)"
    using t [THEN conjunct2, THEN mp, OF w] by (rule conjunct1)
  show ?thesis by (intro conjI hr hw r w a b)
qed

end
